(* ===== verification/Prelude.thy ===== *)
theory Prelude
  imports Complex_Main "HOL-Library.Multiset" "HOL-Library.Word" "HOL-Library.Sublist"
begin

text \<open>
  The vocabulary every component theory shares: the Go runtime's time and integer types, the
  result of a fallible call, Go's reads of a missing map key, and generic facts on lists, maps and
  multisets.

  \<^item> \<open>gotime\<close> is an instant in nanoseconds after Go's zero time, so \<open>t.IsZero()\<close> is \<open>t = 0\<close>;
    \<open>duration\<close> is a \<open>time.Duration\<close>, an \<open>int64\<close> count of nanoseconds. \<open>time_sub\<close> saturates at
    the ends of \<open>int64\<close>, as \<open>time.Time.Sub\<close> does.
  \<^item> \<open>wrap64\<close> is the value an \<open>int64\<close> holds after an arithmetic step; counters the code keeps for
    the life of the process (versions, epochs) are incremented with it.
  \<^item> A fallible call returns \<open>'e + 'a\<close>, \<open>Inl\<close> for the error.
  \<^item> A Go map is a partial function; \<open>map_read d m k\<close> is the expression \<open>m[k]\<close>, whose value for a
    missing key is the zero value \<open>d\<close> of the element type.
\<close>

section \<open>Collections of facts\<close>

named_theorems frame_simps \<open>what an operation leaves unchanged\<close>
named_theorems inv_intros \<open>invariants an operation establishes or keeps\<close>

section \<open>Time and integers of the Go runtime\<close>

type_synonym gotime = int
type_synonym duration = int

abbreviation millisecond :: duration where "millisecond \<equiv> 1000000"
abbreviation second :: duration where "second \<equiv> 1000000000"
abbreviation minute :: duration where "minute \<equiv> 60000000000"
abbreviation hour :: duration where "hour \<equiv> 3600000000000"

definition max_int64 :: int where "max_int64 = 9223372036854775807"
definition min_int64 :: int where "min_int64 = - 9223372036854775808"

definition wrap64 :: "int \<Rightarrow> int" where
  "wrap64 x = (x + 9223372036854775808) mod 18446744073709551616 - 9223372036854775808"

definition time_sub :: "gotime \<Rightarrow> gotime \<Rightarrow> duration" where
  "time_sub t u = max min_int64 (min max_int64 (t - u))"

text \<open>Seconds between Go's zero time (1 January of year 1) and the Unix epoch.\<close>

definition unix_epoch_seconds :: int where "unix_epoch_seconds = 62135596800"

definition to_unix :: "gotime \<Rightarrow> int" where
  "to_unix t = t div second - unix_epoch_seconds"

definition of_unix :: "int \<Rightarrow> gotime" where
  "of_unix s = (s + unix_epoch_seconds) * second"

lemmas int64_defs = max_int64_def min_int64_def

lemma wrap64_id [simp]: "min_int64 \<le> x \<Longrightarrow> x \<le> max_int64 \<Longrightarrow> wrap64 x = x"
  by (simp add: wrap64_def int64_defs)

lemma wrap64_bounds: "min_int64 \<le> wrap64 x \<and> wrap64 x \<le> max_int64"
proof -
  have "0 \<le> (x + 9223372036854775808) mod 18446744073709551616"
    and "(x + 9223372036854775808) mod 18446744073709551616 < 18446744073709551616"
    by simp_all
  then show ?thesis by (simp add: wrap64_def int64_defs)
qed

lemma wrap64_overflow: "wrap64 (max_int64 + 1) = min_int64"
  by (simp add: wrap64_def int64_defs)

lemma time_sub_mono: "t \<le> t' \<Longrightarrow> time_sub t u \<le> time_sub t' u"
  by (simp add: time_sub_def)

lemma time_sub_antimono: "u \<le> u' \<Longrightarrow> time_sub t u' \<le> time_sub t u"
  by (simp add: time_sub_def)

lemma time_sub_exact: "min_int64 \<le> t - u \<Longrightarrow> t - u \<le> max_int64 \<Longrightarrow> time_sub t u = t - u"
  by (simp add: time_sub_def)

lemma time_sub_bounds: "min_int64 \<le> time_sub t u" "time_sub t u \<le> max_int64"
  by (simp_all add: time_sub_def int64_defs)

lemma of_unix_to_unix: "of_unix (to_unix t) \<le> t \<and> t < of_unix (to_unix t) + second"
proof -
  have "t div second * second + t mod second = t" by (rule div_mult_mod_eq)
  moreover have "0 \<le> t mod second" "t mod second < second" by simp_all
  ultimately have "t div second * second \<le> t \<and> t < t div second * second + second"
    by linarith
  then show ?thesis by (simp add: of_unix_def to_unix_def)
qed

lemma to_unix_of_unix [simp]: "to_unix (of_unix s) = s"
  by (simp add: to_unix_def of_unix_def)

section \<open>Maps\<close>

definition map_read :: "'v \<Rightarrow> ('k \<rightharpoonup> 'v) \<Rightarrow> 'k \<Rightarrow> 'v" where
  "map_read d m k = (case m k of None \<Rightarrow> d | Some v \<Rightarrow> v)"

lemma map_read_empty [simp]: "map_read d (\<lambda>_. None) k = d"
  by (simp add: map_read_def)

lemma map_read_upd [simp]: "map_read d (m(k \<mapsto> v)) j = (if j = k then v else map_read d m j)"
  by (simp add: map_read_def)

lemma map_read_del [simp]: "map_read d (m(k := None)) j = (if j = k then d else map_read d m j)"
  by (simp add: map_read_def)

lemma map_read_Some [simp]: "m k = Some v \<Longrightarrow> map_read d m k = v"
  by (simp add: map_read_def)

lemma map_read_None [simp]: "m k = None \<Longrightarrow> map_read d m k = d"
  by (simp add: map_read_def)

text \<open>
  Ranging over a Go map visits every key once, in an order the runtime chooses. An operation that
  ranges over a map takes that order as an argument; \<open>map_order\<close> says a list is a possible one.
\<close>

definition map_order :: "('k \<rightharpoonup> 'v) \<Rightarrow> 'k list \<Rightarrow> bool" where
  "map_order m ks \<longleftrightarrow> distinct ks \<and> set ks = dom m"

lemma map_orderD: "map_order m ks \<Longrightarrow> k \<in> set ks \<longleftrightarrow> k \<in> dom m"
  by (simp add: map_order_def)

lemma map_order_exists: "finite (dom m) \<Longrightarrow> \<exists>ks. map_order m ks"
  by (metis finite_distinct_list map_order_def)

lemma map_order_length: "map_order m ks \<Longrightarrow> length ks = card (dom m)"
  by (metis distinct_card map_order_def)

definition map_values :: "('k \<rightharpoonup> 'v) \<Rightarrow> 'k list \<Rightarrow> 'v list" where
  "map_values m ks = List.map_filter m ks"

lemma set_map_values: "map_order m ks \<Longrightarrow> set (map_values m ks) = ran m"
  by (force simp: map_order_def map_values_def List.map_filter_def ran_def dom_def)

section \<open>Lists\<close>

definition swap :: "'a list \<Rightarrow> nat \<Rightarrow> nat \<Rightarrow> 'a list" where
  "swap xs i j = xs[i := xs ! j, j := xs ! i]"

lemma length_swap [simp]: "length (swap xs i j) = length xs"
  by (simp add: swap_def)

lemma mset_swap_at [simp]: "i < length xs \<Longrightarrow> j < length xs \<Longrightarrow> mset (swap xs i j) = mset xs"
  by (simp add: swap_def mset_swap)

lemma nth_swap:
  "i < length xs \<Longrightarrow> j < length xs \<Longrightarrow>
   swap xs i j ! k = (if k = j then xs ! i else if k = i then xs ! j else xs ! k)"
  by (auto simp: swap_def nth_list_update)

lemma mset_butlast_last: "xs \<noteq> [] \<Longrightarrow> add_mset (last xs) (mset (butlast xs)) = mset xs"
  by (induction xs) auto

lemma length_filter_mset: "length (filter P xs) = size (filter_mset P (mset xs))"
  by (simp flip: mset_filter)

section \<open>Decimal numerals\<close>

text \<open>\<open>fmt.Sprintf("%d", n)\<close>.\<close>

definition digit_char :: "nat \<Rightarrow> char" where
  "digit_char d = char_of (48 + d)"

fun nat_digits :: "nat \<Rightarrow> string" where
  "nat_digits n = (if n < 10 then [digit_char n] else nat_digits (n div 10) @ [digit_char (n mod 10)])"

declare nat_digits.simps [simp del]

definition itoa :: "int \<Rightarrow> string" where
  "itoa n = (if n < 0 then CHR ''-'' # nat_digits (nat (- n)) else nat_digits (nat n))"

lemma nat_digits_step [simp]:
  "n < 10 \<Longrightarrow> nat_digits n = [digit_char n]"
  "10 \<le> n \<Longrightarrow> nat_digits n = nat_digits (n div 10) @ [digit_char (n mod 10)]"
  by (subst nat_digits.simps, simp)+

text \<open>\<open>strconv.ParseInt(s, 10, 64)\<close>; \<open>None\<close> is a syntax or range error.\<close>

definition digit_value :: "char \<Rightarrow> nat option" where
  "digit_value c = (if (48 :: nat) \<le> of_char c \<and> of_char c \<le> (57 :: nat) then Some (of_char c - 48) else None)"

fun parse_digits :: "nat \<Rightarrow> string \<Rightarrow> nat option" where
  "parse_digits acc [] = Some acc"
| "parse_digits acc (c # cs) =
     (case digit_value c of None \<Rightarrow> None | Some d \<Rightarrow> parse_digits (10 * acc + d) cs)"

definition parse_int :: "string \<Rightarrow> int option" where
  "parse_int s =
     (let neg = (s \<noteq> [] \<and> hd s = CHR ''-'');
          ds = (if s \<noteq> [] \<and> hd s \<in> {CHR ''-'', CHR ''+''} then tl s else s)
      in if ds = [] then None
         else case parse_digits 0 ds of
             None \<Rightarrow> None
           | Some n \<Rightarrow>
               (let i = (if neg then - int n else int n) in
                if min_int64 \<le> i \<and> i \<le> max_int64 then Some i else None))"

lemma digit_value_char [simp]: "d < 10 \<Longrightarrow> digit_value (digit_char d) = Some d"
  by (simp add: digit_value_def digit_char_def)

lemma parse_digits_append:
  "parse_digits acc (xs @ ys) =
   (case parse_digits acc xs of None \<Rightarrow> None | Some n \<Rightarrow> parse_digits n ys)"
  by (induction xs arbitrary: acc) (simp_all split: option.split)

lemma parse_nat_digits: "parse_digits 0 (nat_digits n) = Some n"
proof (induction n rule: nat_digits.induct)
  case (1 n)
  then show ?case by (cases "n < 10") (simp_all add: parse_digits_append)
qed

lemma nat_digits_hd: "\<exists>d cs. d < 10 \<and> nat_digits n = digit_char d # cs"
proof (induction n rule: nat_digits.induct)
  case (1 n)
  then show ?case by (cases "n < 10") auto
qed

lemma parse_int_itoa [simp]: "min_int64 \<le> n \<Longrightarrow> n \<le> max_int64 \<Longrightarrow> parse_int (itoa n) = Some n"
proof -
  assume n: "min_int64 \<le> n" "n \<le> max_int64"
  obtain d cs where d: "d < 10" "nat_digits (nat \<bar>n\<bar>) = digit_char d # cs" using nat_digits_hd by blast
  have "digit_char d \<noteq> CHR ''-''" "digit_char d \<noteq> CHR ''+''"
    using digit_value_char [OF d(1)] by (auto simp: digit_value_def)
  then show ?thesis
    using n d(2) parse_nat_digits [of "nat \<bar>n\<bar>"] by (cases "n < 0") (auto simp: parse_int_def itoa_def Let_def)
qed

end
