(* ===== verification/BinaryHeap.thy ===== *)
theory BinaryHeap
  imports Prelude
begin

text \<open>
  Go's \<open>container/heap\<close>, which \<open>scheduler/queue.go\<close> runs over its task slice, and the contract a
  priority queue gives its clients.

  The comparison is \<open>lt k x y\<close>, the answer of the \<open>k\<close>-th call of \<open>Less\<close> within one heap operation:
  the scheduler's \<open>Less\<close> reads the clock at every call, so two calls of one operation may disagree.
  What holds whatever the calls answer (no task is lost or invented) is proved for every such
  \<open>lt\<close>; the heap order is proved for an \<open>lt\<close> that does not change during the operation.
\<close>

section \<open>The operations of container/heap\<close>

function heap_up :: "(nat \<Rightarrow> 'a \<Rightarrow> 'a \<Rightarrow> bool) \<Rightarrow> nat \<Rightarrow> 'a list \<Rightarrow> nat \<Rightarrow> 'a list" where
  "heap_up lt k xs j =
     (let i = (j - 1) div 2 in
      if i = j \<or> \<not> lt k (xs ! j) (xs ! i) then xs
      else heap_up lt (Suc k) (swap xs i j) i)"
  by pat_completeness auto
termination by (relation "measure (\<lambda>(lt, k, xs, j). j)") auto

function heap_down :: "(nat \<Rightarrow> 'a \<Rightarrow> 'a \<Rightarrow> bool) \<Rightarrow> nat \<Rightarrow> 'a list \<Rightarrow> nat \<Rightarrow> nat \<Rightarrow> 'a list" where
  "heap_down lt k xs i n =
     (let j1 = 2 * i + 1 in
      if n \<le> j1 then xs
      else let j = (if j1 + 1 < n \<and> lt k (xs ! (j1 + 1)) (xs ! j1) then j1 + 1 else j1);
               k' = (if j1 + 1 < n then Suc k else k) in
        if \<not> lt k' (xs ! j) (xs ! i) then xs
        else heap_down lt (Suc k') (swap xs i j) j n)"
  by pat_completeness auto
termination by (relation "measure (\<lambda>(lt, k, xs, i, n). n - i)") (auto simp: Let_def)

declare heap_up.simps [simp del] heap_down.simps [simp del]

text \<open>The slice's own \<open>Push\<close> and \<open>Pop\<close>, which \<open>container/heap\<close> calls.\<close>

definition pq_Push :: "'a \<Rightarrow> 'a list \<Rightarrow> 'a list" where
  "pq_Push x xs = xs @ [x]"

definition pq_Pop :: "'a list \<Rightarrow> 'a \<times> 'a list" where
  "pq_Pop xs = (last xs, butlast xs)"

declare pq_Push_def [simp] pq_Pop_def [simp]

definition heap_push :: "(nat \<Rightarrow> 'a \<Rightarrow> 'a \<Rightarrow> bool) \<Rightarrow> 'a list \<Rightarrow> 'a \<Rightarrow> 'a list" where
  "heap_push lt xs x = heap_up lt 0 (pq_Push x xs) (length xs)"

text \<open>On a non-empty slice: the root goes last, the rest is repaired, and the slice's own \<open>Pop\<close>
  cuts the last element off.\<close>

definition heap_pop :: "(nat \<Rightarrow> 'a \<Rightarrow> 'a \<Rightarrow> bool) \<Rightarrow> 'a list \<Rightarrow> 'a \<times> 'a list" where
  "heap_pop lt xs =
     (let n = length xs - 1; ys = heap_down lt 0 (swap xs 0 n) 0 n in pq_Pop ys)"

section \<open>No element is lost or invented\<close>

lemma heap_up_keeps:
  "j < length xs \<Longrightarrow> length (heap_up lt k xs j) = length xs \<and> mset (heap_up lt k xs j) = mset xs"
proof (induction lt k xs j rule: heap_up.induct)
  case (1 lt k xs j)
  define i where "i = (j - 1) div 2"
  show ?case
  proof (cases "i = j \<or> \<not> lt k (xs ! j) (xs ! i)")
    case True
    then show ?thesis by (subst (1 2) heap_up.simps) (simp add: Let_def i_def)
  next
    case False
    have i: "i < length xs" using 1(2) by (simp add: i_def)
    with 1(1) [OF i_def] False 1(2)
    have "length (heap_up lt (Suc k) (swap xs i j) i) = length xs"
      "mset (heap_up lt (Suc k) (swap xs i j) i) = mset xs" by auto
    with False show ?thesis by (subst (1 2) heap_up.simps) (simp add: Let_def i_def)
  qed
qed

lemma heap_down_keeps:
  "n \<le> length xs \<Longrightarrow> i < length xs \<Longrightarrow>
   length (heap_down lt k xs i n) = length xs \<and> mset (heap_down lt k xs i n) = mset xs"
proof (induction lt k xs i n rule: heap_down.induct)
  case (1 lt k xs i n)
  define j1 where "j1 = 2 * i + 1"
  define j where "j = (if j1 + 1 < n \<and> lt k (xs ! (j1 + 1)) (xs ! j1) then j1 + 1 else j1)"
  define k' where "k' = (if j1 + 1 < n then Suc k else k)"
  show ?case
  proof (cases "n \<le> j1 \<or> \<not> lt k' (xs ! j) (xs ! i)")
    case True
    then show ?thesis by (subst (1 2) heap_down.simps) (auto simp: Let_def j1_def j_def k'_def)
  next
    case False
    then have j: "j < length xs" using 1(2) by (auto simp: j_def j1_def)
    have "length (heap_down lt (Suc k') (swap xs i j) j n) = length xs"
      "mset (heap_down lt (Suc k') (swap xs i j) j n) = mset xs"
      using 1(1) [OF j1_def _ j_def k'_def] False 1(2,3) j by auto
    moreover have "heap_down lt k xs i n = heap_down lt (Suc k') (swap xs i j) j n"
      using False by (subst heap_down.simps) (auto simp: Let_def j1_def j_def k'_def)
    ultimately show ?thesis by simp
  qed
qed

lemma mset_heap_push: "mset (heap_push lt xs x) = add_mset x (mset xs)"
  by (simp add: heap_push_def heap_up_keeps)

lemma length_heap_push: "length (heap_push lt xs x) = Suc (length xs)"
  by (simp add: heap_push_def heap_up_keeps)

text \<open>\<open>down\<close> stops short of index \<open>n\<close>: what lies behind it stays in place.\<close>

lemma heap_down_outside:
  "i < n \<Longrightarrow> n \<le> length xs \<Longrightarrow> n \<le> m \<Longrightarrow> heap_down lt k xs i n ! m = xs ! m"
proof (induction lt k xs i n rule: heap_down.induct)
  case (1 lt k xs i n)
  define j1 where "j1 = 2 * i + 1"
  define j where "j = (if j1 + 1 < n \<and> lt k (xs ! (j1 + 1)) (xs ! j1) then j1 + 1 else j1)"
  define k' where "k' = (if j1 + 1 < n then Suc k else k)"
  show ?case
  proof (cases "n \<le> j1 \<or> \<not> lt k' (xs ! j) (xs ! i)")
    case True
    then show ?thesis by (subst heap_down.simps) (auto simp: Let_def j1_def j_def k'_def)
  next
    case False
    then have j: "j < n" by (auto simp: j_def j1_def)
    have "heap_down lt (Suc k') (swap xs i j) j n ! m = swap xs i j ! m"
      using 1(1) [OF j1_def _ j_def k'_def] False 1(3,4) j by auto
    also have "\<dots> = xs ! m" using 1(2-4) j by (simp add: nth_swap)
    finally show ?thesis
      using False by (subst heap_down.simps) (auto simp: Let_def j1_def j_def k'_def)
  qed
qed

lemma heap_pop_keeps:
  assumes "xs \<noteq> []" "heap_pop lt xs = (x, ys)"
  shows "mset xs = add_mset x (mset ys)" "length xs = Suc (length ys)" "x = xs ! 0"
proof -
  define n where "n = length xs - 1"
  define zs where "zs = heap_down lt 0 (swap xs 0 n) 0 n"
  have n: "n < length xs" "0 < length xs" using assms(1) by (simp_all add: n_def)
  have zs: "length zs = length xs" "mset zs = mset xs"
    using heap_down_keeps [of n "swap xs 0 n" 0 lt 0] n by (simp_all add: zs_def)
  have xy: "x = last zs" "ys = butlast zs"
    using assms(2) by (auto simp: heap_pop_def Let_def zs_def n_def)
  have ne: "zs \<noteq> []" using zs(1) assms(1) by auto
  show "mset xs = add_mset x (mset ys)" using mset_butlast_last [OF ne] zs(2) xy by simp
  show "length xs = Suc (length ys)" using zs(1) n xy by simp
  have "zs ! n = swap xs 0 n ! n"
  proof (cases "n = 0")
    case True
    then show ?thesis by (simp add: zs_def heap_down.simps)
  next
    case False
    then show ?thesis using n by (simp add: zs_def heap_down_outside)
  qed
  then show "x = xs ! 0" using n ne zs(1) xy by (simp add: last_conv_nth n_def nth_swap)
qed

section \<open>The heap order\<close>

text \<open>Every element but the root is not before its parent.\<close>

definition is_heap :: "('a \<Rightarrow> 'a \<Rightarrow> bool) \<Rightarrow> 'a list \<Rightarrow> nat \<Rightarrow> bool" where
  "is_heap lt xs n \<longleftrightarrow> (\<forall>i<n. 0 < i \<longrightarrow> \<not> lt (xs ! i) (xs ! ((i - 1) div 2)))"

lemma parent_less: "0 < m \<Longrightarrow> (m - Suc 0) div 2 < m"
  by arith

text \<open>The order broken at one index only, from below (\<open>up\<close>) or from above (\<open>down\<close>).\<close>

definition heap_but_up :: "('a \<Rightarrow> 'a \<Rightarrow> bool) \<Rightarrow> 'a list \<Rightarrow> nat \<Rightarrow> bool" where
  "heap_but_up lt xs j \<longleftrightarrow>
     (\<forall>m<length xs. 0 < m \<longrightarrow>
        (m \<noteq> j \<longrightarrow> \<not> lt (xs ! m) (xs ! ((m - 1) div 2))) \<and>
        ((m - 1) div 2 = j \<longrightarrow> 0 < j \<longrightarrow> \<not> lt (xs ! m) (xs ! ((j - 1) div 2))))"

definition heap_but_down :: "('a \<Rightarrow> 'a \<Rightarrow> bool) \<Rightarrow> 'a list \<Rightarrow> nat \<Rightarrow> nat \<Rightarrow> bool" where
  "heap_but_down lt xs i n \<longleftrightarrow>
     (\<forall>m<n. 0 < m \<longrightarrow>
        ((m - 1) div 2 \<noteq> i \<longrightarrow> \<not> lt (xs ! m) (xs ! ((m - 1) div 2))) \<and>
        ((m - 1) div 2 = i \<longrightarrow> 0 < i \<longrightarrow> \<not> lt (xs ! m) (xs ! ((i - 1) div 2))))"

text \<open>
  A strict weak order on the elements that satisfy \<open>ok\<close>: incomparable is transitive there. This is
  all the heap needs of \<open>Less\<close>.
\<close>

locale weak_order =
  fixes ok :: "'a \<Rightarrow> bool" and lt :: "'a \<Rightarrow> 'a \<Rightarrow> bool"
  assumes asym: "lt x y \<Longrightarrow> \<not> lt y x"
    and neg_trans: "ok x \<Longrightarrow> ok y \<Longrightarrow> ok z \<Longrightarrow> \<not> lt y x \<Longrightarrow> \<not> lt z y \<Longrightarrow> \<not> lt z x"
begin

lemma swap_up:
  assumes j: "j < length xs" "0 < j" and ok: "list_all ok xs"
    and but: "heap_but_up lt xs j" and lt: "lt (xs ! j) (xs ! ((j - 1) div 2))"
  shows "heap_but_up lt (swap xs ((j - 1) div 2) j) ((j - 1) div 2)"
proof -
  define i where "i = (j - 1) div 2"
  have i: "i < j" "i < length xs" "(j - Suc 0) div 2 = i" using j by (simp_all add: i_def)
  define ys where "ys = swap xs i j"
  have ys: "ys ! m = (if m = j then xs ! i else if m = i then xs ! j else xs ! m)" for m
    using i j by (simp add: ys_def nth_swap)
  have okn: "ok (xs ! m)" if "m < length xs" for m using ok that by (simp add: list_all_length)
  have ij: "\<not> lt (xs ! i) (xs ! j)" using asym [OF lt] by (simp add: i_def)
  have par: "\<not> lt (xs ! m) (xs ! ((m - 1) div 2))" if "m < length xs" "0 < m" "m \<noteq> j" for m
    using but that by (auto simp: heap_but_up_def)
  have gp: "\<not> lt (xs ! m) (xs ! i)" if "m < length xs" "0 < m" "(m - 1) div 2 = j" for m
    using but that j by (auto simp: heap_but_up_def i_def)
  have "(m \<noteq> i \<longrightarrow> \<not> lt (ys ! m) (ys ! ((m - 1) div 2))) \<and>
        ((m - 1) div 2 = i \<longrightarrow> 0 < i \<longrightarrow> \<not> lt (ys ! m) (ys ! ((i - 1) div 2)))"
    if m: "m < length xs" "0 < m" for m
  proof (intro conjI impI)
    assume mi: "m \<noteq> i"
    consider "m = j" | "m \<noteq> j" "(m - 1) div 2 = j" | "m \<noteq> j" "(m - 1) div 2 = i"
      | "m \<noteq> j" "(m - 1) div 2 \<noteq> j" "(m - 1) div 2 \<noteq> i" by blast
    then show "\<not> lt (ys ! m) (ys ! ((m - 1) div 2))"
    proof cases
      case 1
      then show ?thesis using ij i by (simp add: ys)
    next
      case 2
      then show ?thesis using gp [OF m] mi i by (simp add: ys)
    next
      case 3
      then have "\<not> lt (xs ! m) (xs ! i)" using par [OF m] by simp
      then have "\<not> lt (xs ! m) (xs ! j)" using neg_trans [OF okn okn okn ij] i j m by blast
      then show ?thesis using 3 mi i by (simp add: ys)
    next
      case 4
      then show ?thesis using par [OF m] mi by (simp add: ys)
    qed
  next
    assume p: "(m - 1) div 2 = i" and i0: "0 < i"
    have gi: "(i - 1) div 2 \<noteq> j" "(i - 1) div 2 \<noteq> i" using i i0 by simp_all
    have up: "\<not> lt (xs ! i) (xs ! ((i - 1) div 2))" using par [of i] i i0 by simp
    show "\<not> lt (ys ! m) (ys ! ((i - 1) div 2))"
    proof (cases "m = j")
      case True
      then show ?thesis using up gi by (simp add: ys)
    next
      case False
      then have "\<not> lt (xs ! m) (xs ! i)" using par [OF m] p by simp
      then have "\<not> lt (xs ! m) (xs ! ((i - 1) div 2))"
        using neg_trans [OF okn okn okn up, of m] i m by auto
      moreover have "m \<noteq> i" using p i0 m by auto
      ultimately show ?thesis using False gi by (simp add: ys)
    qed
  qed
  then have "heap_but_up lt (swap xs i j) i" by (simp add: heap_but_up_def ys_def)
  then show ?thesis by (simp add: i_def)
qed

lemma heap_up_heap:
  "j < length xs \<Longrightarrow> list_all ok xs \<Longrightarrow> heap_but_up lt xs j \<Longrightarrow>
   is_heap lt (heap_up (\<lambda>_. lt) k xs j) (length xs)"
proof (induction "\<lambda>_::nat. lt" k xs j rule: heap_up.induct)
  case (1 k xs j)
  define i where "i = (j - 1) div 2"
  show ?case
  proof (cases "i = j \<or> \<not> lt (xs ! j) (xs ! i)")
    case True
    then have "is_heap lt xs (length xs)"
      using 1(4) by (fastforce simp: is_heap_def heap_but_up_def i_def)
    with True show ?thesis by (subst heap_up.simps) (simp add: Let_def i_def)
  next
    case False
    have j: "0 < j" using False by (cases j) (auto simp: i_def)
    have i: "i < length xs" using 1(2) by (simp add: i_def)
    have "list_all ok (swap xs i j)"
      using 1(3) mset_swap_at [OF i 1(2)] by (simp add: list_all_iff flip: set_mset_mset)
    moreover have "heap_but_up lt (swap xs i j) i"
      using swap_up [OF 1(2) j 1(3,4)] False by (simp add: i_def)
    ultimately have "is_heap lt (heap_up (\<lambda>_. lt) (Suc k) (swap xs i j) i) (length xs)"
      using 1(1) [OF i_def] False i by simp
    with False show ?thesis by (subst heap_up.simps) (simp add: Let_def i_def)
  qed
qed

lemma heap_push_heap:
  assumes "is_heap lt xs (length xs)" "list_all ok xs" "ok x"
  shows "is_heap lt (heap_push (\<lambda>_. lt) xs x) (Suc (length xs))"
proof -
  have "(length xs - Suc 0) div 2 = length xs \<Longrightarrow> xs = []" by (cases xs) auto
  then have "heap_but_up lt (xs @ [x]) (length xs)"
    using assms(1)
    by (auto simp: heap_but_up_def is_heap_def nth_append less_Suc_eq)
  then show ?thesis
    using heap_up_heap [of "length xs" "xs @ [x]" 0] assms by (simp add: heap_push_def)
qed

lemma swap_down:
  assumes n: "n \<le> length xs" "j < n" and ok: "list_all ok xs"
    and ij: "j = 2 * i + 1 \<or> j = 2 * i + 2"
    and but: "heap_but_down lt xs i n" and lt: "lt (xs ! j) (xs ! i)"
    and least: "\<And>m. m < n \<Longrightarrow> 0 < m \<Longrightarrow> (m - 1) div 2 = i \<Longrightarrow> \<not> lt (xs ! m) (xs ! j)"
  shows "heap_but_down lt (swap xs i j) j n"
proof -
  have i: "i < j" "i < length xs" "j < length xs" "(j - Suc 0) div 2 = i" using n ij by auto
  define ys where "ys = swap xs i j"
  have ys: "ys ! m = (if m = j then xs ! i else if m = i then xs ! j else xs ! m)" for m
    using i by (simp add: ys_def nth_swap)
  have okn: "ok (xs ! m)" if "m < n" for m using ok n that by (simp add: list_all_length)
  have par: "\<not> lt (xs ! m) (xs ! ((m - 1) div 2))" if "m < n" "0 < m" "(m - 1) div 2 \<noteq> i" for m
    using but that by (auto simp: heap_but_down_def)
  have gp: "\<not> lt (xs ! m) (xs ! ((i - 1) div 2))" if "m < n" "0 < m" "(m - 1) div 2 = i" "0 < i" for m
    using but that by (auto simp: heap_but_down_def)
  have "((m - 1) div 2 \<noteq> j \<longrightarrow> \<not> lt (ys ! m) (ys ! ((m - 1) div 2))) \<and>
        ((m - 1) div 2 = j \<longrightarrow> 0 < j \<longrightarrow> \<not> lt (ys ! m) (ys ! ((j - 1) div 2)))"
    if m: "m < n" "0 < m" for m
  proof (intro conjI impI)
    assume pj: "(m - 1) div 2 \<noteq> j"
    consider "m = j" | "m = i" | "m \<noteq> j" "m \<noteq> i" "(m - 1) div 2 = i"
      | "m \<noteq> j" "m \<noteq> i" "(m - 1) div 2 \<noteq> i" by blast
    then show "\<not> lt (ys ! m) (ys ! ((m - 1) div 2))"
    proof cases
      case 1
      then show ?thesis using asym [OF lt] i by (simp add: ys)
    next
      case 2
      then have "0 < i" using m by simp
      then show ?thesis
        using 2 gp [of j] n i parent_less [of i] pj by (auto simp: ys)
    next
      case 3
      then show ?thesis using least [OF m] i by (simp add: ys)
    next
      case 4
      then show ?thesis using par [OF m] pj by (simp add: ys)
    qed
  next
    assume p: "(m - 1) div 2 = j"
    then have "\<not> lt (xs ! m) (xs ! j)" "m \<noteq> j" "m \<noteq> i" using par [OF m] i parent_less [of m] m by auto
    then show "\<not> lt (ys ! m) (ys ! ((j - 1) div 2))" using i by (simp add: ys)
  qed
  then show ?thesis by (simp add: heap_but_down_def ys_def)
qed

text \<open>The child \<open>down\<close> picks is before its sibling or incomparable with it.\<close>

lemma picked_child:
  assumes "2 * i + 1 < n"
    and j: "j = (if 2 * i + 2 < n \<and> lt (xs ! (2 * i + 2)) (xs ! (2 * i + 1)) then 2 * i + 2 else 2 * i + 1)"
  shows "j < n" "j = 2 * i + 1 \<or> j = 2 * i + 2"
    "\<And>m. m < n \<Longrightarrow> 0 < m \<Longrightarrow> (m - 1) div 2 = i \<Longrightarrow> \<not> lt (xs ! m) (xs ! j)"
proof -
  show "j < n" "j = 2 * i + 1 \<or> j = 2 * i + 2" using assms by auto
  fix m assume m: "m < n" "0 < m" "(m - 1) div 2 = i"
  then have "m = 2 * i + 1 \<or> m = 2 * i + 2" by arith
  then show "\<not> lt (xs ! m) (xs ! j)" using j m(1) asym by (auto split: if_splits)
qed

lemma heap_but_down_stop:
  assumes n: "n \<le> length xs" and ok: "list_all ok xs" and but: "heap_but_down lt xs i n"
    and stop: "\<And>m. m < n \<Longrightarrow> 0 < m \<Longrightarrow> (m - 1) div 2 = i \<Longrightarrow> \<not> lt (xs ! m) (xs ! i)"
  shows "is_heap lt xs n"
  unfolding is_heap_def
proof (intro allI impI)
  fix m assume m: "m < n" "0 < m"
  show "\<not> lt (xs ! m) (xs ! ((m - 1) div 2))"
    using stop [OF m] but m by (cases "(m - 1) div 2 = i") (auto simp: heap_but_down_def)
qed

lemma heap_down_heap:
  "n \<le> length xs \<Longrightarrow> i < length xs \<Longrightarrow> list_all ok xs \<Longrightarrow> heap_but_down lt xs i n \<Longrightarrow>
   is_heap lt (heap_down (\<lambda>_. lt) k xs i n) n"
proof (induction "\<lambda>_::nat. lt" k xs i n rule: heap_down.induct)
  case (1 k xs i n)
  define j1 where "j1 = 2 * i + 1"
  define j where "j = (if j1 + 1 < n \<and> lt (xs ! (j1 + 1)) (xs ! j1) then j1 + 1 else j1)"
  define k' where "k' = (if j1 + 1 < n then Suc k else k)"
  have okn: "ok (xs ! m)" if "m < n" for m using 1(2,4) that by (simp add: list_all_length)
  show ?case
  proof (cases "n \<le> j1 \<or> \<not> lt (xs ! j) (xs ! i)")
    case True
    have "\<not> lt (xs ! m) (xs ! i)" if m: "m < n" "0 < m" "(m - 1) div 2 = i" for m
    proof -
      have "j1 < n" using m by (auto simp: j1_def)
      then have ji: "\<not> lt (xs ! j) (xs ! i)" using True by simp
      have p: "j < n" "\<not> lt (xs ! m) (xs ! j)"
        using picked_child [of i n j xs] \<open>j1 < n\<close> m by (auto simp: j_def j1_def)
      have "i < n" using \<open>j1 < n\<close> by (simp add: j1_def)
      then show ?thesis using neg_trans [OF okn okn okn ji p(2)] p(1) m(1) by blast
    qed
    then have "is_heap lt xs n" by (rule heap_but_down_stop [OF 1(2,4,5)])
    with True show ?thesis by (subst heap_down.simps) (auto simp: Let_def j1_def j_def k'_def)
  next
    case False
    have p: "j < n" "j = 2 * i + 1 \<or> j = 2 * i + 2"
      "\<And>m. m < n \<Longrightarrow> 0 < m \<Longrightarrow> (m - 1) div 2 = i \<Longrightarrow> \<not> lt (xs ! m) (xs ! j)"
      using picked_child [of i n j xs] False by (auto simp: j_def j1_def)
    have jl: "j < length xs" using p(1) 1(2) by simp
    have "list_all ok (swap xs i j)"
      using 1(4) mset_swap_at [OF 1(3) jl] by (simp add: list_all_iff flip: set_mset_mset)
    moreover have "heap_but_down lt (swap xs i j) j n"
      using False by (intro swap_down [OF 1(2) p(1) 1(4) p(2) 1(5) _ p(3)]) auto
    ultimately have "is_heap lt (heap_down (\<lambda>_. lt) (Suc k') (swap xs i j) j n) n"
      using 1(1) [OF j1_def _ j_def k'_def] False 1(2) jl by simp
    with False show ?thesis by (subst heap_down.simps) (auto simp: Let_def j1_def j_def k'_def)
  qed
qed

lemma heap_root_least:
  assumes "is_heap lt xs n" "n \<le> length xs" "list_all ok xs"
  shows "m < n \<Longrightarrow> \<not> lt (xs ! m) (xs ! 0)"
proof (induction m rule: less_induct)
  case (less m)
  have okn: "ok (xs ! i)" if "i < n" for i using assms(2,3) that by (simp add: list_all_length)
  show ?case
  proof (cases "m = 0")
    case True
    then show ?thesis using asym by blast
  next
    case False
    define p where "p = (m - 1) div 2"
    have p: "p < m" using False by (simp add: p_def)
    then have "\<not> lt (xs ! p) (xs ! 0)" using less by simp
    moreover have "\<not> lt (xs ! m) (xs ! p)" using assms(1) less(2) False by (simp add: is_heap_def p_def)
    ultimately show ?thesis using neg_trans [OF okn okn okn] p less(2) by (metis gr_zeroI less_trans not_less_zero)
  qed
qed

lemma heap_pop_heap:
  assumes ne: "xs \<noteq> []" and heap: "is_heap lt xs (length xs)" and ok: "list_all ok xs"
    and pop: "heap_pop (\<lambda>_. lt) xs = (x, ys)"
  shows "is_heap lt ys (length ys) \<and> (\<forall>y\<in>set ys. \<not> lt y x)"
proof -
  define n where "n = length xs - 1"
  define zs where "zs = heap_down (\<lambda>_. lt) 0 (swap xs 0 n) 0 n"
  have n: "n < length xs" "0 < length xs" using ne by (simp_all add: n_def)
  have zs: "length zs = length xs"
    using heap_down_keeps [of n "swap xs 0 n" 0 "\<lambda>_. lt" 0] n by (simp add: zs_def)
  have ys: "ys = butlast zs" "length ys = n"
    using pop zs by (auto simp: heap_pop_def Let_def zs_def n_def)
  have "\<not> lt (swap xs 0 n ! m) (swap xs 0 n ! ((m - 1) div 2))"
    if m: "m < n" "0 < m" "(m - 1) div 2 \<noteq> 0" for m
  proof -
    have "\<not> lt (xs ! m) (xs ! ((m - 1) div 2))" using heap m n by (simp add: is_heap_def)
    then show ?thesis using m n parent_less [of m] by (simp add: nth_swap)
  qed
  then have "heap_but_down lt (swap xs 0 n) 0 n" by (simp add: heap_but_down_def)
  moreover have "list_all ok (swap xs 0 n)"
    using ok mset_swap_at [OF n(2,1)] by (simp add: list_all_iff flip: set_mset_mset)
  ultimately have "is_heap lt zs n"
    using heap_down_heap [of n "swap xs 0 n" 0 0] n by (simp add: zs_def)
  moreover have "ys ! m = zs ! m" if "m < n" for m using ys that by (simp add: nth_butlast)
  moreover have "(m - 1) div 2 < n" if "m < n" for m using that by arith
  ultimately have "is_heap lt ys n" by (simp add: is_heap_def)
  moreover have "\<not> lt y x" if "y \<in> set ys" for y
  proof -
    have "set xs = insert x (set ys)"
      using arg_cong [OF heap_pop_keeps(1) [OF ne pop], of set_mset] by simp
    then have "y \<in> set xs" using that by simp
    then obtain m where "m < length xs" "y = xs ! m" by (metis in_set_conv_nth)
    then show ?thesis
      using heap_root_least [OF heap _ ok] heap_pop_keeps(3) [OF ne pop] by simp
  qed
  ultimately show ?thesis using ys by simp
qed

end

section \<open>What a priority queue promises its clients\<close>

locale min_queue =
  fixes ok :: "'a \<Rightarrow> bool" and lt :: "'a \<Rightarrow> 'a \<Rightarrow> bool"
    and push :: "'a \<Rightarrow> 'q \<Rightarrow> 'q" and pop :: "'q \<Rightarrow> 'a option \<times> 'q"
    and items :: "'q \<Rightarrow> 'a multiset" and invar :: "'q \<Rightarrow> bool"
  assumes invar_push: "invar q \<Longrightarrow> ok x \<Longrightarrow> invar (push x q)"
    and items_push: "items (push x q) = add_mset x (items q)"
    and pop_empty: "items q = {#} \<Longrightarrow> pop q = (None, q)"
    and pop_some: "items q \<noteq> {#} \<Longrightarrow> invar q \<Longrightarrow>
      \<exists>x q'. pop q = (Some x, q') \<and> items q = add_mset x (items q') \<and> invar q' \<and>
             (\<forall>y \<in># items q'. \<not> lt y x)"

text \<open>The elements of up to \<open>n\<close> successive \<open>Pop\<close> calls, in the order they come.\<close>

fun pops :: "('q \<Rightarrow> 'a option \<times> 'q) \<Rightarrow> nat \<Rightarrow> 'q \<Rightarrow> 'a list" where
  "pops pop 0 q = []"
| "pops pop (Suc n) q = (case pop q of (None, q') \<Rightarrow> [] | (Some x, q') \<Rightarrow> x # pops pop n q')"

context min_queue
begin

lemma pops_drain:
  "invar q \<Longrightarrow> mset (pops pop (size (items q)) q) = items q \<and>
     sorted_wrt (\<lambda>x y. \<not> lt y x) (pops pop (size (items q)) q)"
proof (induction "size (items q)" arbitrary: q)
  case 0
  then show ?case by simp
next
  case (Suc n)
  then have "items q \<noteq> {#}" by auto
  then obtain x q' where p: "pop q = (Some x, q')" "items q = add_mset x (items q')" "invar q'"
      "\<forall>y \<in># items q'. \<not> lt y x"
    using pop_some Suc.prems by blast
  have n: "n = size (items q')" using Suc.hyps(2) p(2) by simp
  have IH: "mset (pops pop n q') = items q'" "sorted_wrt (\<lambda>x y. \<not> lt y x) (pops pop n q')"
    using Suc.hyps(1) [OF n p(3)] n by simp_all
  have "\<forall>y \<in> set (pops pop n q'). \<not> lt y x" using p(4) IH(1) by (metis set_mset_mset)
  then show ?case unfolding Suc.hyps(2) [symmetric] using IH p by simp
qed

end

end
