(* ===== verification/Float64.thy ===== *)
theory Float64
  imports Prelude
begin

text \<open>
  Go's \<open>float64\<close>: IEEE 754 binary64 with round-to-nearest, ties to even. A finite value is the real
  number it denotes. \<open>round64\<close> is the rounding every operation applies to its exact result: 53
  significant bits, exponents down to -1022, overflow to an infinity. Two things are left out: the
  sign of a zero, which the modelled code cannot observe (it never divides by a product or a
  difference), and fused multiply-add, which Go does not use on amd64.
\<close>

section \<open>Rounding\<close>

datatype f64 = Fin real | PosInf | NegInf | NaN

fun bits :: "nat \<Rightarrow> nat" where
  "bits n = (if n = 0 then 0 else Suc (bits (n div 2)))"

declare bits.simps [simp del]

text \<open>The exponent of a positive number: \<open>2^e \<le> x < 2^(e+1)\<close>.\<close>

definition expo :: "real \<Rightarrow> int" where
  "expo x = (if 1 \<le> x then int (bits (nat \<lfloor>x\<rfloor>)) - 1
             else - int (bits (nat (\<lceil>1 / x\<rceil> - 1))))"

definition rne :: "real \<Rightarrow> int" where
  "rne x = (let f = \<lfloor>x\<rfloor>; r = x - of_int f in
            if r < 1 / 2 then f
            else if 1 / 2 < r then f + 1
            else if even f then f else f + 1)"

definition ulp_exp :: "real \<Rightarrow> int" where
  "ulp_exp x = max (expo x) (- 1022) - 52"

text \<open>Rounding to a multiple of the unit in the last place, then its extension to every real.\<close>

definition rnd_pos :: "real \<Rightarrow> real" where
  "rnd_pos x = of_int (rne (x / 2 powi ulp_exp x)) * 2 powi ulp_exp x"

definition rnd :: "real \<Rightarrow> real" where
  "rnd x = (if x = 0 then 0 else if 0 < x then rnd_pos x else - rnd_pos (- x))"

definition round64 :: "real \<Rightarrow> f64" where
  "round64 x = (let y = rnd x in
     if 2 ^ 1024 \<le> y then PosInf else if y \<le> - (2 ^ 1024) then NegInf else Fin y)"

section \<open>The operations\<close>

fun f64_neg :: "f64 \<Rightarrow> f64" where
  "f64_neg (Fin x) = Fin (- x)"
| "f64_neg PosInf = NegInf"
| "f64_neg NegInf = PosInf"
| "f64_neg NaN = NaN"

fun f64_add :: "f64 \<Rightarrow> f64 \<Rightarrow> f64" where
  "f64_add NaN _ = NaN"
| "f64_add _ NaN = NaN"
| "f64_add (Fin x) (Fin y) = round64 (x + y)"
| "f64_add PosInf NegInf = NaN"
| "f64_add NegInf PosInf = NaN"
| "f64_add PosInf _ = PosInf"
| "f64_add NegInf _ = NegInf"
| "f64_add (Fin _) PosInf = PosInf"
| "f64_add (Fin _) NegInf = NegInf"

definition f64_sub :: "f64 \<Rightarrow> f64 \<Rightarrow> f64" where
  "f64_sub x y = f64_add x (f64_neg y)"

definition inf_sign :: "bool \<Rightarrow> f64" where
  "inf_sign pos = (if pos then PosInf else NegInf)"

fun f64_mul :: "f64 \<Rightarrow> f64 \<Rightarrow> f64" where
  "f64_mul NaN _ = NaN"
| "f64_mul _ NaN = NaN"
| "f64_mul (Fin x) (Fin y) = round64 (x * y)"
| "f64_mul (Fin x) PosInf = (if x = 0 then NaN else inf_sign (0 < x))"
| "f64_mul (Fin x) NegInf = (if x = 0 then NaN else inf_sign (x < 0))"
| "f64_mul PosInf (Fin x) = (if x = 0 then NaN else inf_sign (0 < x))"
| "f64_mul NegInf (Fin x) = (if x = 0 then NaN else inf_sign (x < 0))"
| "f64_mul PosInf PosInf = PosInf"
| "f64_mul NegInf NegInf = PosInf"
| "f64_mul PosInf NegInf = NegInf"
| "f64_mul NegInf PosInf = NegInf"

text \<open>A zero divisor is the conversion of an integer, hence a positive zero.\<close>

fun f64_div :: "f64 \<Rightarrow> f64 \<Rightarrow> f64" where
  "f64_div NaN _ = NaN"
| "f64_div _ NaN = NaN"
| "f64_div (Fin x) (Fin y) =
     (if y = 0 then (if x = 0 then NaN else inf_sign (0 < x)) else round64 (x / y))"
| "f64_div (Fin _) PosInf = Fin 0"
| "f64_div (Fin _) NegInf = Fin 0"
| "f64_div PosInf (Fin y) = inf_sign (0 \<le> y)"
| "f64_div NegInf (Fin y) = inf_sign (y < 0)"
| "f64_div PosInf PosInf = NaN"
| "f64_div PosInf NegInf = NaN"
| "f64_div NegInf PosInf = NaN"
| "f64_div NegInf NegInf = NaN"

text \<open>\<open>x < y\<close>; every comparison with a NaN is false.\<close>

fun f64_less :: "f64 \<Rightarrow> f64 \<Rightarrow> bool" where
  "f64_less NaN _ = False"
| "f64_less _ NaN = False"
| "f64_less (Fin x) (Fin y) = (x < y)"
| "f64_less NegInf y = (y \<noteq> NegInf)"
| "f64_less _ NegInf = False"
| "f64_less PosInf _ = False"
| "f64_less (Fin _) PosInf = True"

definition f64_of_int :: "int \<Rightarrow> f64" where
  "f64_of_int n = round64 (of_int n)"

text \<open>
  \<open>int(x)\<close>: truncation towards zero. Outside the range of \<open>int64\<close> the language leaves the result to
  the implementation; on amd64 it is the smallest \<open>int64\<close>.
\<close>

definition trunc :: "real \<Rightarrow> int" where
  "trunc x = (if 0 \<le> x then \<lfloor>x\<rfloor> else \<lceil>x\<rceil>)"

fun f64_to_int :: "f64 \<Rightarrow> int" where
  "f64_to_int (Fin x) =
     (if min_int64 \<le> trunc x \<and> trunc x \<le> max_int64 then trunc x else min_int64)"
| "f64_to_int _ = min_int64"

text \<open>\<open>Duration.Seconds\<close>: whole seconds and the fraction are converted separately.\<close>

definition godiv :: "int \<Rightarrow> int \<Rightarrow> int" where
  "godiv a b = sgn a * sgn b * (\<bar>a\<bar> div \<bar>b\<bar>)"

definition gomod :: "int \<Rightarrow> int \<Rightarrow> int" where
  "gomod a b = a - b * godiv a b"

definition duration_seconds :: "duration \<Rightarrow> f64" where
  "duration_seconds d =
     f64_add (f64_of_int (godiv d second))
             (f64_div (f64_of_int (gomod d second)) (f64_of_int 1000000000))"

section \<open>Rounding is monotone and exact on small integers\<close>

lemma bits_0 [simp]: "bits 0 = 0" and bits_1 [simp]: "bits (Suc 0) = 1"
  by (simp_all add: bits.simps [of "Suc 0"] bits.simps [of 0])

lemma bits_upper: "n < 2 ^ bits n"
proof (induction n rule: bits.induct)
  case (1 n)
  show ?case
  proof (cases "n = 0")
    case True
    then show ?thesis by (simp add: bits.simps [of 0])
  next
    case False
    with 1 have "n div 2 < 2 ^ bits (n div 2)" by simp
    then have "n < 2 * 2 ^ bits (n div 2)" by linarith
    with False show ?thesis by (simp add: bits.simps [of n])
  qed
qed

lemma bits_lower: "0 < n \<Longrightarrow> 2 ^ (bits n - 1) \<le> n"
proof (induction n rule: bits.induct)
  case (1 n)
  show ?case
  proof (cases "n = 1")
    case True
    then show ?thesis by simp
  next
    case False
    with 1 have IH: "2 ^ (bits (n div 2) - 1) \<le> n div 2" by simp
    have "0 < bits (n div 2)" using 1(2) False by (subst bits.simps) simp
    then have "2 ^ bits (n div 2) = 2 * (2::nat) ^ (bits (n div 2) - 1)"
      by (cases "bits (n div 2)") simp_all
    with IH have "2 ^ bits (n div 2) \<le> n" by linarith
    with 1(2) show ?thesis by (simp add: bits.simps [of n])
  qed
qed

lemma bits_pos: "0 < n \<Longrightarrow> 0 < bits n"
  by (subst bits.simps) simp

lemma expo_bounds:
  assumes "0 < x"
  shows "2 powi expo x \<le> x \<and> x < 2 powi (expo x + 1)"
proof (cases "1 \<le> x")
  case True
  define n where "n = nat \<lfloor>x\<rfloor>"
  have n: "0 < n" using True by (simp add: n_def)
  have fl: "real n \<le> x" "x < real n + 1" using True by (simp_all add: n_def)
  have "real n < 2 ^ bits n" using bits_upper [of n] by (metis of_nat_less_numeral_power_cancel_iff)
  moreover have "2 ^ (bits n - 1) \<le> real n"
    using bits_lower [OF n] by (metis numeral_power_le_of_nat_cancel_iff)
  with fl(1) have "2 ^ (bits n - 1) \<le> x" by linarith
  moreover have "real n + 1 \<le> 2 ^ bits n"
    using bits_upper [of n] by (metis Suc_leI numeral_power_le_of_nat_cancel_iff of_nat_Suc
        of_nat_le_numeral_power_cancel_iff add.commute)
  moreover have "expo x = int (bits n) - 1" using True by (simp add: expo_def n_def)
  moreover have "2 powi (int (bits n) - 1) = (2::real) ^ (bits n - 1)"
    using bits_pos [OF n] by (metis One_nat_def Suc_leI of_nat_1 of_nat_diff power_int_of_nat)
  ultimately show ?thesis using fl by (simp add: power_int_of_nat)
next
  case False
  define y where "y = 1 / x"
  define m where "m = nat (\<lceil>y\<rceil> - 1)"
  have y: "1 < y" using False assms by (simp add: y_def)
  have m: "0 < m" using y by (simp add: m_def)
  have ce: "real m < y" "y \<le> real m + 1" using y by (simp_all add: m_def) linarith+
  have e: "expo x = - int (bits m)" using False by (simp add: expo_def m_def y_def)
  have "real m + 1 \<le> 2 ^ bits m"
    using bits_upper [of m] by (metis Suc_leI of_nat_Suc of_nat_le_numeral_power_cancel_iff add.commute)
  then have up: "y \<le> 2 ^ bits m" using ce by linarith
  have "2 ^ (bits m - 1) \<le> real m"
    using bits_lower [OF m] by (metis numeral_power_le_of_nat_cancel_iff)
  then have lo: "2 ^ (bits m - 1) < y" using ce by linarith
  have x: "x = 1 / y" by (simp add: y_def)
  have "1 / 2 ^ bits m \<le> x" using up y by (simp add: x frac_le)
  moreover have "x < 1 / 2 ^ (bits m - 1)" using lo y by (simp add: x frac_less2)
  moreover have "2 powi (- int (bits m) + 1) = 1 / (2::real) ^ (bits m - 1)"
    using bits_pos [OF m] by (cases "bits m") (simp_all add: power_int_minus power_int_of_nat divide_inverse)
  ultimately show ?thesis by (simp add: e power_int_minus power_int_of_nat divide_inverse)
qed

lemma expo_unique:
  assumes "0 < x" "2 powi e \<le> x" "x < 2 powi (e + 1)"
  shows "expo x = e"
proof (rule ccontr)
  assume ne: "expo x \<noteq> e"
  show False
  proof (cases "expo x < e")
    case True
    then have "(2::real) powi (expo x + 1) \<le> 2 powi e" by (simp add: power_int_increasing)
    then show False using expo_bounds [OF assms(1)] assms by linarith
  next
    case False
    with ne have "(2::real) powi (e + 1) \<le> 2 powi expo x" by (simp add: power_int_increasing)
    then show False using expo_bounds [OF assms(1)] assms by linarith
  qed
qed

lemma expo_mono: "0 < x \<Longrightarrow> x \<le> y \<Longrightarrow> expo x \<le> expo y"
proof (rule ccontr)
  assume a: "0 < x" "x \<le> y" "\<not> expo x \<le> expo y"
  then have "(2::real) powi (expo y + 1) \<le> 2 powi expo x" by (simp add: power_int_increasing)
  then show False using expo_bounds [of x] expo_bounds [of y] a by linarith
qed

lemma rne_of_int [simp]: "rne (of_int n) = n"
  by (simp add: rne_def)

lemma rne_near: "x - 1 / 2 \<le> of_int (rne x) \<and> of_int (rne x) \<le> x + 1 / 2"
  by (auto simp: rne_def Let_def) linarith+

lemma rne_mono:
  assumes "x \<le> y"
  shows "rne x \<le> rne y"
proof (cases "\<lfloor>x\<rfloor> = \<lfloor>y\<rfloor>")
  case True
  with assms show ?thesis by (auto simp: rne_def Let_def)
next
  case False
  then have "\<lfloor>x\<rfloor> + 1 \<le> \<lfloor>y\<rfloor>" using floor_mono [OF assms] by linarith
  moreover have "rne x \<le> \<lfloor>x\<rfloor> + 1" "\<lfloor>y\<rfloor> \<le> rne y" by (auto simp: rne_def Let_def)
  ultimately show ?thesis by linarith
qed
lemma powi_pos [simp]: "0 < (2::real) powi e"
  by (rule zero_less_power_int) simp

lemma ulp_exp_mono: "0 < x \<Longrightarrow> x \<le> y \<Longrightarrow> ulp_exp x \<le> ulp_exp y"
  using expo_mono [of x y] by (simp add: ulp_exp_def)

lemma powi_split: "(2::real) powi (a + b) = 2 powi a * 2 powi b"
  by (simp add: power_int_add)

lemma rne_powi: "0 \<le> k \<Longrightarrow> of_int (rne (2 powi k)) = (2::real) powi k"
proof -
  assume "0 \<le> k"
  then have "(2::real) powi k = of_int (2 ^ nat k)" by (simp add: power_int_def)
  then show ?thesis by (simp only: rne_of_int)
qed

text \<open>A number below a power of two at or above its last place rounds to at most that power.\<close>

lemma rnd_pos_le_powi:
  assumes "x \<le> 2 powi k" "ulp_exp x \<le> k"
  shows "rnd_pos x \<le> 2 powi k"
proof -
  have "x / 2 powi ulp_exp x \<le> 2 powi k / 2 powi ulp_exp x"
    using assms by (intro divide_right_mono) (auto intro: less_imp_le)
  also have "\<dots> = 2 powi (k - ulp_exp x)" by (simp add: power_int_diff)
  finally have "rne (x / 2 powi ulp_exp x) \<le> rne (2 powi (k - ulp_exp x))" by (rule rne_mono)
  then have "of_int (rne (x / 2 powi ulp_exp x)) \<le> (2::real) powi (k - ulp_exp x)"
    using assms(2) rne_powi [of "k - ulp_exp x"] by (metis diff_ge_0_iff_ge of_int_le_iff)
  then have "rnd_pos x \<le> 2 powi (k - ulp_exp x) * 2 powi ulp_exp x"
    by (simp add: rnd_pos_def mult_right_mono less_imp_le)
  then show ?thesis by (simp flip: powi_split)
qed

lemma rnd_pos_ge_powi:
  assumes "2 powi k \<le> x" "ulp_exp x \<le> k"
  shows "2 powi k \<le> rnd_pos x"
proof -
  have "2 powi (k - ulp_exp x) = 2 powi k / (2::real) powi ulp_exp x" by (simp add: power_int_diff)
  also have "\<dots> \<le> x / 2 powi ulp_exp x"
    using assms by (intro divide_right_mono) (auto intro: less_imp_le)
  finally have "rne (2 powi (k - ulp_exp x)) \<le> rne (x / 2 powi ulp_exp x)" by (rule rne_mono)
  then have "(2::real) powi (k - ulp_exp x) \<le> of_int (rne (x / 2 powi ulp_exp x))"
    using assms(2) rne_powi [of "k - ulp_exp x"] by (metis diff_ge_0_iff_ge of_int_le_iff)
  then have "2 powi (k - ulp_exp x) * 2 powi ulp_exp x \<le> rnd_pos x"
    by (simp add: rnd_pos_def mult_right_mono less_imp_le)
  then show ?thesis by (simp flip: powi_split)
qed

lemma rnd_pos_nonneg: "0 < x \<Longrightarrow> 0 \<le> rnd_pos x"
proof -
  assume "0 < x"
  then have "rne 0 \<le> rne (x / 2 powi ulp_exp x)" by (intro rne_mono) (simp add: less_imp_le)
  moreover have "rne 0 = 0" using rne_of_int [of 0] by simp
  ultimately show ?thesis by (simp add: rnd_pos_def less_imp_le)
qed

lemma rnd_pos_mono:
  assumes "0 < x" "x \<le> y"
  shows "rnd_pos x \<le> rnd_pos y"
proof (cases "ulp_exp x = ulp_exp y")
  case True
  have "rne (x / 2 powi ulp_exp x) \<le> rne (y / 2 powi ulp_exp x)"
    using assms by (intro rne_mono divide_right_mono) (auto intro: less_imp_le)
  then show ?thesis using True by (simp add: rnd_pos_def mult_right_mono less_imp_le)
next
  case False
  with ulp_exp_mono [OF assms] have lt: "ulp_exp x < ulp_exp y" by simp
  then have ey: "ulp_exp y = expo y - 52" "-1022 < expo y" and exy: "expo x < expo y"
    by (auto simp: ulp_exp_def max_def split: if_splits)
  have "(2::real) powi (expo x + 1) \<le> 2 powi expo y"
    using exy by (simp add: power_int_increasing)
  then have "x \<le> 2 powi expo y" using expo_bounds [OF assms(1)] by linarith
  then have "rnd_pos x \<le> 2 powi expo y" using lt ey by (intro rnd_pos_le_powi) auto
  also have "\<dots> \<le> rnd_pos y"
    using expo_bounds [of y] assms ey by (intro rnd_pos_ge_powi) auto
  finally show ?thesis .
qed

lemma rnd_neg [simp]: "rnd (- x) = - rnd x"
  by (simp add: rnd_def)

lemma rnd_0 [simp]: "rnd 0 = 0"
  by (simp add: rnd_def)

lemma rnd_mono: "x \<le> y \<Longrightarrow> rnd x \<le> rnd y"
  using rnd_pos_mono [of x y] rnd_pos_mono [of "- y" "- x"] rnd_pos_nonneg [of y]
    rnd_pos_nonneg [of "- x"]
  by (auto simp: rnd_def not_less)

text \<open>Every multiple of its own last place, so every integer up to \<open>2^53\<close>, is exact.\<close>

lemma rnd_pos_exact:
  assumes "x = of_int m * 2 powi ulp_exp x"
  shows "rnd_pos x = x"
proof -
  have "x / 2 powi ulp_exp x = of_int m"
    using assms powi_pos [of "ulp_exp x"] by (metis less_irrefl nonzero_mult_div_cancel_right)
  then show ?thesis using assms by (simp add: rnd_pos_def)
qed

lemma rnd_pos_int:
  assumes "0 < n" "n \<le> 2 ^ 53"
  shows "rnd_pos (of_int n) = of_int n"
proof (cases "n = 2 ^ 53")
  case True
  have "expo (2 ^ 53) = 53" by (rule expo_unique) simp_all
  then have "ulp_exp (of_int n) = 1" using True by (simp add: ulp_exp_def)
  then show ?thesis by (intro rnd_pos_exact [where m = "2 ^ 52"]) (simp add: True)
next
  case False
  with assms have "(of_int n::real) < of_int (2 ^ 53)" by (subst of_int_less_iff) simp
  then have lt: "(of_int n::real) < 2 powi 53" by simp
  have "expo (of_int n) \<le> 52"
  proof (rule ccontr)
    assume "\<not> expo (of_int n) \<le> 52"
    then have "(2::real) powi 53 \<le> 2 powi expo (of_int n)" by (intro power_int_increasing) auto
    then show False using expo_bounds [of "of_int n"] lt assms by simp
  qed
  then have u: "ulp_exp (of_int n) \<le> 0" by (simp add: ulp_exp_def)
  define k where "k = nat (- ulp_exp (of_int n))"
  have "ulp_exp (of_int n) = - int k" using u by (simp add: k_def)
  then have "2 powi ulp_exp (of_int n) = 1 / (2::real) ^ k"
    by (simp add: power_int_minus power_int_of_nat divide_inverse)
  then have "of_int (n * 2 ^ k) * 2 powi ulp_exp (of_int n) = (of_int n :: real)"
    by (simp only:) simp
  then show ?thesis by (intro rnd_pos_exact) (rule sym)
qed

lemma rnd_int [simp]: "\<bar>n\<bar> \<le> 2 ^ 53 \<Longrightarrow> rnd (of_int n) = of_int n"
  using rnd_pos_int [of n] rnd_pos_int [of "- n"] by (auto simp: rnd_def)

lemma rnd_bound:
  assumes "\<bar>x\<bar> \<le> 2 ^ 53"
  shows "\<bar>rnd x\<bar> \<le> 2 ^ 53"
  using rnd_mono [of x "of_int (2 ^ 53)"] rnd_mono [of "of_int (- (2 ^ 53))" x] assms
    rnd_int [of "2 ^ 53"] rnd_int [of "- (2 ^ 53)"]
  by (simp add: abs_le_iff)

text \<open>So is every dyadic fraction of few bits.\<close>

lemma rnd_dyadic:
  assumes "x = of_int m / 2 ^ k" "\<bar>m\<bar> < 2 ^ 53" "k \<le> 1000"
  shows "rnd x = x"
proof -
  have pos: "rnd_pos (of_int m / 2 ^ k) = of_int m / 2 ^ k" if m: "0 < m" "m < 2 ^ 53" for m
  proof -
    let ?y = "of_int m / 2 ^ k :: real"
    have y: "0 < ?y" using m by simp
    have "real_of_int m < of_int (2 ^ 53)" using m(2) by (subst of_int_less_iff)
    then have "?y < 2 powi 53 / 2 powi int k" by (simp add: power_int_of_nat divide_strict_right_mono)
    then have lt: "?y < 2 powi (53 - int k)" by (simp add: power_int_diff)
    have "expo ?y \<le> 52 - int k"
    proof (rule ccontr)
      assume "\<not> expo ?y \<le> 52 - int k"
      then have "(2::real) powi (53 - int k) \<le> 2 powi expo ?y" by (intro power_int_increasing) auto
      then show False using expo_bounds [OF y] lt by linarith
    qed
    then have u: "ulp_exp ?y \<le> - int k" using assms(3) by (simp add: ulp_exp_def)
    define j where "j = nat (- int k - ulp_exp ?y)"
    have "ulp_exp ?y = - int k - int j" using u by (simp add: j_def)
    then have "2 powi ulp_exp ?y = 1 / ((2::real) ^ k * 2 ^ j)"
      by (simp add: power_int_minus power_int_of_nat divide_inverse power_int_diff)
    then have "of_int (m * 2 ^ j) * 2 powi ulp_exp ?y = ?y" by (simp only:) simp
    then show ?thesis by (intro rnd_pos_exact) (rule sym)
  qed
  show ?thesis
    using pos [of m] pos [of "- m"] assms(2) by (auto simp: rnd_def assms(1) zero_less_divide_iff
        divide_less_0_iff)
qed

lemma round64_small: "\<bar>x\<bar> \<le> 2 ^ 53 \<Longrightarrow> round64 x = Fin (rnd x)"
proof -
  assume "\<bar>x\<bar> \<le> 2 ^ 53"
  then have b: "\<bar>rnd x\<bar> \<le> 2 ^ 53" by (rule rnd_bound)
  have "(2::real) ^ 53 < 2 ^ 1024" by (rule power_strict_increasing) simp_all
  with b have "\<not> 2 ^ 1024 \<le> rnd x" "\<not> rnd x \<le> - (2 ^ 1024)" by linarith+
  then show ?thesis by (simp only: round64_def Let_def if_False)
qed

lemma round64_0 [simp]: "round64 0 = Fin 0"
  by (simp add: round64_small)

lemma f64_of_int_small [simp]: "\<bar>n\<bar> \<le> 2 ^ 53 \<Longrightarrow> f64_of_int n = Fin (of_int n)"
proof -
  assume n: "\<bar>n\<bar> \<le> 2 ^ 53"
  then have "\<bar>real_of_int n\<bar> \<le> of_int (2 ^ 53)" by (metis of_int_abs of_int_le_iff)
  then show ?thesis using n by (simp add: f64_of_int_def round64_small)
qed

section \<open>Durations in seconds\<close>

lemma godiv_gomod: "b * godiv a b + gomod a b = a"
  by (simp add: gomod_def)

lemma godiv_pos: "0 \<le> a \<Longrightarrow> 0 < b \<Longrightarrow> godiv a b = a div b"
  by (simp add: godiv_def sgn_if)

lemma godiv_neg: "a < 0 \<Longrightarrow> 0 < b \<Longrightarrow> godiv a b = - (- a div b)"
  by (simp add: godiv_def sgn_if)

lemma gomod_pos: "0 \<le> a \<Longrightarrow> 0 < b \<Longrightarrow> gomod a b = a mod b"
  by (simp add: gomod_def godiv_pos minus_mult_div_eq_mod)

lemma gomod_neg: "a < 0 \<Longrightarrow> 0 < b \<Longrightarrow> gomod a b = - (- a mod b)"
  using minus_mult_div_eq_mod [of "- a" b] by (simp add: gomod_def godiv_neg)

lemma gomod_bounds: "0 < b \<Longrightarrow> \<bar>gomod a b\<bar> < b"
  by (cases "0 \<le> a") (simp_all add: gomod_pos gomod_neg)

lemma gomod_sign: "0 < b \<Longrightarrow> 0 \<le> a \<Longrightarrow> 0 \<le> gomod a b" "0 < b \<Longrightarrow> a \<le> 0 \<Longrightarrow> gomod a b \<le> 0"
  by (simp_all add: gomod_pos) (cases "a = 0", simp_all add: gomod_pos gomod_neg)

lemma godiv_sign: "0 < b \<Longrightarrow> 0 \<le> a \<Longrightarrow> 0 \<le> godiv a b" "0 < b \<Longrightarrow> a \<le> 0 \<Longrightarrow> godiv a b \<le> 0"
  by (simp_all add: godiv_pos pos_imp_zdiv_nonneg_iff)
    (cases "a = 0", simp_all add: godiv_pos godiv_neg pos_imp_zdiv_nonneg_iff)

lemma godiv_mono: "0 < b \<Longrightarrow> a \<le> c \<Longrightarrow> godiv a b \<le> godiv c b"
proof -
  assume b: "0 < b" and ac: "a \<le> c"
  consider "0 \<le> a" | "c < 0" | "a < 0" "0 \<le> c" by linarith
  then show ?thesis
  proof cases
    case 1
    then show ?thesis using b ac by (simp add: godiv_pos zdiv_mono1)
  next
    case 2
    then show ?thesis using b ac by (simp add: godiv_neg zdiv_mono1)
  next
    case 3
    then show ?thesis using b godiv_sign [of b a] godiv_sign [of b c] by linarith
  qed
qed

definition secs :: "duration \<Rightarrow> real" where
  "secs d = of_int (godiv d second) + rnd (of_int (gomod d second) / 1000000000)"

lemma rnd_1 [simp]: "rnd 1 = 1"
  using rnd_int [of 1] by simp

lemma rnd_unit: "0 \<le> x \<Longrightarrow> x \<le> 1 \<Longrightarrow> 0 \<le> rnd x \<and> rnd x \<le> 1"
  using rnd_mono [of 0 x] rnd_mono [of x 1] by simp

lemma rnd_frac:
  "0 \<le> n \<Longrightarrow> n < second \<Longrightarrow> 0 \<le> rnd (of_int n / 1000000000) \<and> rnd (of_int n / 1000000000) \<le> 1"
  by (rule rnd_unit) simp_all

lemma rnd_frac_neg:
  "n \<le> 0 \<Longrightarrow> - second < n \<Longrightarrow> -1 \<le> rnd (of_int n / 1000000000) \<and> rnd (of_int n / 1000000000) \<le> 0"
  using rnd_frac [of "- n"] rnd_neg [of "of_int (- n) / 1000000000"] by simp

lemma secs_mono:
  assumes "d \<le> d'"
  shows "secs d \<le> secs d'"
proof (cases "godiv d second = godiv d' second")
  case True
  then have "gomod d second \<le> gomod d' second" using assms by (simp add: gomod_def)
  then have "rnd (of_int (gomod d second) / 1000000000) \<le> rnd (of_int (gomod d' second) / 1000000000)"
    by (intro rnd_mono) simp
  then show ?thesis using True by (simp add: secs_def)
next
  case False
  with godiv_mono [OF _ assms, of second] have q: "godiv d second + 1 \<le> godiv d' second" by simp
  then have qr: "real_of_int (godiv d second) + 1 \<le> of_int (godiv d' second)" by linarith
  note m = gomod_bounds [of second d] gomod_bounds [of second d']
  consider "0 \<le> d" | "d' \<le> 0" | "d \<le> 0" "0 \<le> d'" using assms by linarith
  then show ?thesis
  proof cases
    case 1
    then show ?thesis
      using rnd_frac [of "gomod d second"] rnd_frac [of "gomod d' second"] m qr assms
        gomod_sign(1) [of second d] gomod_sign(1) [of second d'] by (simp add: secs_def)
  next
    case 2
    then show ?thesis
      using rnd_frac_neg [of "gomod d second"] rnd_frac_neg [of "gomod d' second"] m qr assms
        gomod_sign(2) [of second d] gomod_sign(2) [of second d'] by (simp add: secs_def)
  next
    case 3
    then show ?thesis
      using rnd_frac_neg [of "gomod d second"] rnd_frac [of "gomod d' second"] m qr
        gomod_sign(2) [of second d] gomod_sign(1) [of second d'] by (simp add: secs_def)
  qed
qed

lemma secs_bound:
  assumes "min_int64 \<le> d" "d \<le> max_int64"
  shows "\<bar>secs d\<bar> \<le> 10000000000"
proof -
  have "secs d \<le> secs max_int64" "secs min_int64 \<le> secs d" using assms by (simp_all add: secs_mono)
  moreover have "secs max_int64 \<le> 10000000000"
    using rnd_frac [of 854775807] by (simp add: secs_def int64_defs godiv_pos gomod_pos)
  moreover have "- 10000000000 \<le> secs min_int64"
    using rnd_frac_neg [of "- 854775808"] by (simp add: secs_def int64_defs godiv_neg gomod_neg)
  ultimately show ?thesis by linarith
qed

lemma duration_seconds_Fin:
  assumes "min_int64 \<le> d" "d \<le> max_int64"
  shows "duration_seconds d = Fin (rnd (secs d))"
proof -
  have "\<bar>godiv d second\<bar> \<le> 2 ^ 53"
    using godiv_mono [of second d max_int64] godiv_mono [of second min_int64 d] assms
    by (simp add: int64_defs godiv_pos godiv_neg)
  moreover have "\<bar>gomod d second\<bar> \<le> 2 ^ 53"
    using gomod_bounds [of second d] by simp
  moreover have "\<bar>real_of_int (gomod d second) / 1000000000\<bar> \<le> 2 ^ 53"
  proof -
    have "\<bar>real_of_int (gomod d second)\<bar> \<le> 1000000000"
      using gomod_bounds [of second d] by linarith
    then show ?thesis by (simp add: divide_le_eq)
  qed
  moreover have "\<bar>secs d\<bar> \<le> 2 ^ 53" using secs_bound [OF assms] by simp
  ultimately show ?thesis by (simp add: duration_seconds_def round64_small secs_def)
qed

lemma godiv_whole: "0 < b \<Longrightarrow> godiv (n * b) b = n"
  by (cases "n = 0") (auto simp: godiv_def sgn_mult abs_mult sgn_mult_abs mult_sgn_abs)

lemma secs_whole [simp]: "secs (n * second) = of_int n"
  by (simp add: secs_def gomod_def godiv_whole)

lemma trunc_mono: "x \<le> y \<Longrightarrow> trunc x \<le> trunc y"
proof -
  assume xy: "x \<le> y"
  have "\<lceil>x\<rceil> \<le> \<lfloor>y\<rfloor>" if "x < 0" "0 \<le> y"
  proof -
    have "\<lceil>x\<rceil> \<le> 0" "0 \<le> \<lfloor>y\<rfloor>" using that by simp_all
    then show ?thesis by linarith
  qed
  then show ?thesis using xy by (auto simp: trunc_def floor_mono ceiling_mono)
qed

lemma trunc_int [simp]: "trunc (of_int n) = n"
  by (simp add: trunc_def)

end
