(* ===== verification/TaskQueue.thy ===== *)
theory TaskQueue
  imports BinaryHeap Float64
begin

text \<open>
  The scheduler's task queue: \<open>scheduler/types.go\<close> (\<open>TaskCost\<close>, \<open>ReconciliationTask\<close>) and
  \<open>scheduler/queue.go\<close> (\<open>TaskQueue\<close>, \<open>ThreadSafeQueue\<close>). The mutex makes each method of
  \<open>ThreadSafeQueue\<close> one atomic step; \<open>clk k\<close> is the \<open>k\<close>-th clock reading inside that step, since
  \<open>Less\<close> calls \<open>time.Now()\<close> every time.
\<close>

section \<open>Tasks\<close>

record task_cost =
  CPUSeconds :: f64
  IOOps :: int
  NetMB :: f64

record task =
  t_ReqID :: string
  t_NodeID :: string
  t_TenantID :: string
  t_Priority :: int
  t_Deadline :: gotime
  t_Attempt :: int
  t_Cost :: task_cost
  t_FailureDomain :: string
  t_StateID :: string
  t_TraceContext :: "string \<rightharpoonup> string"
  t_SubmitTime :: gotime
  t_EnqueuedAt :: gotime

section \<open>The order: effective priority, then deadline\<close>

definition agingFactorSeconds :: f64 where "agingFactorSeconds = Fin 10"

definition eff_priority :: "gotime \<Rightarrow> task \<Rightarrow> f64" where
  "eff_priority now t =
     f64_sub (f64_of_int (t_Priority t))
             (f64_div (duration_seconds (time_sub now (t_SubmitTime t))) agingFactorSeconds)"

definition task_less :: "gotime \<Rightarrow> task \<Rightarrow> task \<Rightarrow> bool" where
  "task_less now ti tj =
     (let effPriI = eff_priority now ti; effPriJ = eff_priority now tj in
      if f64_to_int effPriI = f64_to_int effPriJ then t_Deadline ti < t_Deadline tj
      else f64_less effPriI effPriJ)"

section \<open>The locked queue\<close>

record tsqueue =
  pq :: "task list"

definition NewThreadSafeQueue :: tsqueue where
  "NewThreadSafeQueue = \<lparr>pq = []\<rparr>"

definition q_Push :: "(nat \<Rightarrow> gotime) \<Rightarrow> task \<Rightarrow> tsqueue \<Rightarrow> tsqueue" where
  "q_Push clk t q = q\<lparr>pq := heap_push (\<lambda>k. task_less (clk k)) (pq q) t\<rparr>"

definition q_Pop :: "(nat \<Rightarrow> gotime) \<Rightarrow> tsqueue \<Rightarrow> task option \<times> tsqueue" where
  "q_Pop clk q =
     (if pq q = [] then (None, q)
      else let (t, ts) = heap_pop (\<lambda>k. task_less (clk k)) (pq q) in (Some t, q\<lparr>pq := ts\<rparr>))"

definition q_Peek :: "tsqueue \<Rightarrow> task option" where
  "q_Peek q = (case pq q of [] \<Rightarrow> None | t # _ \<Rightarrow> Some t)"

definition q_Len :: "tsqueue \<Rightarrow> nat" where
  "q_Len q = length (pq q)"

definition q_items :: "tsqueue \<Rightarrow> task multiset" where
  "q_items q = mset (pq q)"

section \<open>Whatever the clock says, no task is lost\<close>

lemma q_items_new [simp]: "q_items NewThreadSafeQueue = {#}"
  by (simp add: q_items_def NewThreadSafeQueue_def)

lemma q_Len_items: "q_Len q = size (q_items q)"
  by (simp add: q_Len_def q_items_def)

lemma q_items_push [simp]: "q_items (q_Push clk t q) = add_mset t (q_items q)"
  by (simp add: q_items_def q_Push_def mset_heap_push)

lemma q_Pop_None: "q_Pop clk q = (None, q') \<longleftrightarrow> q_items q = {#} \<and> q' = q"
  by (auto simp: q_Pop_def q_items_def split: prod.splits)

lemma q_Pop_Some:
  assumes "q_Pop clk q = (Some t, q')"
  shows "q_items q = add_mset t (q_items q')" "q_Peek q = Some t"
proof -
  from assms obtain ts where ts: "pq q \<noteq> []" "heap_pop (\<lambda>k. task_less (clk k)) (pq q) = (t, ts)"
      "q' = q\<lparr>pq := ts\<rparr>"
    by (auto simp: q_Pop_def split: if_splits prod.splits)
  then show "q_items q = add_mset t (q_items q')"
    using heap_pop_keeps(1) [OF ts(1,2)] by (simp add: q_items_def)
  show "q_Peek q = Some t"
    using heap_pop_keeps(3) [OF ts(1,2)] ts(1) by (cases "pq q") (simp_all add: q_Peek_def)
qed

section \<open>Less is lexicographic on (truncated effective priority, deadline)\<close>

text \<open>Priorities a \<open>float64\<close> holds exactly; the code documents 0 to 10.\<close>

definition priority_ok :: "task \<Rightarrow> bool" where
  "priority_ok t \<longleftrightarrow> \<bar>t_Priority t\<bar> \<le> 2 ^ 53"

definition age :: "gotime \<Rightarrow> task \<Rightarrow> real" where
  "age now t = rnd (rnd (secs (time_sub now (t_SubmitTime t))) / 10)"

definition eff :: "gotime \<Rightarrow> task \<Rightarrow> real" where
  "eff now t = rnd (of_int (t_Priority t) - age now t)"

lemma rnd_div10_bound: "\<bar>x\<bar> \<le> 10000000000 \<Longrightarrow> \<bar>rnd (rnd x / 10)\<bar> \<le> 1000000000"
proof -
  assume x: "\<bar>x\<bar> \<le> 10000000000"
  have "\<bar>rnd x\<bar> \<le> 10000000000"
    using rnd_mono [of x "of_int 10000000000"] rnd_mono [of "of_int (- 10000000000)" x] x
      rnd_int [of 10000000000] rnd_int [of "- 10000000000"] by (simp add: abs_le_iff)
  then show ?thesis
    using rnd_mono [of "rnd x / 10" "of_int 1000000000"]
      rnd_mono [of "of_int (- 1000000000)" "rnd x / 10"]
      rnd_int [of 1000000000] rnd_int [of "- 1000000000"] by (simp add: abs_le_iff)
qed

lemma age_bound: "\<bar>age now t\<bar> \<le> 1000000000"
  by (simp add: age_def rnd_div10_bound secs_bound time_sub_bounds)

lemma eff_priority_Fin:
  assumes "priority_ok t"
  shows "eff_priority now t = Fin (eff now t)"
proof -
  let ?d = "time_sub now (t_SubmitTime t)"
  have s: "\<bar>secs ?d\<bar> \<le> 10000000000" by (simp add: secs_bound time_sub_bounds)
  have r: "\<bar>rnd (secs ?d)\<bar> \<le> 10000000000"
    using rnd_mono [of "secs ?d" "of_int 10000000000"] rnd_mono [of "of_int (- 10000000000)" "secs ?d"]
      s rnd_int [of 10000000000] rnd_int [of "- 10000000000"] by (simp add: abs_le_iff)
  have d: "f64_div (duration_seconds ?d) agingFactorSeconds = Fin (age now t)"
    using r by (simp add: agingFactorSeconds_def age_def duration_seconds_Fin time_sub_bounds
        round64_small)
  have "\<bar>rnd (of_int (t_Priority t) - age now t)\<bar> < 2 ^ 1024"
  proof -
    have "\<bar>of_int (t_Priority t) - age now t\<bar> \<le> 2 powi 54"
    proof -
      have "\<bar>real_of_int (t_Priority t)\<bar> \<le> 2 ^ 53"
        using assms unfolding priority_ok_def by (metis of_int_abs of_int_le_iff of_int_numeral of_int_power)
      then show ?thesis using age_bound [of now t] by simp
    qed
    moreover have "\<bar>rnd x\<bar> \<le> 2 powi 54" if "\<bar>x\<bar> \<le> 2 powi 54" for x
    proof -
      have e: "expo (2 powi 54) = 54" by (rule expo_unique) simp_all
      then have "rnd (2 powi 54) = 2 powi 54"
        unfolding rnd_def using rnd_pos_exact [of "2 powi 54" "2 ^ 52"] by (simp add: ulp_exp_def)
      then show ?thesis
        using rnd_mono [of x "2 powi 54"] rnd_mono [of "- (2 powi 54)" x] that
        by (simp add: abs_le_iff)
    qed
    ultimately have "\<bar>rnd (of_int (t_Priority t) - age now t)\<bar> \<le> 2 ^ 54" by simp
    also have "(2::real) ^ 54 < 2 ^ 1024" by (rule power_strict_increasing) simp_all
    finally show ?thesis .
  qed
  then have "\<not> 2 ^ 1024 \<le> eff now t" "\<not> eff now t \<le> - (2 ^ 1024)" unfolding eff_def by linarith+
  then have "round64 (of_int (t_Priority t) - age now t) = Fin (eff now t)"
    unfolding round64_def Let_def eff_def by (simp only: if_False)
  then show ?thesis
    using assms by (simp add: eff_priority_def f64_sub_def d priority_ok_def)
qed

definition bucket :: "gotime \<Rightarrow> task \<Rightarrow> int" where
  "bucket now t = trunc (eff now t)"

lemma eff_bound:
  assumes "priority_ok t"
  shows "\<bar>eff now t\<bar> \<le> 2 ^ 53 + 2 ^ 31"
proof -
  let ?b = "2 ^ 53 + 2 ^ 31 :: int"
  have e: "expo (of_int ?b) = 53" by (rule expo_unique) simp_all
  have r: "rnd (of_int ?b) = of_int ?b"
    unfolding rnd_def using rnd_pos_exact [of "of_int ?b" "2 ^ 52 + 2 ^ 30"] e
    by (simp add: ulp_exp_def)
  have "\<bar>real_of_int (t_Priority t)\<bar> \<le> 2 ^ 53"
    using assms unfolding priority_ok_def
    by (metis of_int_abs of_int_le_iff of_int_numeral of_int_power)
  then have "\<bar>of_int (t_Priority t) - age now t\<bar> \<le> of_int ?b"
    using age_bound [of now t] by simp
  then have "\<bar>eff now t\<bar> \<le> of_int ?b"
    unfolding eff_def using r rnd_mono [of "of_int (t_Priority t) - age now t" "of_int ?b"]
      rnd_mono [of "- of_int ?b" "of_int (t_Priority t) - age now t"]
    by (simp add: abs_le_iff)
  then show ?thesis by simp
qed

lemma f64_to_int_eff:
  assumes "priority_ok t"
  shows "f64_to_int (eff_priority now t) = bucket now t"
proof -
  have "\<bar>eff now t\<bar> \<le> of_int (2 ^ 53 + 2 ^ 31)" using eff_bound [OF assms, of now] by simp
  then have "trunc (eff now t) \<le> 2 ^ 53 + 2 ^ 31" "- (2 ^ 53 + 2 ^ 31) \<le> trunc (eff now t)"
    using trunc_mono [of "eff now t" "of_int (2 ^ 53 + 2 ^ 31)"]
      trunc_mono [of "of_int (- (2 ^ 53 + 2 ^ 31))" "eff now t"]
    unfolding trunc_int by (simp_all add: abs_le_iff)
  then show ?thesis by (simp add: eff_priority_Fin [OF assms] bucket_def int64_defs)
qed

lemma task_less_lex:
  assumes "priority_ok t" "priority_ok u"
  shows "task_less now t u \<longleftrightarrow>
     bucket now t < bucket now u \<or>
     (bucket now t = bucket now u \<and> t_Deadline t < t_Deadline u)"
proof (cases "bucket now t = bucket now u")
  case True
  then show ?thesis using assms by (simp add: task_less_def Let_def f64_to_int_eff)
next
  case False
  have "eff now t < eff now u \<longleftrightarrow> bucket now t < bucket now u"
    using False trunc_mono [of "eff now t" "eff now u"] trunc_mono [of "eff now u" "eff now t"]
    by (auto simp: bucket_def not_less [symmetric])
  moreover have "f64_less (eff_priority now t) (eff_priority now u) \<longleftrightarrow> eff now t < eff now u"
    using assms by (simp add: eff_priority_Fin)
  ultimately show ?thesis
    using assms False by (simp add: task_less_def Let_def f64_to_int_eff)
qed

lemma f64_less_asym: "f64_less x y \<Longrightarrow> \<not> f64_less y x"
  by (cases x; cases y) auto

interpretation task_order: weak_order priority_ok "task_less now" for now
proof unfold_locales
  fix t u assume "task_less now t u"
  then show "\<not> task_less now u t"
    by (auto simp: task_less_def Let_def f64_less_asym split: if_splits)
next
  fix x y z assume "priority_ok x" "priority_ok y" "priority_ok z"
    "\<not> task_less now y x" "\<not> task_less now z y"
  then show "\<not> task_less now z x" by (auto simp: task_less_lex)
qed

text \<open>The queue's invariant at an instant: the slice is a heap for the order of that instant.\<close>

definition q_invar :: "gotime \<Rightarrow> tsqueue \<Rightarrow> bool" where
  "q_invar now q \<longleftrightarrow> list_all priority_ok (pq q) \<and> is_heap (task_less now) (pq q) (length (pq q))"

interpretation task_queue: min_queue priority_ok "task_less now" "q_Push (\<lambda>_. now)"
  "q_Pop (\<lambda>_. now)" q_items "q_invar now" for now
proof unfold_locales
  fix q t assume "q_invar now q" "priority_ok t"
  then show "q_invar now (q_Push (\<lambda>_. now) t q)"
    using task_order.heap_push_heap [of now "pq q" t]
    by (simp add: q_invar_def q_Push_def length_heap_push list_all_iff mset_heap_push
        flip: set_mset_mset)
next
  fix q t show "q_items (q_Push (\<lambda>_. now) t q) = add_mset t (q_items q)" by simp
next
  fix q assume "q_items q = {#}"
  then show "q_Pop (\<lambda>_. now) q = (None, q)" by (simp add: q_Pop_None)
next
  fix q assume q: "q_items q \<noteq> {#}" "q_invar now q"
  then have ne: "pq q \<noteq> []" by (simp add: q_items_def)
  obtain t ts where p: "heap_pop (\<lambda>_. task_less now) (pq q) = (t, ts)" by force
  have "q_Pop (\<lambda>_. now) q = (Some t, q\<lparr>pq := ts\<rparr>)" using ne p by (simp add: q_Pop_def)
  moreover have "mset (pq q) = add_mset t (mset ts)" by (rule heap_pop_keeps(1) [OF ne p])
  moreover have "is_heap (task_less now) ts (length ts) \<and> (\<forall>u\<in>set ts. \<not> task_less now u t)"
    using task_order.heap_pop_heap [OF ne _ _ p] q(2) by (simp add: q_invar_def)
  moreover have "list_all priority_ok ts"
    using q(2) arg_cong [OF heap_pop_keeps(1) [OF ne p], of set_mset]
    by (simp add: q_invar_def list_all_iff)
  ultimately show "\<exists>x q'. q_Pop (\<lambda>_. now) q = (Some x, q') \<and> q_items q = add_mset x (q_items q') \<and>
      q_invar now q' \<and> (\<forall>y \<in># q_items q'. \<not> task_less now y x)"
    by (simp add: q_items_def q_invar_def)
qed

lemma q_invar_new: "q_invar now NewThreadSafeQueue"
  by (simp add: q_invar_def NewThreadSafeQueue_def is_heap_def)

section \<open>Aging\<close>

lemma age_antimono: "t_SubmitTime u \<le> t_SubmitTime t \<Longrightarrow> age now t \<le> age now u"
  unfolding age_def by (intro rnd_mono divide_right_mono secs_mono time_sub_antimono) auto

lemma age_mono: "now \<le> now' \<Longrightarrow> age now t \<le> age now' t"
  unfolding age_def by (intro rnd_mono divide_right_mono secs_mono time_sub_mono) auto

lemma age_ge:
  assumes "10 * n * second \<le> time_sub now (t_SubmitTime t)" "\<bar>n\<bar> \<le> 2 ^ 40"
  shows "of_int n \<le> age now t"
proof -
  have "of_int (10 * n) \<le> secs (time_sub now (t_SubmitTime t))"
    using secs_mono [OF assms(1)] by (simp only: secs_whole)
  then have "rnd (of_int (10 * n)) \<le> rnd (secs (time_sub now (t_SubmitTime t)))" by (rule rnd_mono)
  moreover have "\<bar>10 * n\<bar> \<le> 2 ^ 53" "\<bar>n\<bar> \<le> 2 ^ 53" using assms(2) by simp_all
  ultimately have "of_int n \<le> rnd (secs (time_sub now (t_SubmitTime t))) / 10"
    by (simp only: rnd_int)
  then have "rnd (of_int n) \<le> age now t" unfolding age_def by (rule rnd_mono)
  then show ?thesis using \<open>\<bar>n\<bar> \<le> 2 ^ 53\<close> by (simp only: rnd_int)
qed

lemma age_le:
  assumes "time_sub now (t_SubmitTime t) \<le> 10 * n * second" "\<bar>n\<bar> \<le> 2 ^ 40"
  shows "age now t \<le> of_int n"
proof -
  have "secs (time_sub now (t_SubmitTime t)) \<le> of_int (10 * n)"
    using secs_mono [OF assms(1)] by (simp only: secs_whole)
  then have "rnd (secs (time_sub now (t_SubmitTime t))) \<le> rnd (of_int (10 * n))" by (rule rnd_mono)
  moreover have "\<bar>10 * n\<bar> \<le> 2 ^ 53" "\<bar>n\<bar> \<le> 2 ^ 53" using assms(2) by simp_all
  ultimately have "rnd (secs (time_sub now (t_SubmitTime t))) / 10 \<le> of_int n"
    by (simp only: rnd_int)
  then have "age now t \<le> rnd (of_int n)" unfolding age_def by (rule rnd_mono)
  then show ?thesis using \<open>\<bar>n\<bar> \<le> 2 ^ 53\<close> by (simp only: rnd_int)
qed

lemma bucket_le:
  assumes "of_int n \<le> age now t" "\<bar>t_Priority t - n\<bar> \<le> 2 ^ 53"
  shows "bucket now t \<le> t_Priority t - n"
proof -
  have "eff now t \<le> rnd (of_int (t_Priority t - n))"
    unfolding eff_def using assms(1) by (intro rnd_mono) simp
  then have "eff now t \<le> of_int (t_Priority t - n)" using rnd_int [OF assms(2)] by simp
  then show ?thesis unfolding bucket_def by (metis trunc_int trunc_mono)
qed

lemma bucket_ge:
  assumes "age now t \<le> of_int n" "\<bar>t_Priority t - n\<bar> \<le> 2 ^ 53"
  shows "t_Priority t - n \<le> bucket now t"
proof -
  have "rnd (of_int (t_Priority t - n)) \<le> eff now t"
    unfolding eff_def using assms(1) by (intro rnd_mono) simp
  then have "of_int (t_Priority t - n) \<le> eff now t" using rnd_int [OF assms(2)] by simp
  then show ?thesis unfolding bucket_def by (metis trunc_int trunc_mono)
qed

text \<open>
  Anti-starvation, as the comment on \<open>Less\<close> promises ("every 10 seconds of waiting reduces
  priority value by 1"): a task that has waited \<open>10 * n\<close> seconds comes before every task of
  priority at least \<open>t_Priority t - n + 1\<close> that has just been submitted, whatever the two deadlines.
\<close>

theorem aged_task_precedes:
  assumes "priority_ok t" "priority_ok u"
    and "10 * n * second \<le> time_sub now (t_SubmitTime t)" "time_sub now (t_SubmitTime u) \<le> 0"
    and "t_Priority t - n < t_Priority u" "0 \<le> n" "n \<le> 2 ^ 40"
    and "\<bar>t_Priority t\<bar> \<le> 2 ^ 52"
  shows "task_less now t u"
proof -
  have "bucket now t \<le> t_Priority t - n"
    using assms by (intro bucket_le age_ge) auto
  moreover have "t_Priority u - 0 \<le> bucket now u"
    using assms(2,4) by (intro bucket_ge age_le) (auto simp: priority_ok_def)
  ultimately show ?thesis using assms(1,2,5) by (simp add: task_less_lex)
qed

section \<open>A queue whose order goes stale\<close>

definition zero_task :: task where
  "zero_task = \<lparr>t_ReqID = [], t_NodeID = [], t_TenantID = [], t_Priority = 0, t_Deadline = 0,
     t_Attempt = 0, t_Cost = \<lparr>CPUSeconds = Fin 0, IOOps = 0, NetMB = Fin 0\<rparr>,
     t_FailureDomain = [], t_StateID = [], t_TraceContext = Map.empty, t_SubmitTime = 0,
     t_EnqueuedAt = 0\<rparr>"

definition older_task :: task where
  "older_task = zero_task\<lparr>t_ReqID := ''older'', t_Priority := 5, t_SubmitTime := 1000 * second,
     t_Deadline := 2000 * second\<rparr>"

definition newer_task :: task where
  "newer_task = zero_task\<lparr>t_ReqID := ''newer'', t_Priority := 5,
     t_SubmitTime := 1001 * second + 250 * millisecond, t_Deadline := 1500 * second\<rparr>"

definition both_queued :: tsqueue where
  "both_queued = (let clk = (\<lambda>_. 1002 * second + 500 * millisecond) in
     q_Push clk newer_task (q_Push clk older_task NewThreadSafeQueue))"

lemma rnd_quarters [simp]: "rnd (1 / 2) = 1 / 2" "rnd (1 / 4) = 1 / 4" "rnd (1 / 8) = 1 / 8"
    "rnd (5 / 2) = 5 / 2" "rnd (5 / 4) = 5 / 4" "rnd (9 / 8) = 9 / 8" "rnd (45 / 4) = 45 / 4"
    "rnd (19 / 4) = 19 / 4" "rnd (39 / 8) = 39 / 8" "rnd (31 / 8) = 31 / 8"
    "rnd 10 = 10" "rnd 4 = 4"
  using rnd_dyadic [of "1 / 2" 1 1] rnd_dyadic [of "1 / 4" 1 2] rnd_dyadic [of "1 / 8" 1 3]
    rnd_dyadic [of "5 / 2" 5 1] rnd_dyadic [of "5 / 4" 5 2] rnd_dyadic [of "9 / 8" 9 3]
    rnd_dyadic [of "45 / 4" 45 2] rnd_dyadic [of "19 / 4" 19 2] rnd_dyadic [of "39 / 8" 39 3]
    rnd_dyadic [of "31 / 8" 31 3] rnd_int [of 10] rnd_int [of 4]
  by simp_all

lemmas example_simps = older_task_def newer_task_def zero_task_def

lemma example_ok: "priority_ok older_task" "priority_ok newer_task"
  by (simp_all add: priority_ok_def example_simps)

lemma example_order:
  "task_less 1002500000000 newer_task older_task"
  "task_less 1011250000000 older_task newer_task"
  by (simp_all add: task_less_lex example_ok)
    (simp_all add: bucket_def eff_def age_def secs_def time_sub_def int64_defs godiv_pos gomod_pos
      trunc_def example_simps)

lemma both_queued_eq: "both_queued = \<lparr>pq = [newer_task, older_task]\<rparr>"
  using example_order(1)
  by (simp add: both_queued_def Let_def q_Push_def NewThreadSafeQueue_def heap_push_def
      heap_up.simps [of _ 0 "[older_task]"] heap_up.simps [of _ 0 "[older_task, newer_task]"]
      heap_up.simps [of _ "Suc 0"] swap_def)

text \<open>
  The order of the heap goes stale while tasks wait: \<open>Less\<close> compares priorities truncated to
  whole numbers at the time of the call, so two tasks that tie (the earlier deadline first) stop
  tying when one of them crosses a ten-second boundary before the other. The queue built at 1002.5 s
  is a proper heap; at 1011.25 s \<open>Less\<close> itself puts the older task first, and \<open>Pop\<close> still returns
  the newer one.
\<close>

theorem heap_order_decays:
  "q_invar (1002 * second + 500 * millisecond) both_queued \<and>
   task_less (1011 * second + 250 * millisecond) older_task newer_task \<and>
   q_Pop (\<lambda>_. 1011 * second + 250 * millisecond) both_queued = (Some newer_task, \<lparr>pq = [older_task]\<rparr>)"
proof (intro conjI)
  have o: "\<not> task_less 1002500000000 older_task newer_task"
    using task_order.asym example_order(1) by blast
  show "q_invar (1002 * second + 500 * millisecond) both_queued"
    using o by (simp add: q_invar_def both_queued_eq example_ok is_heap_def less_Suc_eq)
  show "task_less (1011 * second + 250 * millisecond) older_task newer_task"
    using example_order(2) by simp
  show "q_Pop (\<lambda>_. 1011 * second + 250 * millisecond) both_queued = (Some newer_task, \<lparr>pq = [older_task]\<rparr>)"
    by (simp add: q_Pop_def both_queued_eq heap_pop_def heap_down.simps swap_def)
qed

section \<open>Properties of the queue as a whole\<close>

definition push_all :: "gotime \<Rightarrow> task list \<Rightarrow> tsqueue" where
  "push_all now ts = fold (q_Push (\<lambda>_. now)) ts NewThreadSafeQueue"

text \<open>
  C13. At one instant the queue is a priority queue: after any pushes, popping as often as there are
  tasks returns every task exactly once, in the order of \<open>Less\<close> (no task comes out before one that
  is strictly ahead of it).
\<close>

theorem queue_drains_in_order:
  assumes "list_all priority_ok ts"
  shows "mset (pops (q_Pop (\<lambda>_. now)) (length ts) (push_all now ts)) = mset ts \<and>
     sorted_wrt (\<lambda>t u. \<not> task_less now u t) (pops (q_Pop (\<lambda>_. now)) (length ts) (push_all now ts))"
proof -
  have "q_items (fold (q_Push (\<lambda>_. now)) us r) = q_items r + mset us \<and>
      (q_invar now r \<longrightarrow> list_all priority_ok us \<longrightarrow> q_invar now (fold (q_Push (\<lambda>_. now)) us r))" for us r
    by (induction us arbitrary: r) (auto intro: task_queue.invar_push)
  then have "q_items (push_all now ts) = mset ts" "q_invar now (push_all now ts)"
    using assms by (simp_all add: q_invar_new push_all_def)
  then show ?thesis using task_queue.pops_drain [of now "push_all now ts"] by simp
qed

text \<open>A run of the locked operations, each with the clock readings of its own \<open>Less\<close> calls.\<close>

datatype queue_op = OpPush "nat \<Rightarrow> gotime" task | OpPop "nat \<Rightarrow> gotime"

fun run_queue :: "queue_op list \<Rightarrow> tsqueue \<Rightarrow> task list \<times> tsqueue" where
  "run_queue [] q = ([], q)"
| "run_queue (OpPush clk t # ops) q = run_queue ops (q_Push clk t q)"
| "run_queue (OpPop clk # ops) q =
     (case q_Pop clk q of
        (None, q') \<Rightarrow> run_queue ops q'
      | (Some t, q') \<Rightarrow> (let (ts, q'') = run_queue ops q' in (t # ts, q'')))"

fun pushed :: "queue_op list \<Rightarrow> task multiset" where
  "pushed [] = {#}"
| "pushed (OpPush clk t # ops) = add_mset t (pushed ops)"
| "pushed (OpPop clk # ops) = pushed ops"

text \<open>
  No task is lost or duplicated by the queue, however the clock moves between and during the
  heap operations and whatever the priorities are: what the pops returned, together with what is
  still queued, is exactly what was there and what was pushed.
\<close>

theorem queue_conserves_tasks:
  "mset (fst (run_queue ops q)) + q_items (snd (run_queue ops q)) = q_items q + pushed ops"
proof (induction ops q rule: run_queue.induct)
  case (3 clk ops q)
  show ?case
  proof (cases "q_Pop clk q")
    case (Pair r q')
    show ?thesis
    proof (cases r)
      case None
      then show ?thesis using 3(1) Pair q_Pop_None [of clk q q'] by simp
    next
      case (Some t)
      then show ?thesis
        using 3(2) [of "Some t" q' t] Pair q_Pop_Some(1) [of clk q t q']
        by (simp add: split_beta Let_def)
    qed
  qed
qed simp_all

section \<open>Witnesses\<close>

theorem queue_drains_in_order_witness:
  "mset (pops (q_Pop (\<lambda>_. 0)) 2 (q_Push (\<lambda>_. 0) newer_task (q_Push (\<lambda>_. 0) older_task
     NewThreadSafeQueue))) = {#older_task, newer_task#}"
  using queue_drains_in_order [of "[older_task, newer_task]" 0]
  by (simp add: push_all_def example_ok numeral_2_eq_2)

theorem aged_task_precedes_witness:
  "task_less (1011 * second + 250 * millisecond) older_task
     (newer_task\<lparr>t_SubmitTime := 1011 * second + 250 * millisecond, t_Deadline := 0\<rparr>)"
  by (rule aged_task_precedes [where n = 1])
    (simp_all add: priority_ok_def time_sub_def int64_defs example_simps)

end
