(* ===== verification/CircuitBreaker.thy ===== *)
theory CircuitBreaker
  imports Float64
begin

text \<open>
  The backpressure circuit breaker of \<open>scheduler/circuit_breaker.go\<close>. Its mutex makes each method one
  atomic step; a method that reads the clock takes its readings as arguments, in the order it makes
  them.
\<close>

section \<open>State and operations\<close>

datatype CircuitState = CircuitClosed | CircuitHalfOpen | CircuitOpen

fun CircuitState_String :: "CircuitState \<Rightarrow> string" where
  "CircuitState_String CircuitClosed = ''closed''"
| "CircuitState_String CircuitHalfOpen = ''half_open''"
| "CircuitState_String CircuitOpen = ''open''"

record circuit_breaker =
  cb_state :: CircuitState
  queueThreshold :: int
  saturationThreshold :: f64
  cooldownPeriod :: duration
  openedAt :: gotime
  testCount :: int
  testLimit :: int

definition NewCircuitBreaker :: "int \<Rightarrow> circuit_breaker" where
  "NewCircuitBreaker threshold =
     \<lparr>cb_state = CircuitClosed, queueThreshold = threshold,
      saturationThreshold = round64 (95 / 100), cooldownPeriod = 30 * second,
      openedAt = 0, testCount = 0, testLimit = 5\<rparr>"

text \<open>\<open>now\<close> is the reading of \<open>time.Since\<close>, \<open>now'\<close> the one stored in \<open>openedAt\<close>.\<close>

definition cb_cool :: "gotime \<Rightarrow> circuit_breaker \<Rightarrow> circuit_breaker" where
  "cb_cool now cb =
     (if cb_state cb = CircuitOpen \<and> time_sub now (openedAt cb) > cooldownPeriod cb
      then cb\<lparr>cb_state := CircuitHalfOpen, testCount := 0\<rparr> else cb)"

definition ShouldAdmit ::
  "gotime \<Rightarrow> gotime \<Rightarrow> int \<Rightarrow> f64 \<Rightarrow> circuit_breaker \<Rightarrow> bool \<times> circuit_breaker" where
  "ShouldAdmit now now' queueDepth workerSaturation cb0 =
     (let cb = cb_cool now cb0 in
      if cb_state cb = CircuitHalfOpen then
        if testCount cb < testLimit cb then (True, cb\<lparr>testCount := testCount cb + 1\<rparr>)
        else if queueDepth < godiv (queueThreshold cb) 2 \<and>
                f64_less workerSaturation (saturationThreshold cb)
        then (True, cb\<lparr>cb_state := CircuitClosed\<rparr>)
        else (False, cb)
      else if queueDepth > queueThreshold cb \<or> f64_less (saturationThreshold cb) workerSaturation
      then (False, cb\<lparr>cb_state := CircuitOpen, openedAt := now'\<rparr>)
      else (cb_state cb = CircuitClosed, cb))"

definition RecordSuccess :: "circuit_breaker \<Rightarrow> circuit_breaker" where
  "RecordSuccess cb =
     (if cb_state cb = CircuitHalfOpen \<and> testLimit cb \<le> testCount cb
      then cb\<lparr>cb_state := CircuitClosed\<rparr> else cb)"

definition RecordFailure :: "gotime \<Rightarrow> circuit_breaker \<Rightarrow> circuit_breaker" where
  "RecordFailure now cb =
     (if cb_state cb = CircuitHalfOpen
      then cb\<lparr>cb_state := CircuitOpen, openedAt := now, testCount := 0\<rparr> else cb)"

definition cb_GetState :: "circuit_breaker \<Rightarrow> CircuitState" where
  "cb_GetState cb = cb_state cb"

section \<open>One call\<close>

text \<open>What a call sees: its two clock readings, the queue depth and the worker saturation.\<close>

type_synonym cb_call = "gotime \<times> gotime \<times> int \<times> f64"

definition cb_overloaded :: "circuit_breaker \<Rightarrow> int \<Rightarrow> f64 \<Rightarrow> bool" where
  "cb_overloaded cb d w \<longleftrightarrow> d > queueThreshold cb \<or> f64_less (saturationThreshold cb) w"

definition cb_recovered :: "circuit_breaker \<Rightarrow> int \<Rightarrow> f64 \<Rightarrow> bool" where
  "cb_recovered cb d w \<longleftrightarrow> d < godiv (queueThreshold cb) 2 \<and> f64_less w (saturationThreshold cb)"

definition cb_config :: "circuit_breaker \<Rightarrow> int \<times> f64 \<times> duration \<times> int" where
  "cb_config cb = (queueThreshold cb, saturationThreshold cb, cooldownPeriod cb, testLimit cb)"

lemma ShouldAdmit_config [frame_simps]:
  "cb_config (snd (ShouldAdmit now now' d w cb)) = cb_config cb"
  by (simp add: ShouldAdmit_def cb_cool_def Let_def cb_config_def)

lemma Record_config [frame_simps]:
  "cb_config (RecordSuccess cb) = cb_config cb" "cb_config (RecordFailure now cb) = cb_config cb"
  by (simp_all add: RecordSuccess_def RecordFailure_def cb_config_def)

lemma cb_config_cong:
  assumes "cb_config cb = cb_config cb'"
  shows "cb_overloaded cb = cb_overloaded cb'" "cb_recovered cb = cb_recovered cb'"
    "testLimit cb = testLimit cb'" "cooldownPeriod cb = cooldownPeriod cb'"
  using assms by (auto simp: cb_config_def cb_overloaded_def cb_recovered_def fun_eq_iff)

lemma admit_closed:
  "cb_state cb = CircuitClosed \<Longrightarrow> ShouldAdmit now now' d w cb =
     (if cb_overloaded cb d w then (False, cb\<lparr>cb_state := CircuitOpen, openedAt := now'\<rparr>)
      else (True, cb))"
  by (auto simp: ShouldAdmit_def cb_cool_def cb_overloaded_def)

lemma admit_open_hot:
  "cb_state cb = CircuitOpen \<Longrightarrow> time_sub now (openedAt cb) \<le> cooldownPeriod cb \<Longrightarrow>
   ShouldAdmit now now' d w cb =
     (False, if cb_overloaded cb d w then cb\<lparr>openedAt := now'\<rparr> else cb)"
  by (auto simp: ShouldAdmit_def cb_cool_def cb_overloaded_def)

lemma admit_open_cool:
  "cb_state cb = CircuitOpen \<Longrightarrow> cooldownPeriod cb < time_sub now (openedAt cb) \<Longrightarrow>
   ShouldAdmit now now' d w cb =
     ShouldAdmit now now' d w (cb\<lparr>cb_state := CircuitHalfOpen, testCount := 0\<rparr>)"
  by (simp add: ShouldAdmit_def cb_cool_def)

lemma admit_half_open:
  "cb_state cb = CircuitHalfOpen \<Longrightarrow> ShouldAdmit now now' d w cb =
     (if testCount cb < testLimit cb then (True, cb\<lparr>testCount := testCount cb + 1\<rparr>)
      else if cb_recovered cb d w then (True, cb\<lparr>cb_state := CircuitClosed\<rparr>)
      else (False, cb))"
  by (auto simp: ShouldAdmit_def cb_cool_def cb_recovered_def)

section \<open>Runs of calls\<close>

fun cb_run :: "cb_call list \<Rightarrow> circuit_breaker \<Rightarrow> bool list \<times> circuit_breaker" where
  "cb_run [] cb = ([], cb)"
| "cb_run ((now, now', d, w) # calls) cb =
     (let (b, cb') = ShouldAdmit now now' d w cb; (bs, cb'') = cb_run calls cb' in (b # bs, cb''))"

lemma cb_run_Cons:
  "cb_run ((now, now', d, w) # calls) cb =
     (let r = ShouldAdmit now now' d w cb; rs = cb_run calls (snd r) in (fst r # fst rs, snd rs))"
  by (simp add: split_beta Let_def)

declare cb_run.simps(2) [simp del]

lemma cb_run_config [frame_simps]: "cb_config (snd (cb_run calls cb)) = cb_config cb"
  by (induction calls arbitrary: cb) (auto simp: cb_run_Cons Let_def frame_simps)

lemma cb_run_length [simp]: "length (fst (cb_run calls cb)) = length calls"
  by (induction calls arbitrary: cb) (auto simp: cb_run_Cons Let_def)

lemma open_run:
  assumes "cb_state cb = CircuitOpen" "t \<le> openedAt cb"
    and "\<forall>(now, now', d, w) \<in> set calls. t \<le> now' \<and> time_sub now t \<le> cooldownPeriod cb"
  shows "True \<notin> set (fst (cb_run calls cb)) \<and> cb_state (snd (cb_run calls cb)) = CircuitOpen"
  using assms
proof (induction calls arbitrary: cb)
  case (Cons c calls)
  obtain now now' d w where c: "c = (now, now', d, w)" by (cases c)
  define cb' where "cb' = (if cb_overloaded cb d w then cb\<lparr>openedAt := now'\<rparr> else cb)"
  have "time_sub now (openedAt cb) \<le> cooldownPeriod cb"
    using Cons.prems c time_sub_antimono [of t "openedAt cb" now] by auto
  then have step: "ShouldAdmit now now' d w cb = (False, cb')"
    using Cons.prems(1) by (simp add: admit_open_hot cb'_def)
  have "cb_state cb' = CircuitOpen" "t \<le> openedAt cb'" "cooldownPeriod cb' = cooldownPeriod cb"
    using Cons.prems c by (simp_all add: cb'_def)
  with Cons.IH [of cb'] Cons.prems(3) show ?case by (simp add: c cb_run_Cons Let_def step)
qed simp

text \<open>
  An open circuit sheds every task until the cooldown is over: whatever the load does, each call
  made within the cooldown of the opening is rejected and leaves the circuit open.
\<close>

theorem open_circuit_sheds:
  assumes "cb_state cb = CircuitOpen"
    and "\<forall>(now, now', d, w) \<in> set calls. openedAt cb \<le> now' \<and>
           time_sub now (openedAt cb) \<le> cooldownPeriod cb"
  shows "True \<notin> set (fst (cb_run calls cb)) \<and> cb_state (snd (cb_run calls cb)) = CircuitOpen"
  using assms by (intro open_run [where t = "openedAt cb"]) simp_all

lemma admitted_budget:
  assumes "cb_state cb \<noteq> CircuitClosed" "0 \<le> testLimit cb"
    and "\<forall>(now, now', d, w) \<in> set calls. \<not> cb_recovered cb d w"
  shows "int (count_list (fst (cb_run calls cb)) True) \<le>
     (if cb_state cb = CircuitHalfOpen then max 0 (testLimit cb - testCount cb) else testLimit cb) \<and>
     cb_state (snd (cb_run calls cb)) \<noteq> CircuitClosed"
  using assms
proof (induction calls arbitrary: cb)
  case (Cons c calls)
  obtain now now' d w where c: "c = (now, now', d, w)" by (cases c)
  have conf: "cb_config (snd (ShouldAdmit now now' d w cb)) = cb_config cb" by (rule ShouldAdmit_config)
  note IH = Cons.IH [of "snd (ShouldAdmit now now' d w cb)"]
  have rec: "\<not> cb_recovered cb d w" using Cons.prems(3) c by auto
  have tail: "\<forall>(_, _, d, w) \<in> set calls. \<not> cb_recovered (snd (ShouldAdmit now now' d0 w0 cb)) d w" for d0 w0
    using Cons.prems(3) cb_config_cong(2) [OF ShouldAdmit_config] by simp
  have rec': "\<not> cb_recovered (cb\<lparr>cb_state := CircuitHalfOpen, testCount := 0\<rparr>) d w"
    using rec by (simp add: cb_recovered_def)
  consider "cb_state cb = CircuitHalfOpen"
    | "cb_state cb = CircuitOpen" "time_sub now (openedAt cb) \<le> cooldownPeriod cb"
    | "cb_state cb = CircuitOpen" "cooldownPeriod cb < time_sub now (openedAt cb)"
    using Cons.prems(1) by (cases "cb_state cb") force+
  then show ?case
  proof cases
    case 1
    show ?thesis
    proof (cases "testCount cb < testLimit cb")
      case True
      then show ?thesis
        using 1 IH tail [of d w] Cons.prems(2)
        by (auto simp: c cb_run_Cons Let_def admit_half_open)
    next
      case False
      then show ?thesis
        using 1 IH tail [of d w] Cons.prems(2) rec
        by (auto simp: c cb_run_Cons Let_def admit_half_open)
    qed
  next
    case 2
    then show ?thesis
      using IH tail [of d w] Cons.prems(2)
      by (auto simp: c cb_run_Cons Let_def admit_open_hot)
  next
    case 3
    then show ?thesis
      using IH tail [of d w] Cons.prems(2) rec'
      by (auto simp: c cb_run_Cons Let_def admit_open_cool admit_half_open)
  qed
qed simp

text \<open>
  C32. Backpressure holds after the cooldown too: once the circuit has opened, the calls that find the
  scheduler not recovered (half the queue threshold or more, or the saturation limit reached) admit
  at most \<open>testLimit\<close> tasks between them, however many calls there are and however they are spaced,
  and never close the circuit.
\<close>

theorem half_open_budget:
  assumes "cb_state cb = CircuitOpen" "0 \<le> testLimit cb"
    and "\<forall>(now, now', d, w) \<in> set calls. \<not> cb_recovered cb d w"
  shows "int (count_list (fst (cb_run calls cb)) True) \<le> testLimit cb \<and>
     cb_state (snd (cb_run calls cb)) \<noteq> CircuitClosed"
  using admitted_budget [of cb calls] assms by simp

lemma half_open_recovers:
  assumes "cb_state cb = CircuitHalfOpen" "testCount cb \<le> testLimit cb"
    and "\<forall>(now, now', d, w) \<in> set calls. cb_recovered cb d w"
    and "int (length calls) = testLimit cb - testCount cb + 1"
  shows "cb_state (snd (cb_run calls cb)) = CircuitClosed \<and> False \<notin> set (fst (cb_run calls cb))"
  using assms
proof (induction calls arbitrary: cb)
  case (Cons c calls)
  obtain now now' d w where c: "c = (now, now', d, w)" by (cases c)
  show ?case
  proof (cases "testCount cb < testLimit cb")
    case True
    define cb' where "cb' = cb\<lparr>testCount := testCount cb + 1\<rparr>"
    have "cb_recovered cb' = cb_recovered cb" by (simp add: cb'_def cb_recovered_def fun_eq_iff)
    then have "cb_state (snd (cb_run calls cb')) = CircuitClosed \<and> False \<notin> set (fst (cb_run calls cb'))"
      using Cons.IH [of cb'] Cons.prems True by (simp add: cb'_def)
    then show ?thesis using Cons.prems(1) True by (simp add: c cb_run_Cons Let_def admit_half_open cb'_def)
  next
    case False
    then have "calls = []" using Cons.prems by simp
    then show ?thesis
      using False Cons.prems(1,3) by (simp add: c cb_run_Cons Let_def admit_half_open)
  qed
qed simp

text \<open>
  The circuit closes again: with the cooldown over at the first call and the scheduler recovered
  at every call, \<open>testLimit + 1\<close> calls are all admitted and leave the circuit closed.
\<close>

theorem circuit_recovers:
  assumes "cb_state cb = CircuitOpen" "0 \<le> testLimit cb"
    and "calls = (now, now', d, w) # calls'"
    and "cooldownPeriod cb < time_sub now (openedAt cb)"
    and "\<forall>(now, now', d, w) \<in> set calls. cb_recovered cb d w"
    and "int (length calls) = testLimit cb + 1"
  shows "cb_state (snd (cb_run calls cb)) = CircuitClosed \<and> False \<notin> set (fst (cb_run calls cb))"
proof -
  define cb' where "cb' = cb\<lparr>cb_state := CircuitHalfOpen, testCount := 0\<rparr>"
  have "cb_run calls cb = cb_run calls cb'"
    using assms(1,3,4) by (simp add: cb_run_Cons Let_def admit_open_cool cb'_def)
  moreover have "cb_recovered cb' = cb_recovered cb" by (simp add: cb'_def cb_recovered_def fun_eq_iff)
  ultimately show ?thesis
    using half_open_recovers [of cb' calls] assms(2,5,6) by (simp add: cb'_def)
qed

section \<open>Witnesses\<close>

text \<open>A breaker with the scheduler's default threshold, opened at 1000 s.\<close>

definition opened_breaker :: circuit_breaker where
  "opened_breaker = snd (ShouldAdmit 0 (1000 * second) 1001 (Fin 0) (NewCircuitBreaker 1000))"

lemma opened_breaker_eq:
  "opened_breaker = (NewCircuitBreaker 1000)\<lparr>cb_state := CircuitOpen, openedAt := 1000 * second\<rparr>"
  by (simp add: opened_breaker_def ShouldAdmit_def cb_cool_def NewCircuitBreaker_def Let_def)

lemma saturation_limit_pos: "f64_less (Fin 0) (round64 (95 / 100))"
  using rnd_mono [of "1 / 2" "95 / 100"] rnd_dyadic [of "1 / 2" 1 1]
  by (simp add: round64_small)

lemmas opened_breaker_simps = opened_breaker_eq NewCircuitBreaker_def cb_recovered_def
  godiv_pos time_sub_def int64_defs

theorem open_circuit_sheds_witness:
  "fst (cb_run [(1010 * second, 1010 * second, 0, Fin 0), (1030 * second, 1030 * second, 2000, Fin 0)]
     opened_breaker) = [False, False]"
  using open_circuit_sheds [of opened_breaker
      "[(1010 * second, 1010 * second, 0, Fin 0), (1030 * second, 1030 * second, 2000, Fin 0)]"]
  by (auto simp: cb_run_Cons Let_def opened_breaker_simps)

theorem half_open_budget_witness:
  "int (count_list (fst (cb_run (replicate 50 (1031 * second, 1031 * second, 600, Fin 0)) opened_breaker)) True) \<le> 5"
  using half_open_budget [of opened_breaker "replicate 50 (1031 * second, 1031 * second, 600, Fin 0)"]
  by (simp add: opened_breaker_simps)

theorem circuit_recovers_witness:
  "cb_state (snd (cb_run (replicate 6 (1031 * second, 1031 * second, 10, Fin 0)) opened_breaker)) = CircuitClosed"
  using circuit_recovers [of opened_breaker "replicate 6 (1031 * second, 1031 * second, 10, Fin 0)"
      "1031 * second" "1031 * second" 10 "Fin 0" "replicate 5 (1031 * second, 1031 * second, 10, Fin 0)"]
    saturation_limit_pos
  by (simp add: opened_breaker_simps numeral_eq_Suc)

end
