(* ===== verification/RateLimiter.thy ===== *)
theory RateLimiter
  imports Float64
begin

text \<open>
  The keyed token buckets of \<open>scheduler/limiter.go\<close>. The buckets themselves are
  \<open>golang.org/x/time/rate.Limiter\<close>, which is not part of the repository: its calls are the fields of
  \<open>rate_api\<close>, a parameter of every operation. \<open>'l\<close> is the type of a bucket's state and \<open>'r\<close> that of
  a reservation; each call takes the clock reading it is made at.
\<close>

record ('l, 'r) rate_api =
  NewLimiter :: "f64 \<Rightarrow> int \<Rightarrow> 'l"
  Limiter_Allow :: "gotime \<Rightarrow> 'l \<Rightarrow> bool \<times> 'l"
  Limiter_Reserve :: "gotime \<Rightarrow> 'l \<Rightarrow> 'r \<times> 'l"
  Reservation_Delay :: "gotime \<Rightarrow> 'r \<Rightarrow> duration"
  Reservation_Cancel :: "gotime \<Rightarrow> 'r \<Rightarrow> 'l \<Rightarrow> 'l"

record 'l token_bucket_limiter =
  limiters :: "string \<rightharpoonup> 'l"
  tb_r :: f64
  tb_b :: int

definition NewTokenBucketLimiter :: "f64 \<Rightarrow> int \<Rightarrow> 'l token_bucket_limiter" where
  "NewTokenBucketLimiter r b = \<lparr>limiters = Map.empty, tb_r = r, tb_b = b\<rparr>"

text \<open>The bucket of a key, a fresh one if the key has none yet.\<close>

definition bucket_of :: "('l, 'r) rate_api \<Rightarrow> 'l token_bucket_limiter \<Rightarrow> string \<Rightarrow> 'l" where
  "bucket_of api l key = (case limiters l key of None \<Rightarrow> NewLimiter api (tb_r l) (tb_b l) | Some b \<Rightarrow> b)"

definition tb_Allow ::
  "('l, 'r) rate_api \<Rightarrow> gotime \<Rightarrow> string \<Rightarrow> 'l token_bucket_limiter \<Rightarrow> bool \<times> 'l token_bucket_limiter"
where
  "tb_Allow api now key l =
     (let (ok, b) = Limiter_Allow api now (bucket_of api l key)
      in (ok, l\<lparr>limiters := (limiters l)(key \<mapsto> b)\<rparr>))"

text \<open>The three clock readings are those of \<open>Reserve\<close>, \<open>Delay\<close> and \<open>Cancel\<close>.\<close>

definition tb_Reserve ::
  "('l, 'r) rate_api \<Rightarrow> gotime \<times> gotime \<times> gotime \<Rightarrow> string \<Rightarrow> 'l token_bucket_limiter \<Rightarrow>
   (bool \<times> duration) \<times> 'l token_bucket_limiter"
where
  "tb_Reserve api = (\<lambda>(now1, now2, now3) key l.
     let (r, b) = Limiter_Reserve api now1 (bucket_of api l key);
         delay = Reservation_Delay api now2 r
     in if 0 < delay
        then ((False, delay),
              l\<lparr>limiters := (limiters l)(key \<mapsto> Reservation_Cancel api now3 r b)\<rparr>)
        else ((True, 0), l\<lparr>limiters := (limiters l)(key \<mapsto> b)\<rparr>))"

definition EnsureLimiter ::
  "('l, 'r) rate_api \<Rightarrow> string \<Rightarrow> 'l token_bucket_limiter \<Rightarrow> 'l token_bucket_limiter"
where
  "EnsureLimiter api key l =
     (if limiters l key = None
      then l\<lparr>limiters := (limiters l)(key \<mapsto> NewLimiter api (tb_r l) (tb_b l))\<rparr> else l)"

lemma bucket_of_EnsureLimiter [simp]: "bucket_of api (EnsureLimiter api k l) = bucket_of api l"
  by (auto simp: bucket_of_def EnsureLimiter_def fun_eq_iff split: option.split)

lemma bucket_of_Reserve_other [simp]:
  "key \<noteq> k \<Longrightarrow> bucket_of api (snd (tb_Reserve api clk k l)) key = bucket_of api l key"
  by (cases clk) (simp add: bucket_of_def tb_Reserve_def Let_def split_beta split: option.split)

lemma bucket_of_Allow_other [simp]:
  "key \<noteq> k \<Longrightarrow> bucket_of api (snd (tb_Allow api now k l)) key = bucket_of api l key"
  by (simp add: bucket_of_def tb_Allow_def Let_def split_beta split: option.split)

lemma tb_Reserve_delay:
  "tb_Reserve api clk key l = ((ok, delay), l') \<Longrightarrow> ok \<longleftrightarrow> delay = 0"
  "tb_Reserve api clk key l = ((ok, delay), l') \<Longrightarrow> 0 \<le> delay"
  by (cases clk, auto simp: tb_Reserve_def Let_def split_beta split: if_splits)+

section \<open>Keys do not share tokens\<close>

datatype limiter_call = CallAllow gotime string | CallReserve "gotime \<times> gotime \<times> gotime" string
  | CallEnsure string

fun call_key :: "limiter_call \<Rightarrow> string" where
  "call_key (CallAllow now k) = k"
| "call_key (CallReserve clk k) = k"
| "call_key (CallEnsure k) = k"

text \<open>The calls answered, each with whether it may proceed (\<open>EnsureLimiter\<close> answers nothing).\<close>

fun limiter_step ::
  "('l, 'r) rate_api \<Rightarrow> limiter_call \<Rightarrow> 'l token_bucket_limiter \<Rightarrow>
   (bool \<times> duration) \<times> 'l token_bucket_limiter" where
  "limiter_step api (CallAllow now k) l = (let (ok, l') = tb_Allow api now k l in ((ok, 0), l'))"
| "limiter_step api (CallReserve clk k) l = tb_Reserve api clk k l"
| "limiter_step api (CallEnsure k) l = ((True, 0), EnsureLimiter api k l)"

fun limiter_run ::
  "('l, 'r) rate_api \<Rightarrow> limiter_call list \<Rightarrow> 'l token_bucket_limiter \<Rightarrow>
   (limiter_call \<times> bool \<times> duration) list" where
  "limiter_run api [] l = []"
| "limiter_run api (c # cs) l =
     (let (a, l') = limiter_step api c l in (c, a) # limiter_run api cs l')"

definition tb_agree :: "('l, 'r) rate_api \<Rightarrow> string \<Rightarrow> 'l token_bucket_limiter \<Rightarrow>
    'l token_bucket_limiter \<Rightarrow> bool" where
  "tb_agree api k l l' \<longleftrightarrow>
     bucket_of api l k = bucket_of api l' k \<and> tb_r l = tb_r l' \<and> tb_b l = tb_b l'"

lemma limiter_step_other:
  "call_key c \<noteq> k \<Longrightarrow> tb_agree api k (snd (limiter_step api c l)) l"
  by (cases c) (auto simp: tb_agree_def split_beta Let_def tb_Allow_def EnsureLimiter_def tb_Reserve_def
      bucket_of_def split: option.split)

lemma limiter_step_same:
  assumes "call_key c = k" "tb_agree api k l l'"
  shows "fst (limiter_step api c l) = fst (limiter_step api c l') \<and>
         tb_agree api k (snd (limiter_step api c l)) (snd (limiter_step api c l'))"
proof (cases c)
  case (CallAllow now k')
  then show ?thesis
    using assms by (simp add: tb_agree_def tb_Allow_def Let_def split_beta bucket_of_def [of _ "_\<lparr>limiters := _\<rparr>"])
next
  case (CallReserve clk k')
  then show ?thesis
    using assms by (cases clk)
      (simp add: tb_agree_def tb_Reserve_def Let_def split_beta bucket_of_def [of _ "_\<lparr>limiters := _\<rparr>"])
next
  case (CallEnsure k')
  then show ?thesis using assms by (simp add: tb_agree_def) (simp add: EnsureLimiter_def)
qed

lemma limiter_run_agree:
  "tb_agree api k l l' \<Longrightarrow>
   filter (\<lambda>(c, _). call_key c = k) (limiter_run api cs l) =
   limiter_run api (filter (\<lambda>c. call_key c = k) cs) l'"
proof (induction cs arbitrary: l l')
  case (Cons c cs)
  show ?case
  proof (cases "call_key c = k")
    case True
    then show ?thesis
      using limiter_step_same [OF True Cons.prems] Cons.IH by (simp add: split_beta Let_def)
  next
    case False
    have "tb_agree api k (snd (limiter_step api c l)) l'"
      using limiter_step_other [OF False, of api l] Cons.prems by (simp add: tb_agree_def)
    then show ?thesis using False Cons.IH by (simp add: split_beta Let_def)
  qed
qed simp

text \<open>
  The limits of different keys are independent, whatever the token bucket library does: the
  answers one key gets in any interleaving of calls are those it would get if the calls of the other
  keys were not there. (One tenant's traffic, or one node's, never uses up another's tokens.)
\<close>

theorem limiter_keys_independent:
  "filter (\<lambda>(c, _). call_key c = k) (limiter_run api cs l) =
   limiter_run api (filter (\<lambda>c. call_key c = k) cs) l"
  by (rule limiter_run_agree) (simp add: tb_agree_def)

end
