(* ===== verification/StoreTypes.thy ===== *)
theory StoreTypes
  imports Prelude
begin

text \<open>
  The records every store keeps (\<open>store/types.go\<close>), the Redis-style keys that separate tenants
  (\<open>store/keys.go\<close>) and the hash that assigns nodes to shards, which \<open>store/memory.go\<close> and
  \<open>scheduler/scheduler.go\<close> both define. Go's strings are byte strings, as HOL's are lists of 8-bit
  characters. A store's error is its message.
\<close>

type_synonym go_error = string

section \<open>Records\<close>

record agent =
  a_NodeID :: string
  a_TenantID :: string
  a_Hostname :: string
  a_IPAddress :: string
  a_Version :: string
  a_Status :: string
  a_LastHeartbeat :: gotime
  a_CreatedAt :: gotime
  a_UpdatedAt :: gotime
  a_Metadata :: "string \<rightharpoonup> string"
  a_Port :: int
  a_Tier :: string

record job =
  j_JobID :: string
  j_NodeID :: string
  j_TenantID :: string
  j_StateID :: string
  j_Command :: string
  j_Status :: string
  j_ExitCode :: int
  j_Stdout :: string
  j_Stderr :: string
  j_CreatedAt :: gotime
  j_StartedAt :: "gotime option"
  j_FinishedAt :: "gotime option"
  j_TraceID :: string

record desired_state =
  ds_StateID :: string
  ds_NodeID :: string
  ds_TenantID :: string
  ds_CheckCmd :: string
  ds_ApplyCmd :: string
  ds_DesiredExitCode :: int
  ds_CreatedAt :: gotime
  ds_UpdatedAt :: gotime
  ds_Version :: int
  ds_Status :: string
  ds_LastChecked :: gotime
  ds_LastError :: string

definition zero_agent :: agent where
  "zero_agent = \<lparr>a_NodeID = [], a_TenantID = [], a_Hostname = [], a_IPAddress = [], a_Version = [],
     a_Status = [], a_LastHeartbeat = 0, a_CreatedAt = 0, a_UpdatedAt = 0, a_Metadata = Map.empty,
     a_Port = 0, a_Tier = []\<rparr>"

definition zero_job :: job where
  "zero_job = \<lparr>j_JobID = [], j_NodeID = [], j_TenantID = [], j_StateID = [], j_Command = [],
     j_Status = [], j_ExitCode = 0, j_Stdout = [], j_Stderr = [], j_CreatedAt = 0,
     j_StartedAt = None, j_FinishedAt = None, j_TraceID = []\<rparr>"

definition zero_state :: desired_state where
  "zero_state = \<lparr>ds_StateID = [], ds_NodeID = [], ds_TenantID = [], ds_CheckCmd = [],
     ds_ApplyCmd = [], ds_DesiredExitCode = 0, ds_CreatedAt = 0, ds_UpdatedAt = 0, ds_Version = 0,
     ds_Status = [], ds_LastChecked = 0, ds_LastError = []\<rparr>"

section \<open>Keys\<close>

definition ResourceAgent :: string where "ResourceAgent = ''agents''"
definition ResourceJob :: string where "ResourceJob = ''jobs''"
definition ResourceState :: string where "ResourceState = ''states''"

definition TenantKey :: "string \<Rightarrow> string \<Rightarrow> string \<Rightarrow> string" where
  "TenantKey tenantID resource ident =
     ''fluxforge:tenants:'' @ tenantID @ '':'' @ resource @ '':'' @ ident"

definition TenantPrefix :: "string \<Rightarrow> string \<Rightarrow> string" where
  "TenantPrefix tenantID resource = ''fluxforge:tenants:'' @ tenantID @ '':'' @ resource @ '':''"

definition TenantWildcardPrefix :: "string \<Rightarrow> string" where
  "TenantWildcardPrefix resource = ''fluxforge:tenants:*:'' @ resource @ '':*''"

lemma TenantKey_prefix: "TenantKey tenantID resource i = TenantPrefix tenantID resource @ i"
  by (simp add: TenantKey_def TenantPrefix_def)

lemma TenantKey_inj_id [simp]: "TenantKey t r i = TenantKey t r i' \<longleftrightarrow> i = i'"
  by (simp add: TenantKey_def)

text \<open>Tenant identifiers without a colon cannot run into what follows them.\<close>

definition no_colon :: "string \<Rightarrow> bool" where
  "no_colon s \<longleftrightarrow> CHR '':'' \<notin> set s"

lemma no_colon_split:
  "no_colon s \<Longrightarrow> no_colon s' \<Longrightarrow> s @ CHR '':'' # u = s' @ CHR '':'' # u' \<longleftrightarrow> s = s' \<and> u = u'"
proof (induction s arbitrary: s')
  case Nil
  then show ?case by (cases s') (auto simp: no_colon_def)
next
  case (Cons c s)
  then show ?case by (cases s') (auto simp: no_colon_def)
qed

lemma TenantKey_eq:
  "no_colon t \<Longrightarrow> no_colon t' \<Longrightarrow> TenantKey t r i = TenantKey t' r i' \<longleftrightarrow> t = t' \<and> i = i'"
  using no_colon_split [of t t' "r @ CHR '':'' # i" "r @ CHR '':'' # i'"]
  by (auto simp: TenantKey_def)

lemma TenantPrefix_of_key:
  assumes "no_colon t" "no_colon t'"
  shows "prefix (TenantPrefix t r) (TenantKey t' r i) \<longleftrightarrow> t = t'"
proof
  assume "prefix (TenantPrefix t r) (TenantKey t' r i)"
  then obtain u where "TenantKey t' r i = TenantKey t r u"
    by (auto simp: prefix_def TenantKey_prefix)
  then show "t = t'" using assms TenantKey_eq by blast
qed (simp add: TenantKey_prefix)

section \<open>Shards\<close>

definition fnvHash :: "string \<Rightarrow> 32 word" where
  "fnvHash s = fold (\<lambda>c h. xor (h * 16777619) (of_char c)) s 2166136261"

text \<open>\<open>int(h % uint32(shardCount))\<close>; \<open>None\<close> when \<open>uint32(shardCount)\<close> is zero and Go panics.\<close>

definition shard_of :: "string \<Rightarrow> int \<Rightarrow> int option" where
  "shard_of node shardCount =
     (let m = of_int shardCount :: 32 word in
      if m = 0 then None else Some (uint (fnvHash node mod m)))"

lemma shard_of_range:
  assumes "0 < n" "n < 2 ^ 32"
  shows "\<exists>i. shard_of node n = Some i \<and> 0 \<le> i \<and> i < n"
proof -
  have u: "uint (of_int n :: 32 word) = n"
    using assms by (simp add: uint_word_of_int_eq take_bit_int_eq_self)
  then have "(of_int n :: 32 word) \<noteq> 0" using assms by (metis less_irrefl uint_0_eq)
  moreover have "uint (fnvHash node mod of_int n) = uint (fnvHash node) mod n"
    by (simp add: uint_mod u)
  ultimately show ?thesis using assms by (simp add: shard_of_def Let_def)
qed

lemma shard_of_overflow: "shard_of node (2 ^ 32) = None"
  by (simp add: shard_of_def)

end
