(* ===== verification/Timeline.thy ===== *)
theory Timeline
  imports Prelude
begin

text \<open>
  The in-memory event log of \<open>timeline/store.go\<close>. A nil metadata map is \<open>None\<close>.
\<close>

record reconcile_event =
  ev_ReqID :: string
  ev_Stage :: string
  ev_Timestamp :: gotime
  ev_NodeID :: string
  ev_TenantID :: string
  ev_Metadata :: "(string \<rightharpoonup> string) option"

type_synonym timeline = "reconcile_event list"

definition tl_NewStore :: timeline where
  "tl_NewStore = []"

definition tl_Record :: "gotime \<Rightarrow> reconcile_event \<Rightarrow> timeline \<Rightarrow> timeline" where
  "tl_Record now e evs =
     evs @ [if ev_Timestamp e = 0 then e\<lparr>ev_Timestamp := now\<rparr> else e]"

definition tl_GetEvents :: "string \<Rightarrow> timeline \<Rightarrow> reconcile_event list" where
  "tl_GetEvents reqID evs = filter (\<lambda>e. ev_ReqID e = reqID) evs"

definition tl_GetEventsByStateID :: "string \<Rightarrow> timeline \<Rightarrow> reconcile_event list" where
  "tl_GetEventsByStateID stateID evs =
     filter (\<lambda>e. case ev_Metadata e of None \<Rightarrow> False
                 | Some m \<Rightarrow> map_read [] m ''state_id'' = stateID) evs"

definition tl_GetAllEvents :: "timeline \<Rightarrow> reconcile_event list" where
  "tl_GetAllEvents evs = evs"

lemma tl_Record_prefix: "prefix evs (tl_Record now e evs)"
  by (simp add: tl_Record_def)

lemma tl_GetEvents_Record:
  "tl_GetEvents r (tl_Record now e evs) =
   tl_GetEvents r evs @ (if ev_ReqID e = r then tl_Record now e [] else [])"
  by (auto simp: tl_GetEvents_def tl_Record_def)

end
