(* ===== verification/Scheduler.thy ===== *)
theory Scheduler
  imports TaskQueue CircuitBreaker RateLimiter StoreTypes Timeline
begin

text \<open>
  \<open>scheduler/scheduler.go\<close> with the types of \<open>scheduler/types.go\<close>: admission (\<open>Submit\<close>), rehydration,
  node health and quarantine, dispatch (\<open>processNextTask\<close>) and what a finished task gives back.

  The state is the \<open>Scheduler\<close> struct. The store's listing and the reconciler are arguments of the
  operations that use them; the token buckets are those of \<open>RateLimiter\<close> over a \<open>rate_api\<close>. Log lines are left
  out, metrics are in \<open>Telemetry\<close>. Task counts are unbounded integers here: the runs of
  \<open>SchedulerRun\<close> keep them between 0 and 100. The counter of domain failures only ever grows, so it
  is incremented at its width of 64 bits.

  Each definition is one critical section or a chain of them on a quiet scheduler. \<open>Submit\<close> is split
  at its lock boundaries (\<open>submit_snapshot\<close>, \<open>submit_checks\<close>, \<open>submit_enqueue\<close>), so that
  \<open>SchedulerRun\<close> can let other operations come in between.
\<close>

section \<open>Types\<close>

definition ModeNormal :: string where "ModeNormal = ''NORMAL''"
definition ModeDegraded :: string where "ModeDegraded = ''DEGRADED''"
definition ModeReadOnly :: string where "ModeReadOnly = ''READ_ONLY''"
definition ModeDraining :: string where "ModeDraining = ''DRAINING''"

lemmas mode_defs = ModeNormal_def ModeDegraded_def ModeReadOnly_def ModeDraining_def

definition AdmissionNormal :: int where "AdmissionNormal = 0"
definition AdmissionDrain :: int where "AdmissionDrain = 1"
definition AdmissionFreeze :: int where "AdmissionFreeze = 2"

lemmas admission_defs = AdmissionNormal_def AdmissionDrain_def AdmissionFreeze_def

definition AdmissionMode_String :: "int \<Rightarrow> string" where
  "AdmissionMode_String m =
     (if m = AdmissionNormal then ''Normal''
      else if m = AdmissionDrain then ''Drain''
      else if m = AdmissionFreeze then ''Freeze'' else ''Unknown'')"

record scheduler_config =
  MaxTaskExecutionTime :: duration
  MaxConcurrency :: int
  CircuitBreakerThreshold :: int

definition DefaultSchedulerConfig :: scheduler_config where
  "DefaultSchedulerConfig =
     \<lparr>MaxTaskExecutionTime = 5 * minute, MaxConcurrency = 10, CircuitBreakerThreshold = 1000\<rparr>"

record node_health =
  nh_NodeID :: string
  AgentReportedHealth :: f64
  ObservedFailureRate :: f64
  ExternalProbeScore :: f64
  CompositeScore :: f64
  Quarantined :: bool
  BackoffDuration :: duration
  LastSeen :: gotime
  Tier :: string

definition new_health :: "string \<Rightarrow> node_health" where
  "new_health nodeID =
     \<lparr>nh_NodeID = nodeID, AgentReportedHealth = Fin 0, ObservedFailureRate = Fin 0,
      ExternalProbeScore = Fin 0, CompositeScore = Fin 0, Quarantined = False,
      BackoffDuration = 0, LastSeen = 0, Tier = []\<rparr>"

text \<open>The decimal constants are converted to \<open>float64\<close> when the code is compiled.\<close>

definition CalculateCompositeScore :: "node_health \<Rightarrow> node_health" where
  "CalculateCompositeScore n = n\<lparr>CompositeScore :=
     f64_add (f64_add (f64_mul (round64 (2 / 10)) (AgentReportedHealth n))
                      (f64_mul (round64 (5 / 10)) (ObservedFailureRate n)))
             (f64_mul (round64 (3 / 10)) (ExternalProbeScore n))\<rparr>"

record 'l scheduler =
  queue :: tsqueue
  nodeLimiters :: "'l token_bucket_limiter"
  tenantLimiters :: "'l token_bucket_limiter"
  shardIndex :: int
  shardCount :: int
  nodeHealth :: "string \<rightharpoonup> node_health"
  domainFailures :: "string \<rightharpoonup> int"
  domainTasks :: "string \<rightharpoonup> int"
  activeTasks :: int
  events :: timeline
  s_mode :: string
  admissionMode :: int
  active :: bool
  circuitBreaker :: circuit_breaker
  config :: scheduler_config
  maxConcurrency :: int

definition NewScheduler :: "int \<Rightarrow> int \<Rightarrow> scheduler_config \<Rightarrow> 'l scheduler" where
  "NewScheduler shardIdx shardCnt cfg =
     \<lparr>queue = NewThreadSafeQueue,
      nodeLimiters = NewTokenBucketLimiter (Fin 5) 1,
      tenantLimiters = NewTokenBucketLimiter (Fin 50) 10,
      shardIndex = shardIdx,
      shardCount = (if shardCnt < 1 then 1 else shardCnt),
      nodeHealth = Map.empty, domainFailures = Map.empty, domainTasks = Map.empty,
      activeTasks = 0, events = tl_NewStore, s_mode = ModeNormal, admissionMode = AdmissionNormal,
      active = False, circuitBreaker = NewCircuitBreaker (CircuitBreakerThreshold cfg),
      config = cfg, maxConcurrency = MaxConcurrency cfg\<rparr>"

definition SetMode :: "string \<Rightarrow> 'l scheduler \<Rightarrow> 'l scheduler" where
  "SetMode mode s = s\<lparr>s_mode := mode\<rparr>"

definition SetAdmissionMode :: "int \<Rightarrow> 'l scheduler \<Rightarrow> 'l scheduler" where
  "SetAdmissionMode mode s = s\<lparr>admissionMode := mode\<rparr>"

section \<open>Submit\<close>

datatype submit_error =
    NotActive
  | FreezeRejected
  | DrainRejected
  | CircuitBreakerOpen int f64
  | ReadOnlyOrDraining
  | DegradedLowPriority
  | ErrQueueFull
  | WrongShard string int int
  | DivideByZero

text \<open>The clock readings of one call, in the order the code makes them.\<close>

record submit_clock =
  c_since :: gotime
  c_opened :: gotime
  c_submit :: gotime
  c_enqueued :: gotime
  c_less :: "nat \<Rightarrow> gotime"
  c_record :: gotime

record snapshot =
  isActive :: bool
  currentMode :: string
  currentAdmission :: int
  isCanary :: bool
  saturation :: f64

definition worker_saturation :: "'l scheduler \<Rightarrow> f64" where
  "worker_saturation s = f64_div (f64_of_int (activeTasks s)) (f64_of_int (maxConcurrency s))"

definition submit_snapshot :: "task \<Rightarrow> 'l scheduler \<Rightarrow> snapshot" where
  "submit_snapshot t s =
     \<lparr>isActive = active s, currentMode = s_mode s, currentAdmission = admissionMode s,
      isCanary = (case nodeHealth s (t_NodeID t) of None \<Rightarrow> False | Some h \<Rightarrow> Tier h = ''canary''),
      saturation = worker_saturation s\<rparr>"

definition stamped :: "submit_clock \<Rightarrow> task \<Rightarrow> task" where
  "stamped c t =
     t\<lparr>t_SubmitTime := (if t_SubmitTime t = 0 then c_submit c else t_SubmitTime t),
       t_EnqueuedAt := c_enqueued c\<rparr>"

text \<open>The circuit breaker's verdict; a canary node's tasks do not ask it.\<close>

definition breaker_check ::
  "submit_clock \<Rightarrow> snapshot \<Rightarrow> 'l scheduler \<Rightarrow> bool \<times> circuit_breaker"
where
  "breaker_check c snap s =
     (if isCanary snap then (True, circuitBreaker s)
      else ShouldAdmit (c_since c) (c_opened c) (int (q_Len (queue s))) (saturation snap)
             (circuitBreaker s))"

text \<open>The checks behind the circuit breaker: mode, queue length, shard.\<close>

definition gate_error :: "snapshot \<Rightarrow> task \<Rightarrow> 'l scheduler \<Rightarrow> submit_error option" where
  "gate_error snap t s =
     (if currentMode snap = ModeReadOnly \<or> currentMode snap = ModeDraining
      then Some ReadOnlyOrDraining
      else if currentMode snap = ModeDegraded \<and> 5 < t_Priority t then Some DegradedLowPriority
      else if 1000 < q_Len (queue s) \<and> 0 < t_Priority t then Some ErrQueueFull
      else if 1 < shardCount s then
        (case shard_of (t_NodeID t) (shardCount s) of
           None \<Rightarrow> Some DivideByZero
         | Some i \<Rightarrow>
             if i \<noteq> shardIndex s then Some (WrongShard (t_NodeID t) i (shardIndex s)) else None)
      else None)"

text \<open>Everything between the snapshot and the push. On success the task carries its time stamps.\<close>

definition submit_checks ::
  "submit_clock \<Rightarrow> snapshot \<Rightarrow> task \<Rightarrow> 'l scheduler \<Rightarrow> (submit_error + task) \<times> 'l scheduler"
where
  "submit_checks c snap t s =
     (if \<not> isActive snap then (Inl NotActive, s)
      else if currentAdmission snap = AdmissionFreeze then (Inl FreezeRejected, s)
      else if currentAdmission snap = AdmissionDrain then (Inl DrainRejected, s)
      else
        let (admit, cb) = breaker_check c snap s; s' = s\<lparr>circuitBreaker := cb\<rparr> in
        if \<not> admit
        then (Inl (CircuitBreakerOpen (int (q_Len (queue s))) (saturation snap)), s')
        else case gate_error snap t s' of
               Some e \<Rightarrow> (Inl e, s')
             | None \<Rightarrow> (Inr (stamped c t), s'))"

definition queued_event :: "task \<Rightarrow> reconcile_event" where
  "queued_event t =
     \<lparr>ev_ReqID = t_ReqID t, ev_Stage = ''QUEUED'', ev_Timestamp = 0, ev_NodeID = t_NodeID t,
      ev_TenantID = t_TenantID t, ev_Metadata = Some [''state_id'' \<mapsto> t_StateID t]\<rparr>"

definition submit_enqueue :: "submit_clock \<Rightarrow> task \<Rightarrow> 'l scheduler \<Rightarrow> 'l scheduler" where
  "submit_enqueue c t s =
     s\<lparr>queue := q_Push (c_less c) t (queue s),
       events := tl_Record (c_record c) (queued_event t) (events s)\<rparr>"

definition Submit ::
  "submit_clock \<Rightarrow> task \<Rightarrow> 'l scheduler \<Rightarrow> (submit_error + task) \<times> 'l scheduler"
where
  "Submit c t s =
     (case submit_checks c (submit_snapshot t s) t s of
        (Inl e, s') \<Rightarrow> (Inl e, s')
      | (Inr t', s') \<Rightarrow> (Inr t', submit_enqueue c t' s'))"

section \<open>Stop, rehydration, start\<close>

definition Stop :: "'l scheduler \<Rightarrow> 'l scheduler" where
  "Stop s = s\<lparr>active := False, queue := NewThreadSafeQueue\<rparr>"

definition Start :: "'l scheduler \<Rightarrow> 'l scheduler" where
  "Start s = s\<lparr>active := True\<rparr>"

definition rehydrate_task :: "gotime \<Rightarrow> desired_state \<Rightarrow> task" where
  "rehydrate_task now st =
     \<lparr>t_ReqID = ''rehydrate-'' @ ds_StateID st, t_NodeID = ds_NodeID st,
      t_TenantID = ds_TenantID st, t_Priority = 5, t_Deadline = 0, t_Attempt = 0,
      t_Cost = \<lparr>CPUSeconds = Fin 0, IOOps = 0, NetMB = Fin 0\<rparr>, t_FailureDomain = [],
      t_StateID = ds_StateID st, t_TraceContext = Map.empty, t_SubmitTime = now,
      t_EnqueuedAt = 0\<rparr>"

text \<open>One state after the other; \<open>clk k\<close> are the readings for the \<open>k\<close>-th state of the call.\<close>

fun rehydrate_states ::
  "(nat \<Rightarrow> gotime \<times> submit_clock) \<Rightarrow> nat \<Rightarrow> desired_state list \<Rightarrow> 'l scheduler \<Rightarrow> 'l scheduler"
where
  "rehydrate_states clk k [] s = s"
| "rehydrate_states clk k (st # sts) s =
     rehydrate_states clk (Suc k) sts
       (snd (Submit (snd (clk k)) (rehydrate_task (fst (clk k)) st) s))"

type_synonym list_states = "string \<Rightarrow> int \<Rightarrow> int \<Rightarrow> go_error + desired_state list"

definition RehydrateQueue ::
  "(nat \<Rightarrow> gotime \<times> submit_clock) \<Rightarrow> list_states \<Rightarrow> 'l scheduler \<Rightarrow>
   (go_error + unit) \<times> 'l scheduler"
where
  "RehydrateQueue clk ls s0 =
     (let s = s0\<lparr>active := True\<rparr> in
      case ls ''pending'' (shardIndex s) (shardCount s) of
        Inl e \<Rightarrow> (Inl (''failed to list pending states: '' @ e), s)
      | Inr sts \<Rightarrow>
          (let s' = rehydrate_states clk 0 sts s in
           case ls ''drifted'' (shardIndex s') (shardCount s') of
             Inl e \<Rightarrow> (Inl (''failed to list drifted states: '' @ e), s')
           | Inr sts' \<Rightarrow> (Inr (), rehydrate_states clk (length sts) sts' s')))"

section \<open>Node health\<close>

definition health_signal :: "string \<Rightarrow> f64 \<Rightarrow> node_health \<Rightarrow> node_health" where
  "health_signal signal score h =
     (if signal = ''agent'' then h\<lparr>AgentReportedHealth := score\<rparr>
      else if signal = ''observed'' then h\<lparr>ObservedFailureRate := score\<rparr>
      else if signal = ''external'' then h\<lparr>ExternalProbeScore := score\<rparr>
      else if signal = ''registration'' then h\<lparr>AgentReportedHealth := score\<rparr>
      else h)"

definition quarantine_rule :: "node_health \<Rightarrow> node_health" where
  "quarantine_rule h =
     (if f64_less (CompositeScore h) (round64 (4 / 10))
      then h\<lparr>Quarantined := True, BackoffDuration := 1 * minute\<rparr>
      else h\<lparr>Quarantined := False, BackoffDuration := 0\<rparr>)"

definition updated_health :: "gotime \<Rightarrow> string \<Rightarrow> f64 \<Rightarrow> string \<Rightarrow> node_health \<Rightarrow> node_health" where
  "updated_health now signal score tier h =
     (let h1 = health_signal signal score (h\<lparr>LastSeen := now\<rparr>);
          h2 = (if tier \<noteq> [] then h1\<lparr>Tier := tier\<rparr> else h1)
      in quarantine_rule (CalculateCompositeScore h2))"

definition UpdateNodeHealth ::
  "('l, 'r) rate_api \<Rightarrow> gotime \<Rightarrow> string \<Rightarrow> string \<Rightarrow> f64 \<Rightarrow> string \<Rightarrow> 'l scheduler \<Rightarrow> 'l scheduler"
where
  "UpdateNodeHealth api now nodeID signal score tier s =
     (let h = (case nodeHealth s nodeID of None \<Rightarrow> new_health nodeID | Some h \<Rightarrow> h)
      in s\<lparr>nodeHealth := (nodeHealth s)(nodeID \<mapsto> updated_health now signal score tier h),
           nodeLimiters := EnsureLimiter api nodeID (nodeLimiters s)\<rparr>)"

section \<open>Dispatch\<close>

text \<open>What \<open>processNextTask\<close> does with the task it took: the \<open>Delayed\<close> decisions hand it to
  \<open>PushDelayed\<close> with the given delay, \<open>Dispatched\<close> starts its goroutine.\<close>

datatype throttle = DomainThrottle | NodeThrottle | TenantThrottle | BudgetThrottle

datatype dispatch_decision =
    Idle
  | QuarantineDrop task
  | Delayed throttle task duration
  | Dispatched task

record dispatch_clock =
  d_less :: "nat \<Rightarrow> gotime"
  d_node :: "gotime \<times> gotime \<times> gotime"
  d_tenant :: "gotime \<times> gotime \<times> gotime"

definition domain_limit :: "'l scheduler \<Rightarrow> string \<Rightarrow> int" where
  "domain_limit s d = (if 5 < map_read 0 (domainFailures s) d then 1 else 10)"

definition quarantined :: "'l scheduler \<Rightarrow> string \<Rightarrow> bool" where
  "quarantined s node = (case nodeHealth s node of None \<Rightarrow> False | Some h \<Rightarrow> Quarantined h)"

definition start_task :: "task \<Rightarrow> 'l scheduler \<Rightarrow> 'l scheduler" where
  "start_task t s =
     (let s' = s\<lparr>activeTasks := activeTasks s + 1\<rparr> in
      if t_FailureDomain t \<noteq> []
      then s'\<lparr>domainTasks := (domainTasks s')
             (t_FailureDomain t \<mapsto> map_read 0 (domainTasks s') (t_FailureDomain t) + 1)\<rparr>
      else s')"

definition dispatch ::
  "('l, 'r) rate_api \<Rightarrow> dispatch_clock \<Rightarrow> task \<Rightarrow> 'l scheduler \<Rightarrow> dispatch_decision \<times> 'l scheduler"
where
  "dispatch api c t s =
     (if quarantined s (t_NodeID t) then (QuarantineDrop t, s)
      else if t_FailureDomain t \<noteq> [] \<and>
              map_read 0 (domainTasks s) (t_FailureDomain t) \<ge> domain_limit s (t_FailureDomain t)
      then (Delayed DomainThrottle t (2 * second), s)
      else
        let ((allowed, delay), nl) = tb_Reserve api (d_node c) (t_NodeID t) (nodeLimiters s);
            s1 = s\<lparr>nodeLimiters := nl\<rparr>
        in if \<not> allowed then (Delayed NodeThrottle t delay, s1)
           else
             let ((allowed', delay'), tl) =
                   tb_Reserve api (d_tenant c) (t_TenantID t) (tenantLimiters s1);
                 s2 = s1\<lparr>tenantLimiters := tl\<rparr>
             in if \<not> allowed' then (Delayed TenantThrottle t delay', s2)
                else if 100 \<le> activeTasks s2 then (Delayed BudgetThrottle t (1 * second), s2)
                else (Dispatched t, start_task t s2))"

definition processNextTask ::
  "('l, 'r) rate_api \<Rightarrow> dispatch_clock \<Rightarrow> 'l scheduler \<Rightarrow> dispatch_decision \<times> 'l scheduler"
where
  "processNextTask api c s =
     (if q_Len (queue s) = 0 then (Idle, s)
      else case q_Pop (d_less c) (queue s) of
             (None, q) \<Rightarrow> (Idle, s\<lparr>queue := q\<rparr>)
           | (Some t, q) \<Rightarrow> dispatch api c t (s\<lparr>queue := q\<rparr>))"

text \<open>
  How the goroutine of a task ended: skipped because its context was already cancelled, with the
  reconciler's result, or with a panic of the reconciler. Only in the second case is an event
  recorded; a panic leaves \<open>err\<close> nil. The metadata map of the event is the one that receives
  \<open>attempt_number\<close> after \<open>Record\<close>, so the recorded event has it as well.
\<close>

datatype task_end = Skipped | Returned "go_error option" | Panicked

fun end_failed :: "task_end \<Rightarrow> bool" where
  "end_failed Skipped = True"
| "end_failed (Returned err) = (err \<noteq> None)"
| "end_failed Panicked = False"

definition finished_event :: "task \<Rightarrow> go_error option \<Rightarrow> reconcile_event" where
  "finished_event t err =
     \<lparr>ev_ReqID = t_ReqID t,
      ev_Stage = (case err of None \<Rightarrow> ''FINISHED'' | Some _ \<Rightarrow> ''FAILED''),
      ev_Timestamp = 0, ev_NodeID = t_NodeID t, ev_TenantID = t_TenantID t,
      ev_Metadata = Some ((case err of None \<Rightarrow> Map.empty | Some e \<Rightarrow> [''error'' \<mapsto> e])
                          (''attempt_number'' \<mapsto> itoa (t_Attempt t)))\<rparr>"

definition release_task :: "task \<Rightarrow> bool \<Rightarrow> 'l scheduler \<Rightarrow> 'l scheduler" where
  "release_task t failed s =
     (let s' = s\<lparr>activeTasks := activeTasks s - 1\<rparr>; d = t_FailureDomain t in
      if d \<noteq> [] then
        let s'' = s'\<lparr>domainTasks := (domainTasks s')(d \<mapsto> map_read 0 (domainTasks s') d - 1)\<rparr>
        in if failed
           then s''\<lparr>domainFailures := (domainFailures s'')
                  (d \<mapsto> wrap64 (map_read 0 (domainFailures s'') d + 1))\<rparr>
           else s''
      else s')"

definition finish_task ::
  "gotime \<Rightarrow> task \<Rightarrow> task_end \<Rightarrow> 'l scheduler \<Rightarrow> 'l scheduler"
where
  "finish_task now t r s =
     release_task t (end_failed r)
       (case r of
          Returned err \<Rightarrow> s\<lparr>events := tl_Record now (finished_event t err) (events s)\<rparr>
        | _ \<Rightarrow> s)"

section \<open>Views\<close>

record scheduler_metrics =
  QueueDepth :: int
  ActiveTasks :: int
  m_MaxConcurrency :: int
  WorkerSaturation :: f64
  CircuitBreakerState :: string
  m_AdmissionMode :: string
  RuntimeMode :: string

definition GetMetrics :: "'l scheduler \<Rightarrow> scheduler_metrics" where
  "GetMetrics s =
     \<lparr>QueueDepth = int (q_Len (queue s)), ActiveTasks = activeTasks s,
      m_MaxConcurrency = maxConcurrency s, WorkerSaturation = worker_saturation s,
      CircuitBreakerState = CircuitState_String (cb_GetState (circuitBreaker s)),
      m_AdmissionMode = AdmissionMode_String (admissionMode s), RuntimeMode = s_mode s\<rparr>"

record scheduler_snapshot =
  queue_depth :: int
  domain_failures :: "string \<rightharpoonup> int"
  domain_active :: "string \<rightharpoonup> int"
  timeline_events :: "reconcile_event list"
  snap_mode :: string

definition GetSnapshot :: "'l scheduler \<Rightarrow> scheduler_snapshot" where
  "GetSnapshot s =
     \<lparr>queue_depth = int (q_Len (queue s)), domain_failures = domainFailures s,
      domain_active = domainTasks s, timeline_events = tl_GetAllEvents (events s),
      snap_mode = s_mode s\<rparr>"

end
