(* ===== verification/Admission.thy ===== *)
theory Admission
  imports Scheduler
begin

text \<open>
  What \<open>Submit\<close> promises: which tasks it lets in, what it changes when it does and when it does not,
  the bound on the queue, and how a node's tasks are divided among the shards.
\<close>

section \<open>Submit as a function of its guards\<close>

definition breaker_admits :: "submit_clock \<Rightarrow> task \<Rightarrow> 'l scheduler \<Rightarrow> bool" where
  "breaker_admits c t s \<longleftrightarrow>
     isCanary (submit_snapshot t s) \<or>
     fst (ShouldAdmit (c_since c) (c_opened c) (int (q_Len (queue s))) (worker_saturation s)
       (circuitBreaker s))"

definition my_shard :: "task \<Rightarrow> 'l scheduler \<Rightarrow> bool" where
  "my_shard t s \<longleftrightarrow> shardCount s \<le> 1 \<or> shard_of (t_NodeID t) (shardCount s) = Some (shardIndex s)"

definition accepts :: "submit_clock \<Rightarrow> task \<Rightarrow> 'l scheduler \<Rightarrow> bool" where
  "accepts c t s \<longleftrightarrow> (\<exists>t'. fst (Submit c t s) = Inr t')"

lemma gate_error_breaker [simp]: "gate_error snap t (s\<lparr>circuitBreaker := cb\<rparr>) = gate_error snap t s"
  by (cases "shard_of (t_NodeID t) (shardCount s)") (simp_all add: gate_error_def)

lemma submit_checks_Inr:
  "submit_checks c snap t s = (Inr t', s') \<Longrightarrow>
   t' = stamped c t \<and> (\<exists>cb. s' = s\<lparr>circuitBreaker := cb\<rparr>)"
  by (auto simp: submit_checks_def Let_def split: if_splits option.splits prod.splits)

lemma submit_checks_state: "\<exists>cb. snd (submit_checks c snap t s) = s\<lparr>circuitBreaker := cb\<rparr>"
proof -
  have "s = s\<lparr>circuitBreaker := circuitBreaker s\<rparr>" by simp
  then have id: "\<exists>cb. s = s\<lparr>circuitBreaker := cb\<rparr>" ..
  show ?thesis
  proof (cases "breaker_check c snap s")
    case (Pair a cb)
    then show ?thesis
      using id by (cases "gate_error snap t (s\<lparr>circuitBreaker := cb\<rparr>)") (auto simp: submit_checks_def Let_def)
  qed
qed

lemma gate_error_None:
  "gate_error snap t s = None \<longleftrightarrow>
   currentMode snap \<noteq> ModeReadOnly \<and> currentMode snap \<noteq> ModeDraining \<and>
   \<not> (currentMode snap = ModeDegraded \<and> 5 < t_Priority t) \<and>
   \<not> (1000 < q_Len (queue s) \<and> 0 < t_Priority t) \<and> my_shard t s"
  unfolding gate_error_def my_shard_def by (cases "shard_of (t_NodeID t) (shardCount s)") auto

lemma submit_checks_accepts:
  "(\<exists>t' s'. submit_checks c snap t s = (Inr t', s')) \<longleftrightarrow>
   isActive snap \<and> currentAdmission snap \<noteq> AdmissionFreeze \<and> currentAdmission snap \<noteq> AdmissionDrain \<and>
   fst (breaker_check c snap s) \<and> gate_error snap t s = None"
  by (cases "breaker_check c snap s"; cases "gate_error snap t s") (simp_all add: submit_checks_def Let_def)

lemma Submit_cases:
  obtains (rejected) e s' cb where "Submit c t s = (Inl e, s')" "s' = s\<lparr>circuitBreaker := cb\<rparr>"
      "submit_checks c (submit_snapshot t s) t s = (Inl e, s')"
  | (accepted) s' cb where
      "Submit c t s = (Inr (stamped c t), submit_enqueue c (stamped c t) s')"
      "s' = s\<lparr>circuitBreaker := cb\<rparr>"
      "submit_checks c (submit_snapshot t s) t s = (Inr (stamped c t), s')"
proof (cases "submit_checks c (submit_snapshot t s) t s")
  case (Pair r s')
  obtain cb where cb: "s' = s\<lparr>circuitBreaker := cb\<rparr>"
    using submit_checks_state [of c "submit_snapshot t s" t s] Pair by auto
  show ?thesis
  proof (cases r)
    case (Inl e)
    show ?thesis by (rule rejected [OF _ cb]) (simp_all only: Submit_def Pair Inl prod.case sum.case)
  next
    case (Inr t')
    then have t': "t' = stamped c t" using submit_checks_Inr Pair by blast
    show ?thesis
      by (rule accepted [OF _ cb]) (simp_all only: Submit_def Pair Inr t' prod.case sum.case)
  qed
qed

lemma submit_accepts:
  "accepts c t s \<longleftrightarrow>
     active s \<and> admissionMode s \<noteq> AdmissionFreeze \<and> admissionMode s \<noteq> AdmissionDrain \<and>
     breaker_admits c t s \<and> s_mode s \<notin> {ModeReadOnly, ModeDraining} \<and>
     \<not> (s_mode s = ModeDegraded \<and> 5 < t_Priority t) \<and>
     \<not> (1000 < q_Len (queue s) \<and> 0 < t_Priority t) \<and> my_shard t s"
proof -
  have "accepts c t s \<longleftrightarrow> (\<exists>t' s'. submit_checks c (submit_snapshot t s) t s = (Inr t', s'))"
    by (cases c t s rule: Submit_cases) (auto simp: accepts_def)
  also note submit_checks_accepts
  finally show ?thesis
    by (simp add: gate_error_None submit_snapshot_def breaker_admits_def breaker_check_def)
qed

text \<open>
  C5. The admission policy: \<open>Submit\<close> accepts exactly the tasks that pass every gate, whatever their
  order. The scheduler is active and its kill switch normal; the node is a canary or the circuit
  breaker admits; the mode is neither read-only nor draining, and a degraded scheduler takes
  priorities up to 5 only; at more than 1000 queued tasks only priority 0 (or less) enters; and the
  node belongs to this shard.
\<close>

theorem submit_accepts_iff:
  "accepts c t s \<longleftrightarrow>
     active s \<and> admissionMode s \<noteq> AdmissionFreeze \<and> admissionMode s \<noteq> AdmissionDrain \<and>
     breaker_admits c t s \<and> s_mode s \<notin> {ModeReadOnly, ModeDraining} \<and>
     \<not> (s_mode s = ModeDegraded \<and> 5 < t_Priority t) \<and>
     \<not> (1000 < q_Len (queue s) \<and> 0 < t_Priority t) \<and> my_shard t s"
  by (rule submit_accepts)

text \<open>
  The effect of \<open>Submit\<close>: a rejected task leaves queue and timeline as they were; an accepted
  one is in the queue exactly once more, carrying its time stamps, with one \<open>QUEUED\<close> event behind
  the earlier events; and nothing else changes but the circuit breaker.
\<close>

theorem submit_effect:
  "case Submit c t s of
     (Inl e, s') \<Rightarrow> s' = s\<lparr>circuitBreaker := circuitBreaker s'\<rparr>
   | (Inr t', s') \<Rightarrow>
       t' = stamped c t \<and>
       q_items (queue s') = add_mset t' (q_items (queue s)) \<and>
       events s' = events s @ [(queued_event t')\<lparr>ev_Timestamp := c_record c\<rparr>] \<and>
       s' = s\<lparr>circuitBreaker := circuitBreaker s', queue := queue s', events := events s'\<rparr>"
  by (cases c t s rule: Submit_cases)
    (simp_all add: submit_enqueue_def tl_Record_def queued_event_def)

section \<open>Sequences of submissions\<close>

fun submits :: "(submit_clock \<times> task) list \<Rightarrow> 'l scheduler \<Rightarrow> 'l scheduler" where
  "submits [] s = s"
| "submits ((c, t) # cts) s = submits cts (snd (Submit c t s))"

definition gates_closed :: "'l scheduler \<Rightarrow> bool" where
  "gates_closed s \<longleftrightarrow> \<not> active s \<or> admissionMode s \<in> {AdmissionFreeze, AdmissionDrain} \<or>
     s_mode s \<in> {ModeReadOnly, ModeDraining}"

lemma Submit_frame:
  "active (snd (Submit c t s)) = active s" "admissionMode (snd (Submit c t s)) = admissionMode s"
  "s_mode (snd (Submit c t s)) = s_mode s" "shardIndex (snd (Submit c t s)) = shardIndex s"
  "shardCount (snd (Submit c t s)) = shardCount s" "nodeHealth (snd (Submit c t s)) = nodeHealth s"
  by (cases c t s rule: Submit_cases; simp add: submit_enqueue_def)+

lemma Submit_rejected: "\<not> accepts c t s \<Longrightarrow> queue (snd (Submit c t s)) = queue s"
  by (cases c t s rule: Submit_cases) (auto simp: accepts_def)

lemma Submit_length:
  "q_Len (queue (snd (Submit c t s))) = q_Len (queue s) + (if accepts c t s then 1 else 0)"
  by (cases c t s rule: Submit_cases) (auto simp: accepts_def q_Len_items submit_enqueue_def)

text \<open>
  The kill switch and the maintenance modes are absolute: while the scheduler is inactive,
  frozen, draining (by admission or by mode) or read-only, no sequence of submissions, canaries and
  critical tasks included, changes the queue.
\<close>

theorem closed_gates_hold:
  "gates_closed s \<Longrightarrow> queue (submits cts s) = queue s"
proof (induction cts s rule: submits.induct)
  case (2 c t cts s)
  have "\<not> accepts c t s" using 2(2) unfolding submit_accepts gates_closed_def by auto
  moreover have "gates_closed (snd (Submit c t s))"
    using 2(2) by (simp add: gates_closed_def Submit_frame)
  ultimately show ?case using 2(1) by (simp add: Submit_rejected)
qed simp

text \<open>
  Non-critical load cannot grow the queue past 1001 tasks: however many tasks of priority 1 and
  above are submitted, whatever the circuit breaker's threshold and the clock, the queue ends at most
  at 1001 (or where it already was, if critical tasks had filled it further).
\<close>

theorem queue_bounded:
  "list_all (\<lambda>(c, t). 0 < t_Priority t) cts \<Longrightarrow>
   q_Len (queue (submits cts s)) \<le> max 1001 (q_Len (queue s))"
proof (induction cts s rule: submits.induct)
  case (2 c t cts s)
  have "q_Len (queue (snd (Submit c t s))) \<le> max 1001 (q_Len (queue s))"
  proof (cases "accepts c t s")
    case True
    then have "q_Len (queue s) \<le> 1000" using 2(2) by (simp add: submit_accepts)
    then show ?thesis by (simp add: Submit_length)
  qed (simp add: Submit_length)
  then show ?case using 2 by simp
qed simp

text \<open>
  Shards partition the nodes: of \<open>n\<close> schedulers that agree on everything but their index, a task
  that passes the other gates is accepted by exactly one, and the index of that one is a valid one.
\<close>

theorem shards_partition_nodes:
  assumes "1 < n" "n < 2 ^ 32" "accepts c t (s\<lparr>shardCount := 1\<rparr>)"
  shows "\<exists>i. 0 \<le> i \<and> i < n \<and> (\<forall>j. accepts c t (s\<lparr>shardIndex := j, shardCount := n\<rparr>) \<longleftrightarrow> j = i)"
proof -
  obtain i where i: "shard_of (t_NodeID t) n = Some i" "0 \<le> i" "i < n"
    using shard_of_range [of n "t_NodeID t"] assms by auto
  have "accepts c t (s\<lparr>shardIndex := j, shardCount := n\<rparr>) \<longleftrightarrow> j = i" for j
    using assms(1,3) i(1)
    by (auto simp: submit_accepts breaker_admits_def my_shard_def submit_snapshot_def
        worker_saturation_def)
  then show ?thesis using i by blast
qed

section \<open>Witnesses\<close>

definition submit_at :: "gotime \<Rightarrow> submit_clock" where
  "submit_at now = \<lparr>c_since = now, c_opened = now, c_submit = now, c_enqueued = now,
     c_less = (\<lambda>_. now), c_record = now\<rparr>"

definition started :: "int \<Rightarrow> int \<Rightarrow> unit scheduler" where
  "started i n = Start (NewScheduler i n DefaultSchedulerConfig)"

lemma saturation_limit_ge: "\<not> f64_less (round64 (95 / 100)) (Fin 0)"
  using saturation_limit_pos by (cases "round64 (95 / 100)") auto

lemma started_accepts: "accepts (submit_at now) t ((started i n)\<lparr>shardCount := 1\<rparr>)"
  using saturation_limit_ge
  by (simp add: submit_accepts breaker_admits_def my_shard_def started_def Start_def NewScheduler_def
      admission_defs mode_defs submit_snapshot_def ShouldAdmit_def cb_cool_def NewCircuitBreaker_def
      q_Len_def NewThreadSafeQueue_def worker_saturation_def DefaultSchedulerConfig_def round64_0 Let_def)

theorem closed_gates_hold_witness:
  "queue (submits [(submit_at 1, zero_task)] (SetAdmissionMode AdmissionFreeze (started 0 1))) =
   NewThreadSafeQueue"
  using closed_gates_hold [of "SetAdmissionMode AdmissionFreeze (started 0 1)"
      "[(submit_at 1, zero_task)]"]
  by (simp add: gates_closed_def SetAdmissionMode_def started_def Start_def NewScheduler_def)

theorem queue_bounded_witness:
  "q_Len (queue (submits (replicate 5000 (submit_at 1, zero_task\<lparr>t_Priority := 3\<rparr>)) (started 0 1))) \<le> 1001"
  using queue_bounded [of "replicate 5000 (submit_at 1, zero_task\<lparr>t_Priority := 3\<rparr>)" "started 0 1"]
  by (simp add: started_def Start_def NewScheduler_def q_Len_def NewThreadSafeQueue_def list_all_iff)

theorem shards_partition_nodes_witness:
  "\<exists>i. 0 \<le> i \<and> i < 3 \<and>
     (\<forall>j. accepts (submit_at 1) older_task ((started 0 3)\<lparr>shardIndex := j, shardCount := 3\<rparr>) \<longleftrightarrow> j = i)"
  by (rule shards_partition_nodes) (simp_all add: started_accepts)

end
