(* ===== verification/Quarantine.thy ===== *)
theory Quarantine
  imports Scheduler
begin

text \<open>
  What the composite health score of \<open>scheduler/types.go\<close> makes of the signals a node's health can get,
  and what the scheduler then does with the node's tasks.
\<close>

section \<open>Bounds on computed scores\<close>

text \<open>\<open>x\<close> is a number (possibly an infinity) not above, or not below, \<open>q\<close>.\<close>

definition f64_at_most :: "real \<Rightarrow> f64 \<Rightarrow> bool" where
  "f64_at_most q x \<longleftrightarrow> (case x of Fin r \<Rightarrow> r \<le> q | NegInf \<Rightarrow> True | _ \<Rightarrow> False)"

definition f64_at_least :: "real \<Rightarrow> f64 \<Rightarrow> bool" where
  "f64_at_least q x \<longleftrightarrow> (case x of Fin r \<Rightarrow> q \<le> r | PosInf \<Rightarrow> True | _ \<Rightarrow> False)"

definition exact_unit :: "real \<Rightarrow> bool" where
  "exact_unit q \<longleftrightarrow> rnd q = q \<and> \<bar>q\<bar> \<le> 1"

lemma exact_unit_dyadic:
  "exact_unit 0" "exact_unit (1 / 2)" "exact_unit (1 / 4)" "exact_unit (3 / 8)"
  using rnd_dyadic [of "1 / 2" 1 1] rnd_dyadic [of "1 / 4" 1 2] rnd_dyadic [of "3 / 8" 3 3]
  by (simp_all add: exact_unit_def)

lemma unit_small: "\<bar>q\<bar> \<le> 1 \<Longrightarrow> q < (2::real) ^ 1024"
proof -
  assume "\<bar>q\<bar> \<le> 1"
  moreover have "(1::real) < 2 ^ 1024" by (rule one_less_power) simp_all
  ultimately show ?thesis by linarith
qed

lemma round64_at_most: "exact_unit q \<Longrightarrow> x \<le> q \<Longrightarrow> f64_at_most q (round64 x)"
  using rnd_mono [of x q] unit_small [of q]
  by (auto simp: exact_unit_def round64_def Let_def f64_at_most_def)

lemma round64_at_least: "exact_unit q \<Longrightarrow> q \<le> x \<Longrightarrow> f64_at_least q (round64 x)"
  using rnd_mono [of q x] unit_small [of "- q"]
  by (auto simp: exact_unit_def round64_def Let_def f64_at_least_def)

lemma add_0_at_most: "exact_unit q \<Longrightarrow> f64_at_most q x \<Longrightarrow> f64_at_most q (f64_add x (Fin 0))"
  using round64_at_most by (cases x) (auto simp: f64_at_most_def)

lemma add_at_least:
  assumes "exact_unit q" "f64_at_least a x" "f64_at_least b y" "q \<le> a + b"
  shows "f64_at_least q (f64_add x y)"
  using assms round64_at_least by (cases x; cases y) (auto simp: f64_at_least_def)

lemma f64_less_bounds:
  "f64_at_most p x \<Longrightarrow> f64_at_least q y \<Longrightarrow> p < q \<Longrightarrow> f64_less x y"
  "f64_at_least q x \<Longrightarrow> f64_at_most p y \<Longrightarrow> p \<le> q \<Longrightarrow> \<not> f64_less x y"
  by (cases x; cases y; auto simp: f64_at_most_def f64_at_least_def)+

lemma quarantine_threshold: "f64_at_least (3 / 8) (round64 (4 / 10))" "f64_at_most (1 / 2) (round64 (4 / 10))"
  by (rule round64_at_least round64_at_most, simp_all add: exact_unit_dyadic)+

lemma agent_weight: "\<exists>w. round64 (2 / 10) = Fin w \<and> 0 < w \<and> w \<le> 1 / 4"
  using rnd_mono [of "1 / 8" "2 / 10"] rnd_dyadic [of "1 / 8" 1 3] rnd_mono [of "2 / 10" "1 / 4"] exact_unit_dyadic(3)
  by (intro exI [of _ "rnd (2 / 10)"]) (simp add: round64_small exact_unit_def)

lemma weights: "\<exists>w. round64 (3 / 10) = Fin w \<and> 0 < w" "round64 (5 / 10) = Fin (1 / 2)"
  using rnd_mono [of "1 / 4" "3 / 10"] exact_unit_dyadic(2,3)
  by (auto simp: round64_small exact_unit_def intro!: exI [of _ "rnd (3 / 10)"])

section \<open>A node that only reports on itself stays quarantined\<close>

definition self_only :: "node_health \<Rightarrow> bool" where
  "self_only h \<longleftrightarrow> ObservedFailureRate h = Fin 0 \<and> ExternalProbeScore h = Fin 0"

lemma composite_self_only:
  assumes "self_only h" "f64_at_most 1 (AgentReportedHealth h)"
  shows "f64_at_most (1 / 4) (CompositeScore (CalculateCompositeScore h))"
proof -
  obtain w where w: "round64 (2 / 10) = Fin w" "0 < w" "w \<le> 1 / 4" using agent_weight by auto
  obtain v where v: "round64 (3 / 10) = Fin v" using weights by auto
  have "f64_at_most (1 / 4) (f64_mul (Fin w) (AgentReportedHealth h))"
  proof (cases "AgentReportedHealth h")
    case (Fin r)
    then have "w * r \<le> w * 1"
      using assms(2) w by (intro mult_left_mono) (simp_all add: f64_at_most_def)
    then have "w * r \<le> 1 / 4" using w by linarith
    then show ?thesis using Fin round64_at_most [OF exact_unit_dyadic(3)] by simp
  next
    case NegInf
    then show ?thesis using w by (simp add: f64_at_most_def inf_sign_def)
  qed (use assms(2) in \<open>simp_all add: f64_at_most_def\<close>)
  then have "f64_at_most (1 / 4) (f64_add (f64_add (f64_mul (Fin w) (AgentReportedHealth h)) (Fin 0)) (Fin 0))"
    by (intro add_0_at_most exact_unit_dyadic)
  then show ?thesis
    using assms(1) unfolding CalculateCompositeScore_def self_only_def w(1) v weights(2) by simp
qed

text \<open>A sequence of signals for one node: the reading, the signal, the score and the tier of each.\<close>

type_synonym health_report = "gotime \<times> string \<times> f64 \<times> string"

fun report_health ::
  "('l, 'r) rate_api \<Rightarrow> string \<Rightarrow> health_report list \<Rightarrow> 'l scheduler \<Rightarrow> 'l scheduler" where
  "report_health api node [] s = s"
| "report_health api node ((now, signal, score, tier) # rs) s =
     report_health api node rs (UpdateNodeHealth api now node signal score tier s)"

definition self_report :: "health_report \<Rightarrow> bool" where
  "self_report r = (case r of (now, signal, score, tier) \<Rightarrow>
     signal \<noteq> ''observed'' \<and> signal \<noteq> ''external'' \<and> f64_at_most 1 score)"

definition stuck :: "node_health \<Rightarrow> bool" where
  "stuck h \<longleftrightarrow> self_only h \<and> f64_at_most 1 (AgentReportedHealth h)"

lemma stuck_updated:
  assumes "stuck h" "self_report (now, signal, score, tier)"
  shows "stuck (updated_health now signal score tier h) \<and>
         Quarantined (updated_health now signal score tier h)"
proof -
  define h2 where "h2 = (let h1 = health_signal signal score (h\<lparr>LastSeen := now\<rparr>)
                         in if tier \<noteq> [] then h1\<lparr>Tier := tier\<rparr> else h1)"
  have h2: "stuck h2"
    using assms by (simp add: h2_def Let_def stuck_def self_only_def self_report_def health_signal_def)
  then have "f64_less (CompositeScore (CalculateCompositeScore h2)) (round64 (4 / 10))"
    using composite_self_only quarantine_threshold(1)
    by (intro f64_less_bounds(1) [where p = "1 / 4" and q = "3 / 8"]) (auto simp: stuck_def)
  moreover have "updated_health now signal score tier h = quarantine_rule (CalculateCompositeScore h2)"
    by (simp add: updated_health_def h2_def Let_def)
  ultimately show ?thesis
    using h2 by (simp add: quarantine_rule_def stuck_def self_only_def CalculateCompositeScore_def)
qed

lemma stuck_new: "stuck (new_health node)"
  by (simp add: stuck_def self_only_def new_health_def f64_at_most_def)

lemma report_health_stuck:
  assumes "list_all self_report rs" "rs \<noteq> []"
    and "case nodeHealth s node of None \<Rightarrow> True | Some h \<Rightarrow> stuck h"
  shows "\<exists>h. nodeHealth (report_health api node rs s) node = Some h \<and> stuck h \<and> Quarantined h"
  using assms
proof (induction rs arbitrary: s)
  case (Cons r rs)
  obtain now signal score tier where r: "r = (now, signal, score, tier)" by (cases r)
  define s' where "s' = UpdateNodeHealth api now node signal score tier s"
  obtain h where h: "nodeHealth s' node = Some h" "stuck h" "Quarantined h"
    using Cons.prems stuck_updated [of _ now signal score tier] stuck_new
    by (auto simp: s'_def UpdateNodeHealth_def Let_def r split: option.splits)
  then show ?case using Cons.IH [of s'] Cons.prems(1) by (cases "rs = []") (auto simp: r s'_def)
qed simp

text \<open>
  A healthy node that registers and then only reports on itself is never served. Registration
  sends the score 1.0 (\<open>api.go\<close>), an agent can send at most 1.0, and the weight of both is 0.2, below
  the quarantine threshold of 0.4: after any number of such reports the node is quarantined, and every
  task for it that leaves the queue is dropped.
\<close>

theorem self_reports_keep_quarantine:
  assumes "nodeHealth s node = None" "list_all self_report rs" "rs \<noteq> []" "t_NodeID t = node"
  shows "quarantined (report_health api node rs s) node \<and>
         dispatch api c t (report_health api node rs s) = (QuarantineDrop t, report_health api node rs s)"
  using report_health_stuck [of rs s node api] assms by (auto simp: quarantined_def dispatch_def)

text \<open>
  The observed failure rate counts in favour of a node: a report that all its tasks fail
  (signal \<open>observed\<close>, score 1.0) lifts the quarantine of any node whose other two scores are not
  negative.
\<close>

theorem total_failure_lifts_quarantine:
  assumes "f64_at_least 0 (AgentReportedHealth h)" "f64_at_least 0 (ExternalProbeScore h)"
    and "nodeHealth s node = Some h"
  shows "\<not> quarantined (UpdateNodeHealth api now node ''observed'' (Fin 1) tier s) node"
proof -
  obtain w where w: "round64 (2 / 10) = Fin w" "0 < w" using agent_weight by auto
  obtain v where v: "round64 (3 / 10) = Fin v" "0 < v" using weights by auto
  have pos: "f64_at_least 0 (f64_mul (Fin u) x)" if "0 < u" "f64_at_least 0 x" for u x
    using that round64_at_least [OF exact_unit_dyadic(1)]
    by (cases x) (auto simp: f64_at_least_def inf_sign_def)
  have "f64_at_least (1 / 2) (f64_mul (Fin (1 / 2)) (Fin 1))"
    using round64_at_least [OF exact_unit_dyadic(2)] by simp
  then have "f64_at_least (1 / 2) (f64_add (f64_mul (Fin w) (AgentReportedHealth h)) (f64_mul (Fin (1 / 2)) (Fin 1)))"
    by (rule add_at_least [OF exact_unit_dyadic(2) pos [OF w(2) assms(1)]]) simp
  then have "f64_at_least (1 / 2) (f64_add (f64_add (f64_mul (Fin w) (AgentReportedHealth h))
      (f64_mul (Fin (1 / 2)) (Fin 1))) (f64_mul (Fin v) (ExternalProbeScore h)))"
    by (rule add_at_least [OF exact_unit_dyadic(2) _ pos [OF v(2) assms(2)]]) simp
  then have "f64_at_least (1 / 2) (CompositeScore (CalculateCompositeScore (h\<lparr>ObservedFailureRate := Fin 1\<rparr>)))"
    unfolding CalculateCompositeScore_def w(1) v(1) weights(2) by simp
  then have "\<not> f64_less (CompositeScore (CalculateCompositeScore (h\<lparr>ObservedFailureRate := Fin 1\<rparr>)))
      (round64 (4 / 10))"
    by (rule f64_less_bounds(2) [OF _ quarantine_threshold(2)]) simp
  then show ?thesis
    using assms(3) by (simp add: quarantined_def UpdateNodeHealth_def Let_def updated_health_def
        health_signal_def quarantine_rule_def CalculateCompositeScore_def)
qed

section \<open>Witnesses\<close>

text \<open>A token bucket library that always grants, over buckets without state.\<close>

definition open_api :: "(unit, unit) rate_api" where
  "open_api = \<lparr>NewLimiter = (\<lambda>_ _. ()), Limiter_Allow = (\<lambda>_ l. (True, l)),
     Limiter_Reserve = (\<lambda>_ l. ((), l)), Reservation_Delay = (\<lambda>_ _. 0),
     Reservation_Cancel = (\<lambda>_ _ l. l)\<rparr>"

definition one_clock :: dispatch_clock where
  "one_clock = \<lparr>d_less = (\<lambda>_. 1), d_node = (1, 1, 1), d_tenant = (1, 1, 1)\<rparr>"

definition idle_scheduler :: "unit scheduler" where
  "idle_scheduler = NewScheduler 0 1 DefaultSchedulerConfig"

theorem self_reports_keep_quarantine_witness:
  "fst (dispatch open_api one_clock (zero_task\<lparr>t_NodeID := ''n1''\<rparr>)
     (report_health open_api ''n1'' [(5, ''registration'', Fin 1, ''standard''), (9, ''agent'', Fin 1, [])]
        idle_scheduler)) = QuarantineDrop (zero_task\<lparr>t_NodeID := ''n1''\<rparr>)"
  using self_reports_keep_quarantine [of idle_scheduler "''n1''"
      "[(5, ''registration'', Fin 1, ''standard''), (9, ''agent'', Fin 1, [])]"
      "zero_task\<lparr>t_NodeID := ''n1''\<rparr>" open_api one_clock]
  by (simp add: idle_scheduler_def NewScheduler_def self_report_def f64_at_most_def zero_task_def)

theorem total_failure_lifts_quarantine_witness:
  "\<not> quarantined (UpdateNodeHealth open_api 9 ''n1'' ''observed'' (Fin 1) []
     (idle_scheduler\<lparr>nodeHealth := [''n1'' \<mapsto> new_health ''n1'']\<rparr>)) ''n1''"
  by (rule total_failure_lifts_quarantine [where h = "new_health ''n1''"])
    (simp_all add: new_health_def f64_at_least_def)

end
