(* ===== verification/SchedulerRun.thy ===== *)
theory SchedulerRun
  imports Admission Quarantine
begin

text \<open>
  The scheduler at run time: API goroutines inside \<open>Submit\<close>, the worker, the goroutines of running
  tasks, the timers of \<open>PushDelayed\<close>, elections and \<open>Stop\<close>. A step is one locked section (or one
  \<open>processNextTask\<close> of the single worker); the relation allows every interleaving of them, every
  clock, every answer of the token buckets and every result of a reconciliation.

  \<open>Stop\<close> replaces the queue object, and a timer keeps the object it was made for. Queue objects are
  numbered by \<open>generation\<close>; a timer of an earlier generation pushes to an object nobody reads any
  more. \<open>accepted\<close>, \<open>finished\<close>, \<open>dropped\<close> and \<open>flushed\<close> are not state of the program: they record
  what became of each task \<open>Submit\<close> let in. \<open>RehydrateQueue\<close> is \<open>Activate\<close> followed by submissions.
\<close>

record 'l sys =
  sched :: "'l scheduler"
  generation :: nat
  submitting :: "(submit_clock \<times> task) multiset"
  timers :: "(nat \<times> task) multiset"
  running :: "task multiset"
  accepted :: "task multiset"
  finished :: "task multiset"
  dropped :: "task multiset"
  flushed :: "task multiset"

definition init_sys :: "int \<Rightarrow> int \<Rightarrow> scheduler_config \<Rightarrow> 'l sys" where
  "init_sys i n cfg =
     \<lparr>sched = NewScheduler i n cfg, generation = 0, submitting = {#}, timers = {#}, running = {#},
      accepted = {#}, finished = {#}, dropped = {#}, flushed = {#}\<rparr>"

definition carry_out :: "dispatch_decision \<Rightarrow> 'l sys \<Rightarrow> 'l sys" where
  "carry_out d y =
     (case d of
        Idle \<Rightarrow> y
      | QuarantineDrop t \<Rightarrow> y\<lparr>dropped := add_mset t (dropped y)\<rparr>
      | Delayed _ t _ \<Rightarrow> y\<lparr>timers := add_mset (generation y, t) (timers y)\<rparr>
      | Dispatched t \<Rightarrow> y\<lparr>running := add_mset t (running y)\<rparr>)"

definition stop_sys :: "'l sys \<Rightarrow> 'l sys" where
  "stop_sys y = y\<lparr>sched := Stop (sched y), generation := Suc (generation y),
     flushed := flushed y + q_items (queue (sched y))\<rparr>"

definition timer_fires :: "(nat \<Rightarrow> gotime) \<Rightarrow> nat \<Rightarrow> task \<Rightarrow> 'l sys \<Rightarrow> 'l sys" where
  "timer_fires clk g t y =
     (let y' = y\<lparr>timers := timers y - {#(g, t)#}\<rparr> in
      if g = generation y
      then y'\<lparr>sched := (sched y')\<lparr>queue := q_Push clk t (queue (sched y'))\<rparr>\<rparr>
      else y'\<lparr>flushed := add_mset t (flushed y')\<rparr>)"

inductive sys_step :: "('l, 'r) rate_api \<Rightarrow> 'l sys \<Rightarrow> 'l sys \<Rightarrow> bool" for api where
  submit_reject:
    "submit_checks c (submit_snapshot t (sched y)) t (sched y) = (Inl e, s') \<Longrightarrow>
     sys_step api y (y\<lparr>sched := s'\<rparr>)"
| submit_check:
    "submit_checks c (submit_snapshot t (sched y)) t (sched y) = (Inr t', s') \<Longrightarrow>
     sys_step api y (y\<lparr>sched := s', submitting := add_mset (c, t') (submitting y),
                       accepted := add_mset t' (accepted y)\<rparr>)"
| submit_push:
    "(c, t) \<in># submitting y \<Longrightarrow>
     sys_step api y (y\<lparr>sched := submit_enqueue c t (sched y),
                       submitting := submitting y - {#(c, t)#}\<rparr>)"
| process:
    "processNextTask api c (sched y) = (d, s') \<Longrightarrow>
     sys_step api y (carry_out d (y\<lparr>sched := s'\<rparr>))"
| timer:
    "(g, t) \<in># timers y \<Longrightarrow> sys_step api y (timer_fires clk g t y)"
| finish:
    "t \<in># running y \<Longrightarrow>
     sys_step api y (y\<lparr>sched := finish_task now t r (sched y), running := running y - {#t#},
                       finished := add_mset t (finished y)\<rparr>)"
| stop: "sys_step api y (stop_sys y)"
| start: "sys_step api y (y\<lparr>sched := Start (sched y)\<rparr>)"
| mode: "sys_step api y (y\<lparr>sched := SetMode m (sched y)\<rparr>)"
| admission: "sys_step api y (y\<lparr>sched := SetAdmissionMode a (sched y)\<rparr>)"
| health: "sys_step api y (y\<lparr>sched := UpdateNodeHealth api now node signal score tier (sched y)\<rparr>)"

inductive reachable :: "('l, 'r) rate_api \<Rightarrow> 'l sys \<Rightarrow> 'l sys \<Rightarrow> bool" for api y0 where
  here: "reachable api y0 y0"
| step: "reachable api y0 y \<Longrightarrow> sys_step api y y' \<Longrightarrow> reachable api y0 y'"

section \<open>What dispatch does to the counters\<close>

definition in_domain :: "string \<Rightarrow> task multiset \<Rightarrow> int" where
  "in_domain d M = int (size {#t \<in># M. t_FailureDomain t = d#})"

definition counters_ok :: "'l scheduler \<Rightarrow> task multiset \<Rightarrow> bool" where
  "counters_ok s M \<longleftrightarrow>
     activeTasks s = int (size M) \<and> activeTasks s \<le> 100 \<and>
     (\<forall>d. d \<noteq> [] \<longrightarrow> map_read 0 (domainTasks s) d = in_domain d M \<and> in_domain d M \<le> 10)"

lemma dispatch_cases:
  obtains (drop) "dispatch api c t s = (QuarantineDrop t, s)" "quarantined s (t_NodeID t)"
  | (delay) why n nl tl where "dispatch api c t s =
      (Delayed why t n, s\<lparr>nodeLimiters := nl, tenantLimiters := tl\<rparr>)" "0 < n"
  | (go) nl tl where "dispatch api c t s =
      (Dispatched t, start_task t (s\<lparr>nodeLimiters := nl, tenantLimiters := tl\<rparr>))"
      "\<not> quarantined s (t_NodeID t)" "activeTasks s < 100"
      "t_FailureDomain t \<noteq> [] \<Longrightarrow>
       map_read 0 (domainTasks s) (t_FailureDomain t) < domain_limit s (t_FailureDomain t)"
proof -
  obtain ok n nl where r1: "tb_Reserve api (d_node c) (t_NodeID t) (nodeLimiters s) = ((ok, n), nl)"
    by (metis prod.exhaust)
  obtain ok' n' tl where r2: "tb_Reserve api (d_tenant c) (t_TenantID t) (tenantLimiters s) = ((ok', n'), tl)"
    by (metis prod.exhaust)
  have id: "s\<lparr>nodeLimiters := nodeLimiters s, tenantLimiters := tenantLimiters s\<rparr> = s"
    "s\<lparr>nodeLimiters := nl, tenantLimiters := tenantLimiters s\<rparr> = s\<lparr>nodeLimiters := nl\<rparr>" by simp_all
  have pos: "\<not> ok \<Longrightarrow> 0 < n" "\<not> ok' \<Longrightarrow> 0 < n'"
    using tb_Reserve_delay [OF r1] tb_Reserve_delay [OF r2] by (auto simp: le_less)
  consider (q) "quarantined s (t_NodeID t)"
    | (d) "\<not> quarantined s (t_NodeID t)" "t_FailureDomain t \<noteq> []"
        "domain_limit s (t_FailureDomain t) \<le> map_read 0 (domainTasks s) (t_FailureDomain t)"
    | (free) "\<not> quarantined s (t_NodeID t)" "t_FailureDomain t = [] \<or>
        map_read 0 (domainTasks s) (t_FailureDomain t) < domain_limit s (t_FailureDomain t)"
    by fastforce
  then show ?thesis
  proof cases
    case q
    show ?thesis by (rule drop [OF _ q]) (simp add: dispatch_def q)
  next
    case d
    show ?thesis
      by (rule delay [where nl = "nodeLimiters s" and tl = "tenantLimiters s" and n = "2 * second"])
        (simp_all add: dispatch_def d)
  next
    case free
    have disp: "dispatch api c t s =
      (if \<not> ok then (Delayed NodeThrottle t n, s\<lparr>nodeLimiters := nl\<rparr>)
       else if \<not> ok' then (Delayed TenantThrottle t n', s\<lparr>nodeLimiters := nl, tenantLimiters := tl\<rparr>)
       else if 100 \<le> activeTasks s
       then (Delayed BudgetThrottle t second, s\<lparr>nodeLimiters := nl, tenantLimiters := tl\<rparr>)
       else (Dispatched t, start_task t (s\<lparr>nodeLimiters := nl, tenantLimiters := tl\<rparr>)))"
      using free by (auto simp: dispatch_def r1 r2)
    consider "\<not> ok" | "ok" "\<not> ok'" | "ok" "ok'" "100 \<le> activeTasks s" | "ok" "ok'" "activeTasks s < 100"
      by fastforce
    then show ?thesis
    proof cases
      case 1
      then show ?thesis
        using pos by (intro delay [where nl = nl and tl = "tenantLimiters s"]) (simp_all add: disp)
    next
      case 2
      then show ?thesis
        using pos by (intro delay [where nl = nl and tl = tl]) (simp_all add: disp)
    next
      case 3
      then show ?thesis by (intro delay [where n = second and nl = nl and tl = tl]) (simp_all add: disp)
    next
      case 4
      then show ?thesis using free by (intro go [where nl = nl and tl = tl]) (auto simp: disp)
    qed
  qed
qed

lemma processNextTask_cases:
  obtains (idle) q where "processNextTask api c s = (Idle, s\<lparr>queue := q\<rparr>)"
      "q_items (queue s) = {#}" "q_items q = {#}"
  | (took) t q where "processNextTask api c s = dispatch api c t (s\<lparr>queue := q\<rparr>)"
      "q_items (queue s) = add_mset t (q_items q)" "q_Peek (queue s) = Some t"
proof (cases "q_Pop (d_less c) (queue s)")
  case (Pair r q)
  have "s\<lparr>queue := queue s\<rparr> = s" by simp
  then have empty: "processNextTask api c s = (Idle, s\<lparr>queue := q\<rparr>)" "q_items (queue s) = {#}"
    "q_items q = {#}" if "r = None"
    using Pair that q_Pop_None [of "d_less c" "queue s" q] by (auto simp: processNextTask_def)
  have took': "processNextTask api c s = dispatch api c t (s\<lparr>queue := q\<rparr>)" if "r = Some t" for t
  proof -
    have "q_items (queue s) \<noteq> {#}" using q_Pop_Some(1) [of "d_less c" "queue s" t q] Pair that by simp
    then show ?thesis using Pair that by (simp add: processNextTask_def q_Len_items)
  qed
  show ?thesis
  proof (cases r)
    case None
    then show ?thesis using idle empty by blast
  next
    case (Some t)
    then show ?thesis using took [OF took'] q_Pop_Some [of "d_less c" "queue s" t q] Pair by simp
  qed
qed

section \<open>The counters are the running tasks\<close>

lemma in_domain_add:
  "in_domain d (add_mset t M) = in_domain d M + (if t_FailureDomain t = d then 1 else 0)"
  by (simp add: in_domain_def)

lemma counters_start:
  assumes "counters_ok s M" "activeTasks s < 100"
    and "t_FailureDomain t \<noteq> [] \<Longrightarrow>
         map_read 0 (domainTasks s) (t_FailureDomain t) < domain_limit s (t_FailureDomain t)"
  shows "counters_ok (start_task t s) (add_mset t M)"
proof -
  have "map_read 0 (domainTasks s) (t_FailureDomain t) < 10" if "t_FailureDomain t \<noteq> []"
    using assms(3) [OF that] by (simp add: domain_limit_def split: if_splits)
  then show ?thesis
    using assms(1,2) by (auto simp: counters_ok_def start_task_def Let_def in_domain_add)
qed

lemma counters_finish:
  assumes "counters_ok s (add_mset t M)"
  shows "counters_ok (finish_task now t r s) M"
proof -
  have "counters_ok (release_task t f s') M" if "counters_ok s' (add_mset t M)" for f and s' :: "'a scheduler"
  proof -
    have "activeTasks s' = int (size M) + 1" "activeTasks s' \<le> 100"
      and d: "\<And>d. d \<noteq> [] \<Longrightarrow> map_read 0 (domainTasks s') d =
           in_domain d M + (if t_FailureDomain t = d then 1 else 0) \<and>
           in_domain d M + (if t_FailureDomain t = d then 1 else 0) \<le> 10"
      using that by (auto simp: counters_ok_def in_domain_add)
    moreover have "in_domain d M \<le> 10" if "d \<noteq> []" for d using d [OF that] by (auto split: if_splits)
    ultimately show ?thesis by (auto simp: counters_ok_def release_task_def Let_def)
  qed
  moreover have "counters_ok (s\<lparr>events := e\<rparr>) (add_mset t M)" for e
    using assms by (simp add: counters_ok_def)
  ultimately show ?thesis using assms by (cases r) (simp_all add: finish_task_def)
qed

lemma counters_frame:
  assumes "activeTasks s' = activeTasks s" "domainTasks s' = domainTasks s"
  shows "counters_ok s' M \<longleftrightarrow> counters_ok s M"
  using assms by (simp add: counters_ok_def)

lemma counters_process:
  assumes "counters_ok (sched y) (running y)" "processNextTask api c (sched y) = (d, s')"
  shows "counters_ok (sched (carry_out d (y\<lparr>sched := s'\<rparr>))) (running (carry_out d (y\<lparr>sched := s'\<rparr>)))"
proof (cases rule: processNextTask_cases [where api = api and c = c and s = "sched y"])
  case (idle q)
  then show ?thesis using assms by (simp add: carry_out_def counters_ok_def)
next
  case (took t q)
  let ?s = "sched y\<lparr>queue := q\<rparr>"
  have ok: "counters_ok ?s (running y)" using assms(1) by (simp add: counters_ok_def)
  show ?thesis
  proof (cases rule: dispatch_cases [where api = api and c = c and t = t and s = "?s"])
    case drop
    then show ?thesis using took(1) assms(2) ok by (simp add: carry_out_def)
  next
    case (delay why n nl tl)
    then show ?thesis using took(1) assms(2) ok by (simp add: carry_out_def counters_ok_def)
  next
    case (go nl tl)
    have "counters_ok (?s\<lparr>nodeLimiters := nl, tenantLimiters := tl\<rparr>) (running y)"
      using ok by (simp add: counters_ok_def)
    then have "counters_ok (start_task t (?s\<lparr>nodeLimiters := nl, tenantLimiters := tl\<rparr>)) (add_mset t (running y))"
      using go by (intro counters_start) (simp_all add: domain_limit_def)
    then show ?thesis using go(1) took(1) assms(2) by (simp add: carry_out_def)
  qed
qed

lemma counters_step:
  assumes "sys_step api y y'" "counters_ok (sched y) (running y)"
  shows "counters_ok (sched y') (running y')"
  using assms
proof (induction rule: sys_step.induct)
  case (submit_reject c t y e s')
  then show ?case
    using submit_checks_state [of c "submit_snapshot t (sched y)" t "sched y"]
    by (auto simp: counters_ok_def)
next
  case (submit_check c t y t' s')
  then show ?case
    using submit_checks_state [of c "submit_snapshot t (sched y)" t "sched y"]
    by (auto simp: counters_ok_def)
next
  case (process c y d s')
  then show ?case by (intro counters_process)
next
  case (finish t y now r)
  then obtain M where "running y = add_mset t M" by (metis mset_add)
  then show ?case using finish counters_finish [of "sched y" t M] by simp
qed (simp_all add: counters_ok_def submit_enqueue_def timer_fires_def stop_sys_def Let_def Stop_def
    Start_def SetMode_def SetAdmissionMode_def UpdateNodeHealth_def)

lemma counters_init: "counters_ok (sched (init_sys i n cfg)) (running (init_sys i n cfg))"
  by (simp add: init_sys_def NewScheduler_def counters_ok_def in_domain_def)

lemma counters_reachable:
  "reachable api (init_sys i n cfg) y \<Longrightarrow> counters_ok (sched y) (running y)"
  by (induction rule: reachable.induct) (auto intro: counters_init counters_step)


text \<open>
  C31. What the worker starts is safe to start: in every run, a task is dispatched only if its node is
  not quarantined, fewer than 100 tasks are running, and its failure domain has fewer than 10 running
  tasks, or none at all once the domain has failed more than five times.
\<close>

theorem dispatch_is_safe:
  assumes "reachable api (init_sys i n cfg) y"
    and "processNextTask api c (sched y) = (Dispatched t, s')"
  shows "\<not> quarantined (sched y) (t_NodeID t) \<and> size (running y) < 100 \<and>
     (t_FailureDomain t \<noteq> [] \<longrightarrow>
        in_domain (t_FailureDomain t) (running y) <
          (if 5 < map_read 0 (domainFailures (sched y)) (t_FailureDomain t) then 1 else 10))"
proof (cases rule: processNextTask_cases [where api = api and c = c and s = "sched y"])
  case (took u q)
  have ok: "counters_ok (sched y) (running y)" by (rule counters_reachable [OF assms(1)])
  let ?s = "sched y\<lparr>queue := q\<rparr>"
  show ?thesis
  proof (cases rule: dispatch_cases [where api = api and c = c and t = u and s = "?s"])
    case (go nl tl)
    then show ?thesis
      using took(1) assms(2) ok by (auto simp: quarantined_def domain_limit_def counters_ok_def)
  qed (use took(1) assms(2) in auto)
qed (use assms(2) in simp)

section \<open>No task disappears\<close>

definition accounted :: "'l sys \<Rightarrow> task multiset" where
  "accounted y =
     image_mset snd (submitting y) + q_items (queue (sched y)) + image_mset snd (timers y) +
     running y + finished y + dropped y + flushed y"

lemma accounted_process:
  assumes "processNextTask api c (sched y) = (d, s')"
  shows "accounted (carry_out d (y\<lparr>sched := s'\<rparr>)) = accounted y"
proof (cases rule: processNextTask_cases [where api = api and c = c and s = "sched y"])
  case (idle q)
  then show ?thesis using assms by (simp add: carry_out_def accounted_def)
next
  case (took t q)
  let ?s = "sched y\<lparr>queue := q\<rparr>"
  show ?thesis
  proof (cases rule: dispatch_cases [where api = api and c = c and t = t and s = "?s"])
    case drop
    then show ?thesis using took(1,2) assms by (simp add: carry_out_def accounted_def)
  next
    case (delay why n nl tl)
    then show ?thesis using took(1,2) assms by (simp add: carry_out_def accounted_def)
  next
    case (go nl tl)
    have "queue (start_task t s) = queue s" for s :: "'a scheduler" by (simp add: start_task_def Let_def)
    then show ?thesis using go(1) took(1,2) assms by (simp add: carry_out_def accounted_def)
  qed
qed

lemma queue_finish_task [simp]: "queue (finish_task now t r s) = queue s"
  by (cases r) (simp_all add: finish_task_def release_task_def Let_def)

lemma accounted_step:
  assumes "sys_step api y y'" "accounted y = accepted y"
  shows "accounted y' = accepted y'"
  using assms
proof (induction rule: sys_step.induct)
  case (submit_reject c t y e s')
  then show ?case
    using submit_checks_state [of c "submit_snapshot t (sched y)" t "sched y"]
    by (auto simp: accounted_def)
next
  case (submit_check c t y t' s')
  then show ?case
    using submit_checks_state [of c "submit_snapshot t (sched y)" t "sched y"]
    by (auto simp: accounted_def)
next
  case (submit_push c t y)
  then obtain M where "submitting y = add_mset (c, t) M" by (metis mset_add)
  then show ?case using submit_push by (simp add: accounted_def submit_enqueue_def)
next
  case (process c y d s')
  then have "accepted (carry_out d (y\<lparr>sched := s'\<rparr>)) = accepted y"
    by (simp add: carry_out_def split: dispatch_decision.split)
  then show ?case using process accounted_process by metis
next
  case (timer g t y clk)
  then obtain M where "timers y = add_mset (g, t) M" by (metis mset_add)
  then show ?case using timer by (simp add: accounted_def timer_fires_def Let_def)
next
  case (finish t y now r)
  then obtain M where "running y = add_mset t M" by (metis mset_add)
  then show ?case using finish by (simp add: accounted_def)
next
  case (stop y)
  then show ?case by (simp add: accounted_def stop_sys_def Stop_def ac_simps)
qed (simp_all add: accounted_def Start_def SetMode_def SetAdmissionMode_def UpdateNodeHealth_def Let_def)

text \<open>
  C2. Every task \<open>Submit\<close> let in is accounted for, exactly once, at every moment of every run: it is
  on its way into the queue, in the queue, held by a timer, running, finished, dropped because its
  node is quarantined, or flushed by a \<open>Stop\<close>. Throttling only delays.
\<close>

theorem tasks_accounted_for:
  assumes "reachable api (init_sys i n cfg) y"
  shows "accepted y =
     image_mset snd (submitting y) + q_items (queue (sched y)) + image_mset snd (timers y) +
     running y + finished y + dropped y + flushed y"
proof -
  have "accounted (init_sys i n cfg :: 'a sys) = accepted (init_sys i n cfg :: 'a sys)"
    by (simp add: accounted_def init_sys_def NewScheduler_def)
  with assms have "accounted y = accepted y"
    by (induction rule: reachable.induct) (auto intro: accounted_step)
  then show ?thesis by (simp add: accounted_def)
qed

section \<open>Stop\<close>

text \<open>Runs in which the scheduler stays inactive from the first state on.\<close>

inductive inactive_run :: "('l, 'r) rate_api \<Rightarrow> 'l sys \<Rightarrow> 'l sys \<Rightarrow> bool" for api y0 where
  here: "\<not> active (sched y0) \<Longrightarrow> inactive_run api y0 y0"
| step: "inactive_run api y0 y \<Longrightarrow> sys_step api y y' \<Longrightarrow> \<not> active (sched y') \<Longrightarrow>
         inactive_run api y0 y'"

text \<open>The tasks that can still reach the current queue object.\<close>

definition waiting :: "'l sys \<Rightarrow> task multiset" where
  "waiting y = image_mset snd (submitting y) + q_items (queue (sched y)) +
     image_mset snd {#gt \<in># timers y. fst gt = generation y#}"

lemma submit_checks_inactive:
  "\<not> active s \<Longrightarrow> submit_checks c (submit_snapshot t s) t s = (Inl NotActive, s)"
  by (simp add: submit_checks_def submit_snapshot_def)

lemma waiting_process:
  assumes "processNextTask api c (sched y) = (d, s')"
  shows "waiting (carry_out d (y\<lparr>sched := s'\<rparr>)) \<subseteq># waiting y"
proof (cases rule: processNextTask_cases [where api = api and c = c and s = "sched y"])
  case (idle q)
  then show ?thesis using assms by (simp add: carry_out_def waiting_def)
next
  case (took t q)
  let ?s = "sched y\<lparr>queue := q\<rparr>"
  show ?thesis
  proof (cases rule: dispatch_cases [where api = api and c = c and t = t and s = "?s"])
    case drop
    then show ?thesis using took(1,2) assms by (simp add: carry_out_def waiting_def)
  next
    case (delay why n nl tl)
    then show ?thesis using took(1,2) assms by (simp add: carry_out_def waiting_def)
  next
    case (go nl tl)
    have "queue (start_task t s) = queue s" for s :: "'a scheduler" by (simp add: start_task_def Let_def)
    then show ?thesis using go(1) took(1,2) assms by (simp add: carry_out_def waiting_def)
  qed
qed

lemma active_process:
  "processNextTask api c s = (d, s') \<Longrightarrow> active s' = active s"
proof (cases rule: processNextTask_cases [where api = api and c = c and s = s])
  case (took t q)
  assume p: "processNextTask api c s = (d, s')"
  show ?thesis
    by (cases rule: dispatch_cases [where api = api and c = c and t = t and s = "s\<lparr>queue := q\<rparr>"])
      (use took(1) p in \<open>auto simp: start_task_def Let_def\<close>)
qed auto

definition gens_ok :: "'l sys \<Rightarrow> bool" where
  "gens_ok y \<longleftrightarrow> (\<forall>(g, t) \<in># timers y. g \<le> generation y)"

lemma gens_step: "sys_step api y y' \<Longrightarrow> gens_ok y \<Longrightarrow> gens_ok y'"
proof (induction rule: sys_step.induct)
  case (process c y d s')
  then show ?case by (auto simp: gens_ok_def carry_out_def split: dispatch_decision.split)
next
  case (timer g t y clk)
  then show ?case by (auto simp: gens_ok_def timer_fires_def Let_def dest: in_diffD)
qed (auto simp: gens_ok_def stop_sys_def)

lemma gens_reachable: "reachable api (init_sys i n cfg) y \<Longrightarrow> gens_ok y"
  by (induction rule: reachable.induct) (auto intro: gens_step, simp add: gens_ok_def init_sys_def)

lemma waiting_stop:
  assumes "gens_ok y"
  shows "waiting (stop_sys y) = image_mset snd (submitting y)"
proof -
  have "{#gt \<in># timers y. fst gt = Suc (generation y)#} = {#}"
    using assms by (auto simp: gens_ok_def filter_mset_eq_conv filter_mset_False)
  then show ?thesis by (simp add: waiting_def stop_sys_def Stop_def)
qed

lemma inactive_step:
  assumes "sys_step api y y'" "\<not> active (sched y)" "\<not> active (sched y')" "gens_ok y"
  shows "accepted y' = accepted y \<and> waiting y' \<subseteq># waiting y"
  using assms
proof (induction rule: sys_step.induct)
  case (submit_push c t y)
  then obtain M where "submitting y = add_mset (c, t) M" by (metis mset_add)
  then show ?case by (simp add: waiting_def submit_enqueue_def)
next
  case (process c y d s')
  have "accepted (carry_out d (y\<lparr>sched := s'\<rparr>)) = accepted y"
    by (simp add: carry_out_def split: dispatch_decision.split)
  then show ?case using waiting_process [OF process(1)] by simp
next
  case (timer g t y clk)
  then obtain M where "timers y = add_mset (g, t) M" by (metis mset_add)
  then show ?case by (simp add: waiting_def timer_fires_def Let_def)
next
  case (stop y)
  have "image_mset snd (submitting y) \<subseteq># waiting y" by (simp add: waiting_def)
  then show ?case using waiting_stop [OF stop(3)] by (simp add: stop_sys_def)
qed (auto simp: submit_checks_inactive waiting_def SetMode_def Start_def SetAdmissionMode_def
    UpdateNodeHealth_def Let_def)

lemma inactive_run_waiting:
  assumes "inactive_run api y0 y" "gens_ok y0"
  shows "\<not> active (sched y) \<and> gens_ok y \<and> accepted y = accepted y0 \<and> waiting y \<subseteq># waiting y0"
  using assms
proof (induction rule: inactive_run.induct)
  case (step y y')
  then show ?case
    using inactive_step [OF step(2)] gens_step [OF step(2)] by (metis subset_mset.order_trans)
qed simp


text \<open>A concrete run: started, one task checked, then pushed.\<close>

definition ex_task :: task where
  "ex_task = stamped (submit_at 1) zero_task"

definition ex_started :: "unit sys" where
  "ex_started = (init_sys 0 1 DefaultSchedulerConfig)\<lparr>sched := started 0 1\<rparr>"

definition ex_checked :: "unit sys" where
  "ex_checked = ex_started\<lparr>submitting := {#(submit_at 1, ex_task)#}, accepted := {#ex_task#}\<rparr>"

definition ex_pushed :: "unit sys \<Rightarrow> unit sys" where
  "ex_pushed y = y\<lparr>sched := submit_enqueue (submit_at 1) ex_task (sched y),
                   submitting := submitting y - {#(submit_at 1, ex_task)#}\<rparr>"

lemma ex_check:
  "submit_checks (submit_at 1) (submit_snapshot zero_task (started 0 1)) zero_task (started 0 1) =
   (Inr ex_task, started 0 1)"
proof -
  have q: "q_Len NewThreadSafeQueue = 0" by (simp add: q_Len_items)
  have g: "gate_error (submit_snapshot zero_task (started 0 1)) zero_task (started 0 1) = None"
    by (simp add: gate_error_def q submit_snapshot_def started_def Start_def NewScheduler_def mode_defs
        zero_task_def)
  have b: "breaker_check (submit_at 1) (submit_snapshot zero_task (started 0 1)) (started 0 1) =
      (True, circuitBreaker (started 0 1))"
    using saturation_limit_ge
    by (simp add: breaker_check_def q submit_snapshot_def started_def Start_def NewScheduler_def
        worker_saturation_def DefaultSchedulerConfig_def ShouldAdmit_def cb_cool_def
        NewCircuitBreaker_def round64_0 Let_def)
  have "(started 0 1)\<lparr>circuitBreaker := circuitBreaker (started 0 1)\<rparr> = started 0 1" by simp
  moreover have "isActive (submit_snapshot zero_task (started 0 1))"
    "currentAdmission (submit_snapshot zero_task (started 0 1)) = AdmissionNormal"
    by (simp_all add: submit_snapshot_def started_def Start_def NewScheduler_def)
  ultimately show ?thesis
    using b g by (simp add: submit_checks_def admission_defs ex_task_def Let_def)
qed

lemma ex_reachable:
  "reachable open_api (init_sys 0 1 DefaultSchedulerConfig) ex_checked"
  "reachable open_api (init_sys 0 1 DefaultSchedulerConfig) (ex_pushed ex_checked)"
  "reachable open_api (init_sys 0 1 DefaultSchedulerConfig) (ex_pushed (stop_sys ex_checked))"
proof -
  let ?y0 = "init_sys 0 1 DefaultSchedulerConfig :: unit sys"
  have "Start (sched ?y0) = started 0 1" by (simp add: started_def init_sys_def)
  then have 1: "reachable open_api ?y0 ex_started"
    using reachable.step [OF reachable.here sys_step.start, of open_api ?y0] by (simp add: ex_started_def)
  have s: "sched ex_started = started 0 1" by (simp add: ex_started_def)
  have "ex_checked = ex_started\<lparr>sched := started 0 1,
      submitting := add_mset (submit_at 1, ex_task) (submitting ex_started),
      accepted := add_mset ex_task (accepted ex_started)\<rparr>"
    by (simp add: ex_checked_def ex_started_def init_sys_def)
  then show 2: "reachable open_api ?y0 ex_checked"
    using reachable.step [OF 1 sys_step.submit_check [where c = "submit_at 1" and t = zero_task]] ex_check s
    by metis
  have m: "(submit_at 1, ex_task) \<in># submitting ex_checked" by (simp add: ex_checked_def)
  show "reachable open_api ?y0 (ex_pushed ex_checked)"
    unfolding ex_pushed_def by (rule reachable.step [OF 2 sys_step.submit_push [OF m]])
  have "reachable open_api ?y0 (stop_sys ex_checked)" by (rule reachable.step [OF 2 sys_step.stop])
  moreover have "(submit_at 1, ex_task) \<in># submitting (stop_sys ex_checked)"
    using m by (simp add: stop_sys_def)
  ultimately show "reachable open_api ?y0 (ex_pushed (stop_sys ex_checked))"
    unfolding ex_pushed_def by (intro reachable.step [OF _ sys_step.submit_push])
qed

lemma ex_late_queue:
  "\<not> active (sched (ex_pushed (stop_sys ex_checked)))"
  "q_items (queue (sched (ex_pushed (stop_sys ex_checked)))) = {#ex_task#}"
  by (simp_all add: ex_pushed_def submit_enqueue_def stop_sys_def Stop_def)

definition ex_running :: "unit sys" where
  "ex_running = (let (d, s') = processNextTask open_api one_clock (sched (ex_pushed ex_checked))
                 in carry_out d ((ex_pushed ex_checked)\<lparr>sched := s'\<rparr>))"

lemma ex_dispatch:
  "fst (processNextTask open_api one_clock (sched (ex_pushed ex_checked))) = Dispatched ex_task"
proof -
  have "queue (sched (ex_pushed ex_checked)) = \<lparr>pq = [ex_task]\<rparr>"
    by (simp add: ex_pushed_def submit_enqueue_def ex_checked_def ex_started_def started_def Start_def
        NewScheduler_def NewThreadSafeQueue_def q_Push_def heap_push_def heap_up.simps)
  moreover have "q_Pop clk \<lparr>pq = [ex_task]\<rparr> = (Some ex_task, \<lparr>pq = []\<rparr>)" for clk
    by (simp add: q_Pop_def heap_pop_def heap_down.simps swap_def)
  moreover have "nodeHealth (sched (ex_pushed ex_checked)) = Map.empty"
    "activeTasks (sched (ex_pushed ex_checked)) = 0"
    by (simp_all add: ex_pushed_def submit_enqueue_def ex_checked_def ex_started_def started_def
        Start_def NewScheduler_def)
  ultimately show ?thesis
    by (simp add: processNextTask_def q_Len_def dispatch_def quarantined_def open_api_def one_clock_def
        tb_Reserve_def Let_def ex_task_def stamped_def zero_task_def split_beta)
qed

lemma ex_running_reachable:
  "reachable open_api (init_sys 0 1 DefaultSchedulerConfig) ex_running"
  using reachable.step [OF ex_reachable(2) sys_step.process [where c = one_clock]]
  by (simp add: ex_running_def split_beta)

lemma ex_running_running: "running ex_running = {#ex_task#}"
  using ex_dispatch
  by (simp add: ex_running_def split_beta carry_out_def ex_pushed_def ex_checked_def ex_started_def
      init_sys_def)

text \<open>
  The exception of C19 does happen: \<open>Submit\<close> reads \<open>active\<close> under the lock but pushes outside
  it, so a task of the old term can be left in the queue of a stopped scheduler.
\<close>

theorem late_submit_survives_stop:
  "\<exists>y. reachable open_api (init_sys 0 1 DefaultSchedulerConfig) y \<and>
       \<not> active (sched y) \<and> q_items (queue (sched y)) \<noteq> {#}"
  using ex_reachable(3) ex_late_queue by force

text \<open>
  \<open>MaxConcurrency\<close> does not limit concurrency: what the worker does with a task is the same for
  every value of it. (It only scales the saturation the circuit breaker looks at.)
\<close>

theorem dispatch_ignores_max_concurrency:
  "fst (processNextTask api c (s\<lparr>maxConcurrency := m\<rparr>)) = fst (processNextTask api c s)"
proof -
  have "fst (dispatch api c t (s\<lparr>maxConcurrency := m, queue := q\<rparr>)) = fst (dispatch api c t (s\<lparr>queue := q\<rparr>))"
    for t q
    by (simp add: dispatch_def quarantined_def domain_limit_def Let_def split_beta)
  then show ?thesis by (simp add: processNextTask_def split_beta split: option.split)
qed

section \<open>Witnesses\<close>


theorem dispatch_is_safe_witness:
  "\<not> quarantined (sched (ex_pushed ex_checked)) (t_NodeID ex_task)"
  using dispatch_is_safe [OF ex_reachable(2), of one_clock ex_task
      "snd (processNextTask open_api one_clock (sched (ex_pushed ex_checked)))"] ex_dispatch
  by (metis prod.collapse)

theorem tasks_accounted_for_witness:
  "accepted ex_running \<supseteq># {#ex_task#}"
  using tasks_accounted_for [OF ex_running_reachable] ex_running_running by simp


end
