(* ===== verification/RedisServer.thy ===== *)
theory RedisServer
  imports StoreTypes
begin

text \<open>
  What \<open>store/redis.go\<close> relies on of Redis and of the go-redis client, which are not part of this
  repository: the string commands as a record of functions over the server's state \<open>'r\<close>, and their
  documented behaviour as the locale \<open>redis_server\<close>. A command is given the server's clock.

  The law of a write speaks of what later reads see: \<open>stored\<close> says a key holds a value until it expires
  and no other key changes. Expirations are whole milliseconds, as the server keeps them; 0 is none.

  Between client and server is a network: a request may be refused before or after it took effect
  (\<open>fault\<close>). \<open>map_redis\<close> shows that the laws can be met.
\<close>

section \<open>Commands\<close>

record 'r redis =
  rd_get :: "gotime \<Rightarrow> string \<Rightarrow> 'r \<Rightarrow> string option"
  rd_set :: "gotime \<Rightarrow> string \<Rightarrow> string \<Rightarrow> duration \<Rightarrow> 'r \<Rightarrow> 'r"
  rd_setnx :: "gotime \<Rightarrow> string \<Rightarrow> string \<Rightarrow> duration \<Rightarrow> 'r \<Rightarrow> bool \<times> 'r"
  rd_del :: "gotime \<Rightarrow> string \<Rightarrow> 'r \<Rightarrow> int \<times> 'r"
  rd_pexpire :: "gotime \<Rightarrow> string \<Rightarrow> int \<Rightarrow> 'r \<Rightarrow> int \<times> 'r"
  rd_incr :: "gotime \<Rightarrow> string \<Rightarrow> 'r \<Rightarrow> (go_error + int) \<times> 'r"

datatype fault = Delivered | Refused go_error | ReplyLost go_error

definition call :: "fault \<Rightarrow> ('r \<Rightarrow> 'a \<times> 'r) \<Rightarrow> 'r \<Rightarrow> (go_error + 'a) \<times> 'r" where
  "call net f r =
     (case net of
        Delivered \<Rightarrow> (Inr (fst (f r)), snd (f r))
      | Refused e \<Rightarrow> (Inl e, r)
      | ReplyLost e \<Rightarrow> (Inl e, snd (f r)))"

text \<open>A command that only reads.\<close>

definition ask :: "fault \<Rightarrow> ('r \<Rightarrow> 'a) \<Rightarrow> 'r \<Rightarrow> go_error + 'a" where
  "ask net f r = fst (call net (\<lambda>r. (f r, r)) r)"

lemma call_simps [simp]:
  "call Delivered f r = (Inr (fst (f r)), snd (f r))"
  "call (Refused e) f r = (Inl e, r)"
  "call (ReplyLost e) f r = (Inl e, snd (f r))"
  by (simp_all add: call_def)

lemma ask_simps [simp]:
  "ask Delivered f r = Inr (f r)" "ask (Refused e) f r = Inl e" "ask (ReplyLost e) f r = Inl e"
  by (simp_all add: ask_def)

lemma call_state: "snd (call net f r) = r \<or> snd (call net f r) = snd (f r)"
  by (cases net) simp_all

lemma call_result: "fst (call net f r) = Inr x \<Longrightarrow> x = fst (f r) \<and> snd (call net f r) = snd (f r)"
  by (cases net) simp_all

lemma ask_result: "ask net f r = Inr x \<Longrightarrow> x = f r"
  by (cases net) simp_all

section \<open>Documented behaviour\<close>

definition valid_ttl :: "duration \<Rightarrow> bool" where
  "valid_ttl ttl \<longleftrightarrow> 0 < ttl \<and> millisecond dvd ttl"

definition expiry :: "gotime \<Rightarrow> duration \<Rightarrow> gotime option" where
  "expiry t ttl = (if ttl = 0 then None else Some (t + ttl))"

definition unexpired :: "gotime \<Rightarrow> gotime option \<Rightarrow> bool" where
  "unexpired t e = (case e of None \<Rightarrow> True | Some u \<Rightarrow> t < u)"

text \<open>From \<open>t\<close> on key \<open>k\<close> reads as \<open>v\<close> until \<open>e\<close>, and the other keys as before.\<close>

definition stored ::
  "'r redis \<Rightarrow> gotime \<Rightarrow> string \<Rightarrow> string \<Rightarrow> gotime option \<Rightarrow> 'r \<Rightarrow> 'r \<Rightarrow> bool" where
  "stored rd t k v e r r' \<longleftrightarrow>
     (\<forall>u \<ge> t. rd_get rd u k r' = (if unexpired u e then Some v else None)) \<and>
     (\<forall>q u. q \<noteq> k \<and> t \<le> u \<longrightarrow> rd_get rd u q r' = rd_get rd u q r)"

definition removed :: "'r redis \<Rightarrow> gotime \<Rightarrow> string \<Rightarrow> 'r \<Rightarrow> 'r \<Rightarrow> bool" where
  "removed rd t k r r' \<longleftrightarrow>
     (\<forall>u \<ge> t. rd_get rd u k r' = None) \<and>
     (\<forall>q u. q \<noteq> k \<and> t \<le> u \<longrightarrow> rd_get rd u q r' = rd_get rd u q r)"

locale redis_server =
  fixes rd :: "'r redis"
  assumes get_later: "t \<le> u \<Longrightarrow> rd_get rd u k r = rd_get rd t k r \<or> rd_get rd u k r = None"
    and set_law: "ttl = 0 \<or> valid_ttl ttl \<Longrightarrow> stored rd t k v (expiry t ttl) r (rd_set rd t k v ttl r)"
    and setnx_free: "ttl = 0 \<or> valid_ttl ttl \<Longrightarrow> rd_get rd t k r = None \<Longrightarrow>
      fst (rd_setnx rd t k v ttl r) \<and> stored rd t k v (expiry t ttl) r (snd (rd_setnx rd t k v ttl r))"
    and setnx_held: "rd_get rd t k r \<noteq> None \<Longrightarrow> rd_setnx rd t k v ttl r = (False, r)"
    and del_present: "rd_get rd t k r \<noteq> None \<Longrightarrow>
      fst (rd_del rd t k r) = 1 \<and> removed rd t k r (snd (rd_del rd t k r))"
    and del_absent: "rd_get rd t k r = None \<Longrightarrow> rd_del rd t k r = (0, r)"
    and pexpire_present: "0 < ms \<Longrightarrow> rd_get rd t k r = Some v \<Longrightarrow>
      fst (rd_pexpire rd t k ms r) = 1 \<and>
      stored rd t k v (Some (t + ms * millisecond)) r (snd (rd_pexpire rd t k ms r))"
    and pexpire_absent: "rd_get rd t k r = None \<Longrightarrow> rd_pexpire rd t k ms r = (0, r)"
    and incr_absent: "rd_get rd t k r = None \<Longrightarrow>
      fst (rd_incr rd t k r) = Inr 1 \<and> stored rd t k (itoa 1) None r (snd (rd_incr rd t k r))"
    and incr_present: "rd_get rd t k r = Some v \<Longrightarrow> parse_int v = Some n \<Longrightarrow> n < max_int64 \<Longrightarrow>
      fst (rd_incr rd t k r) = Inr (n + 1) \<and>
      (\<exists>e. (\<forall>u \<ge> t. rd_get rd u k r = (if unexpired u e then Some v else None)) \<and>
         stored rd t k (itoa (n + 1)) e r (snd (rd_incr rd t k r)))"
begin

lemma setnx_result: "ttl = 0 \<or> valid_ttl ttl \<Longrightarrow> fst (rd_setnx rd t k v ttl r) \<longleftrightarrow> rd_get rd t k r = None"
  using setnx_free setnx_held by (metis fst_conv)

lemma get_none_later: "rd_get rd t k r = None \<Longrightarrow> t \<le> u \<Longrightarrow> rd_get rd u k r = None"
  using get_later by metis

end

section \<open>The laws can be met\<close>

type_synonym redis_map = "string \<rightharpoonup> string \<times> gotime option"

definition map_get :: "gotime \<Rightarrow> string \<Rightarrow> redis_map \<Rightarrow> string option" where
  "map_get t k m = (case m k of None \<Rightarrow> None | Some (v, e) \<Rightarrow> if unexpired t e then Some v else None)"

definition map_redis :: "redis_map redis" where
  "map_redis =
     \<lparr>rd_get = map_get,
      rd_set = (\<lambda>t k v ttl m. m(k \<mapsto> (v, expiry t ttl))),
      rd_setnx = (\<lambda>t k v ttl m. if map_get t k m = None then (True, m(k \<mapsto> (v, expiry t ttl))) else (False, m)),
      rd_del = (\<lambda>t k m. if map_get t k m = None then (0, m) else (1, m(k := None))),
      rd_pexpire = (\<lambda>t k ms m. case map_get t k m of None \<Rightarrow> (0, m)
         | Some v \<Rightarrow> (1, m(k \<mapsto> (v, Some (t + ms * millisecond))))),
      rd_incr = (\<lambda>t k m. case map_get t k m of None \<Rightarrow> (Inr 1, m(k \<mapsto> (itoa 1, None)))
         | Some v \<Rightarrow> (case parse_int v of
               Some n \<Rightarrow> if n < max_int64 then (Inr (n + 1), m(k \<mapsto> (itoa (n + 1), snd (the (m k)))))
                 else (Inl ''ERR increment or decrement would overflow'', m)
             | None \<Rightarrow> (Inl ''ERR value is not an integer or out of range'', m)))\<rparr>"

interpretation map_redis: redis_server map_redis
proof
  fix t u k r
  assume "t \<le> (u :: gotime)"
  then show "rd_get map_redis u k r = rd_get map_redis t k r \<or> rd_get map_redis u k r = None"
    by (auto simp: map_redis_def map_get_def unexpired_def split: option.split)
qed (auto simp: map_redis_def map_get_def stored_def removed_def expiry_def split: option.splits prod.splits if_splits)

end
