(* ===== verification/DegradedMode.thy ===== *)
theory DegradedMode
  imports StoreTypes
begin

text \<open>
  \<open>resilience/degraded_mode.go\<close>: the dependency flags, the bounded LRU cache that stands in for Redis
  and the bounded list of writes to be synchronised later. \<open>'v\<close> is the type of cached values. Every
  method holds the mutex throughout; log lines are left out. \<open>currentVersion\<close> lives as long as the
  process and is incremented at its width.
\<close>

section \<open>State\<close>

record 'v pending_write =
  pw_Key :: string
  pw_Value :: 'v
  pw_Timestamp :: int
  pw_TTL :: duration
  pw_Version :: int
  Reconciled :: bool

record 'v cache_entry =
  ce_Value :: 'v
  LastAccess :: gotime

record 'v degraded_mode =
  redisAvailable :: bool
  dbAvailable :: bool
  natsAvailable :: bool
  localCache :: "string \<rightharpoonup> 'v cache_entry"
  cacheSize :: int
  maxCacheSize :: int
  pendingWrites :: "'v pending_write list"
  maxPendingWrites :: int
  currentVersion :: int
  degradedModeActive :: bool
  lastRedisCheck :: gotime
  lastDBCheck :: gotime

definition NewDegradedMode :: "'v degraded_mode" where
  "NewDegradedMode =
     \<lparr>redisAvailable = True, dbAvailable = True, natsAvailable = True,
      localCache = Map.empty, cacheSize = 0, maxCacheSize = 10000,
      pendingWrites = [], maxPendingWrites = 10000, currentVersion = 0,
      degradedModeActive = False, lastRedisCheck = 0, lastDBCheck = 0\<rparr>"

section \<open>Dependency flags\<close>

definition checkDegradedMode :: "'v degraded_mode \<Rightarrow> 'v degraded_mode" where
  "checkDegradedMode d =
     (if redisAvailable d \<and> dbAvailable d \<and> natsAvailable d
      then d\<lparr>degradedModeActive := False\<rparr> else d)"

definition MarkRedisUnavailable :: "gotime \<Rightarrow> 'v degraded_mode \<Rightarrow> 'v degraded_mode" where
  "MarkRedisUnavailable now d =
     (if redisAvailable d
      then d\<lparr>redisAvailable := False, degradedModeActive := True, lastRedisCheck := now\<rparr> else d)"

definition MarkRedisAvailable :: "'v degraded_mode \<Rightarrow> 'v degraded_mode" where
  "MarkRedisAvailable d =
     (if \<not> redisAvailable d then checkDegradedMode (d\<lparr>redisAvailable := True\<rparr>) else d)"

definition MarkDBUnavailable :: "gotime \<Rightarrow> 'v degraded_mode \<Rightarrow> 'v degraded_mode" where
  "MarkDBUnavailable now d =
     (if dbAvailable d
      then d\<lparr>dbAvailable := False, degradedModeActive := True, lastDBCheck := now\<rparr> else d)"

definition MarkDBAvailable :: "'v degraded_mode \<Rightarrow> 'v degraded_mode" where
  "MarkDBAvailable d =
     (if \<not> dbAvailable d then checkDegradedMode (d\<lparr>dbAvailable := True\<rparr>) else d)"

definition IsRedisAvailable :: "'v degraded_mode \<Rightarrow> bool" where
  "IsRedisAvailable d = redisAvailable d"

definition IsDBAvailable :: "'v degraded_mode \<Rightarrow> bool" where
  "IsDBAvailable d = dbAvailable d"

definition IsDegraded :: "'v degraded_mode \<Rightarrow> bool" where
  "IsDegraded d = degradedModeActive d"

definition HealthCheck :: "'v degraded_mode \<Rightarrow> string \<rightharpoonup> bool" where
  "HealthCheck d =
     [''redis'' \<mapsto> redisAvailable d, ''database'' \<mapsto> dbAvailable d, ''nats'' \<mapsto> natsAvailable d,
      ''degraded'' \<mapsto> degradedModeActive d]"

text \<open>A primary or fallback function is given by its error; the fallback is called only if the
  primary fails.\<close>

definition WithFallback :: "go_error option \<Rightarrow> go_error option \<Rightarrow> go_error option" where
  "WithFallback primary fallback =
     (case primary of
        None \<Rightarrow> None
      | Some _ \<Rightarrow>
          (case fallback of
             None \<Rightarrow> None
           | Some e \<Rightarrow> Some (''both primary and fallback failed: '' @ e)))"

section \<open>Cache and pending writes\<close>

definition GetFromCache :: "gotime \<Rightarrow> string \<Rightarrow> 'v degraded_mode \<Rightarrow> 'v option \<times> 'v degraded_mode" where
  "GetFromCache now key d =
     (case localCache d key of
        None \<Rightarrow> (None, d)
      | Some entry \<Rightarrow>
          (Some (ce_Value entry),
           d\<lparr>localCache := (localCache d)(key \<mapsto> entry\<lparr>LastAccess := now\<rparr>)\<rparr>))"

text \<open>The oldest unreconciled write leaves the list.\<close>

fun drop_oldest :: "'v pending_write list \<Rightarrow> 'v pending_write list" where
  "drop_oldest [] = []"
| "drop_oldest (w # ws) = (if \<not> Reconciled w then ws else w # drop_oldest ws)"

text \<open>The loop for the least recently used entry; \<open>None\<close> is the flag \<open>first\<close>.\<close>

fun oldest_entry ::
  "(string \<rightharpoonup> 'v cache_entry) \<Rightarrow> string list \<Rightarrow> (string \<times> gotime) option \<Rightarrow> (string \<times> gotime) option"
where
  "oldest_entry cache [] best = best"
| "oldest_entry cache (k # ks) best =
     (case cache k of
        None \<Rightarrow> oldest_entry cache ks best
      | Some entry \<Rightarrow>
          (case best of
             None \<Rightarrow> oldest_entry cache ks (Some (k, LastAccess entry))
           | Some (_, t) \<Rightarrow>
               if LastAccess entry < t then oldest_entry cache ks (Some (k, LastAccess entry))
               else oldest_entry cache ks best))"

definition evict_lru :: "string list \<Rightarrow> 'v degraded_mode \<Rightarrow> 'v degraded_mode" where
  "evict_lru ks d =
     (let oldestKey = (case oldest_entry (localCache d) ks None of None \<Rightarrow> [] | Some (k, _) \<Rightarrow> k) in
      if oldestKey \<noteq> []
      then d\<lparr>localCache := (localCache d)(oldestKey := None), cacheSize := cacheSize d - 1\<rparr>
      else d)"

text \<open>\<open>now\<close> is the reading for \<open>LastAccess\<close>, \<open>now'\<close> the one for \<open>Timestamp\<close>, \<open>ks\<close> the order in which
  the eviction loop sees the cache.\<close>

definition SetInCacheWithTTL ::
  "gotime \<Rightarrow> gotime \<Rightarrow> string list \<Rightarrow> string \<Rightarrow> 'v \<Rightarrow> duration \<Rightarrow> 'v degraded_mode \<Rightarrow> 'v degraded_mode"
where
  "SetInCacheWithTTL now now' ks key v ttl d0 =
     (let d1 = (if maxPendingWrites d0 \<le> int (length (pendingWrites d0))
                then d0\<lparr>pendingWrites := drop_oldest (pendingWrites d0)\<rparr> else d0);
          d2 = (if maxCacheSize d1 \<le> cacheSize d1 then evict_lru ks d1 else d1);
          d3 = (if localCache d2 key = None then d2\<lparr>cacheSize := cacheSize d2 + 1\<rparr> else d2);
          d4 = d3\<lparr>localCache := (localCache d3)(key \<mapsto> \<lparr>ce_Value = v, LastAccess = now\<rparr>)\<rparr>;
          d5 = d4\<lparr>currentVersion := wrap64 (currentVersion d4 + 1)\<rparr>
      in d5\<lparr>pendingWrites := pendingWrites d5 @
             [\<lparr>pw_Key = key, pw_Value = v, pw_Timestamp = to_unix now', pw_TTL = ttl,
               pw_Version = currentVersion d5, Reconciled = False\<rparr>]\<rparr>)"

definition SetInCache ::
  "gotime \<Rightarrow> gotime \<Rightarrow> string list \<Rightarrow> string \<Rightarrow> 'v \<Rightarrow> 'v degraded_mode \<Rightarrow> 'v degraded_mode" where
  "SetInCache now now' ks key v d = SetInCacheWithTTL now now' ks key v 0 d"

definition ClearCache :: "'v degraded_mode \<Rightarrow> 'v degraded_mode" where
  "ClearCache d = d\<lparr>localCache := Map.empty, cacheSize := 0\<rparr>"

definition GetPendingWriteCount :: "'v degraded_mode \<Rightarrow> nat" where
  "GetPendingWriteCount d = length (pendingWrites d)"

text \<open>The two locked sections of the reconciliation loop that write to the list.\<close>

definition mark_reconciled :: "nat \<Rightarrow> 'v degraded_mode \<Rightarrow> 'v degraded_mode" where
  "mark_reconciled i d =
     (if i < length (pendingWrites d)
      then d\<lparr>pendingWrites := (pendingWrites d)[i := (pendingWrites d ! i)\<lparr>Reconciled := True\<rparr>]\<rparr>
      else d)"

definition clean_up :: "'v degraded_mode \<Rightarrow> 'v degraded_mode" where
  "clean_up d = d\<lparr>pendingWrites := filter (\<lambda>w. \<not> Reconciled w) (pendingWrites d)\<rparr>"

section \<open>The eviction picks the least recently used entry\<close>

definition entry_of :: "(string \<rightharpoonup> 'v cache_entry) \<Rightarrow> (string \<times> gotime) option \<Rightarrow> bool" where
  "entry_of cache best \<longleftrightarrow>
     (case best of None \<Rightarrow> True | Some (k, t) \<Rightarrow> \<exists>e. cache k = Some e \<and> LastAccess e = t)"

lemma oldest_entry_spec:
  assumes "set ks \<subseteq> dom cache" "entry_of cache best" "oldest_entry cache ks best = Some (k, t)"
  shows "\<exists>e. cache k = Some e \<and> LastAccess e = t \<and>
     (k \<in> set ks \<or> best = Some (k, t)) \<and>
     (\<forall>j \<in> set ks. \<forall>f. cache j = Some f \<longrightarrow> t \<le> LastAccess f) \<and>
     (\<forall>b u. best = Some (b, u) \<longrightarrow> t \<le> u)"
  using assms
proof (induction ks arbitrary: best)
  case Nil
  then show ?case by (auto simp: entry_of_def)
next
  case (Cons j ks)
  obtain f where f: "cache j = Some f" using Cons.prems(1) by auto
  define best' where "best' = (case best of None \<Rightarrow> Some (j, LastAccess f)
    | Some (b, u) \<Rightarrow> if LastAccess f < u then Some (j, LastAccess f) else best)"
  have step: "oldest_entry cache (j # ks) best = oldest_entry cache ks best'"
    by (simp add: f best'_def split: option.split)
  have "entry_of cache best'"
    using Cons.prems(2) f by (auto simp: entry_of_def best'_def split: option.split)
  then obtain e where e: "cache k = Some e" "LastAccess e = t" "k \<in> set ks \<or> best' = Some (k, t)"
      "\<forall>j \<in> set ks. \<forall>f. cache j = Some f \<longrightarrow> t \<le> LastAccess f"
      "\<forall>b u. best' = Some (b, u) \<longrightarrow> t \<le> u"
    using Cons.IH [of best'] Cons.prems(1,3) step by auto
  have le: "t \<le> LastAccess f" "\<forall>b u. best = Some (b, u) \<longrightarrow> t \<le> u"
    using e(5) by (auto simp: best'_def split: option.splits if_splits)
  have "k \<in> set (j # ks) \<or> best = Some (k, t)"
    using e(3) by (auto simp: best'_def split: option.splits if_splits)
  moreover have "\<forall>i \<in> set (j # ks). \<forall>g. cache i = Some g \<longrightarrow> t \<le> LastAccess g"
    using e(4) le(1) f by simp
  ultimately show ?case using e(1,2) le(2) by (intro exI [of _ e] conjI)
qed

lemma oldest_entry_Some: "oldest_entry cache ks (Some kt) \<noteq> None"
proof (induction ks arbitrary: kt)
  case (Cons j ks)
  show ?case
  proof (cases "cache j")
    case None
    then show ?thesis using Cons by simp
  next
    case (Some f)
    then show ?thesis using Cons by (cases kt) simp
  qed
qed simp

lemma oldest_entry_None:
  assumes "set ks \<subseteq> dom cache" "oldest_entry cache ks None = None"
  shows "ks = []"
proof (cases ks)
  case (Cons j js)
  then obtain f where "cache j = Some f" using assms(1) by auto
  then show ?thesis using assms(2) Cons oldest_entry_Some [of cache js] by simp
qed

lemma evict_lru_spec:
  assumes "map_order (localCache d) ks"
  obtains (nothing) "evict_lru ks d = d" "localCache d = Map.empty \<or> localCache d [] \<noteq> None"
  | (victim) k e where "localCache d k = Some e" "k \<noteq> []"
      "evict_lru ks d = d\<lparr>localCache := (localCache d)(k := None), cacheSize := cacheSize d - 1\<rparr>"
      "\<forall>j f. localCache d j = Some f \<longrightarrow> LastAccess e \<le> LastAccess f"
proof (cases "oldest_entry (localCache d) ks None")
  case None
  then have "ks = []" using oldest_entry_None [of ks "localCache d"] assms by (auto simp: map_order_def)
  then have "dom (localCache d) = {}" using assms by (simp add: map_order_def)
  then have empty: "localCache d = Map.empty" by simp
  have "evict_lru ks d = d" using None by (simp add: evict_lru_def)
  then show ?thesis by (rule nothing) (simp add: empty)
next
  case (Some kt)
  obtain k t where kt: "kt = (k, t)" by (cases kt)
  obtain e where e: "localCache d k = Some e" "LastAccess e = t" "k \<in> set ks"
      "\<forall>j \<in> set ks. \<forall>f. localCache d j = Some f \<longrightarrow> t \<le> LastAccess f"
    using oldest_entry_spec [of ks "localCache d" None k t] assms Some kt
    by (auto simp: map_order_def entry_of_def)
  show ?thesis
  proof (cases "k = []")
    case True
    then have "evict_lru ks d = d" using Some kt by (simp add: evict_lru_def)
    then show ?thesis by (rule nothing) (use e(1) True in simp)
  next
    case False
    have "j \<in> set ks" if "localCache d j = Some f" for j f
      using assms that by (auto simp: map_order_def)
    then show ?thesis
      using e False Some kt by (intro victim [of k e]) (auto simp: evict_lru_def)
  qed
qed

section \<open>The invariant\<close>

definition unreconciled :: "'v degraded_mode \<Rightarrow> nat" where
  "unreconciled d = length (filter (\<lambda>w. \<not> Reconciled w) (pendingWrites d))"

definition flags_ok :: "'v degraded_mode \<Rightarrow> bool" where
  "flags_ok d \<longleftrightarrow>
     (degradedModeActive d \<longleftrightarrow> \<not> (redisAvailable d \<and> dbAvailable d \<and> natsAvailable d))"

definition cache_ok :: "'v degraded_mode \<Rightarrow> bool" where
  "cache_ok d \<longleftrightarrow> finite (dom (localCache d)) \<and> cacheSize d = int (card (dom (localCache d))) \<and>
     localCache d [] = None \<and> 0 < maxCacheSize d \<and> cacheSize d \<le> maxCacheSize d"

definition pending_ok :: "'v degraded_mode \<Rightarrow> bool" where
  "pending_ok d \<longleftrightarrow> 0 < maxPendingWrites d \<and> int (unreconciled d) \<le> maxPendingWrites d \<and>
     0 \<le> currentVersion d \<and> sorted_wrt (<) (map pw_Version (pendingWrites d)) \<and>
     (\<forall>w \<in> set (pendingWrites d). pw_Version w \<le> currentVersion d)"

definition dm_ok :: "'v degraded_mode \<Rightarrow> bool" where
  "dm_ok d \<longleftrightarrow> flags_ok d \<and> cache_ok d \<and> pending_ok d"

lemma dm_ok_new: "dm_ok NewDegradedMode"
  by (simp add: dm_ok_def flags_ok_def cache_ok_def pending_ok_def unreconciled_def NewDegradedMode_def)

lemma drop_oldest_cases:
  "drop_oldest ws = ws \<and> (\<forall>w \<in> set ws. Reconciled w) \<or>
   (\<exists>us w vs. ws = us @ w # vs \<and> drop_oldest ws = us @ vs \<and> \<not> Reconciled w \<and> (\<forall>u \<in> set us. Reconciled u))"
proof (induction ws)
  case (Cons w ws)
  show ?case
  proof (cases "Reconciled w")
    case False
    then have "w # ws = [] @ w # ws \<and> drop_oldest (w # ws) = [] @ ws \<and> \<not> Reconciled w" by simp
    then show ?thesis by (metis empty_iff empty_set)
  next
    case True
    from Cons show ?thesis
    proof (elim disjE exE conjE)
      assume "drop_oldest ws = ws" "\<forall>w \<in> set ws. Reconciled w"
      then show ?thesis using True by simp
    next
      fix us v vs
      assume "ws = us @ v # vs" "drop_oldest ws = us @ vs" "\<not> Reconciled v" "\<forall>u \<in> set us. Reconciled u"
      then have "w # ws = (w # us) @ v # vs \<and> drop_oldest (w # ws) = (w # us) @ vs \<and> \<not> Reconciled v \<and>
          (\<forall>u \<in> set (w # us). Reconciled u)" using True by simp
      then show ?thesis by blast
    qed
  qed
qed simp

text \<open>The parts of \<open>SetInCacheWithTTL\<close> that concern the pending writes, and those of the cache.\<close>

definition trimmed :: "'v degraded_mode \<Rightarrow> 'v pending_write list" where
  "trimmed d = (if maxPendingWrites d \<le> int (length (pendingWrites d))
                then drop_oldest (pendingWrites d) else pendingWrites d)"

definition evicted :: "string list \<Rightarrow> 'v degraded_mode \<Rightarrow> 'v degraded_mode" where
  "evicted ks d = (if maxCacheSize d \<le> cacheSize d then evict_lru ks d else d)"

lemma evict_lru_frame [simp]:
  "pendingWrites (evict_lru ks d) = pendingWrites d" "maxPendingWrites (evict_lru ks d) = maxPendingWrites d"
  "maxCacheSize (evict_lru ks d) = maxCacheSize d" "currentVersion (evict_lru ks d) = currentVersion d"
  "redisAvailable (evict_lru ks d) = redisAvailable d" "dbAvailable (evict_lru ks d) = dbAvailable d"
  "natsAvailable (evict_lru ks d) = natsAvailable d"
  "degradedModeActive (evict_lru ks d) = degradedModeActive d"
  by (simp_all add: evict_lru_def Let_def)

lemma evict_lru_pending [simp]:
  "localCache (evict_lru ks (d\<lparr>pendingWrites := ws\<rparr>)) = localCache (evict_lru ks d)"
  "cacheSize (evict_lru ks (d\<lparr>pendingWrites := ws\<rparr>)) = cacheSize (evict_lru ks d)"
  by (simp_all add: evict_lru_def Let_def)

lemma set_pending:
  "pendingWrites (SetInCacheWithTTL now now' ks key v ttl d) =
     trimmed d @ [\<lparr>pw_Key = key, pw_Value = v, pw_Timestamp = to_unix now', pw_TTL = ttl,
                   pw_Version = wrap64 (currentVersion d + 1), Reconciled = False\<rparr>]"
  "currentVersion (SetInCacheWithTTL now now' ks key v ttl d) = wrap64 (currentVersion d + 1)"
  "maxPendingWrites (SetInCacheWithTTL now now' ks key v ttl d) = maxPendingWrites d"
  by (simp_all add: SetInCacheWithTTL_def trimmed_def Let_def)

lemma set_cache:
  "localCache (SetInCacheWithTTL now now' ks key v ttl d) =
     (localCache (evicted ks d))(key \<mapsto> \<lparr>ce_Value = v, LastAccess = now\<rparr>)"
  "cacheSize (SetInCacheWithTTL now now' ks key v ttl d) =
     cacheSize (evicted ks d) + (if localCache (evicted ks d) key = None then 1 else 0)"
  "maxCacheSize (SetInCacheWithTTL now now' ks key v ttl d) = maxCacheSize d"
  by (simp_all add: SetInCacheWithTTL_def evicted_def Let_def)

lemma set_flags [simp]:
  "flags_ok (SetInCacheWithTTL now now' ks key v ttl d) = flags_ok d"
  by (simp add: SetInCacheWithTTL_def flags_ok_def Let_def)

lemma trimmed_ok:
  assumes "pending_ok d"
  shows "int (length (filter (\<lambda>w. \<not> Reconciled w) (trimmed d))) < maxPendingWrites d \<and>
     sorted_wrt (<) (map pw_Version (trimmed d)) \<and> set (trimmed d) \<subseteq> set (pendingWrites d)"
proof (cases "maxPendingWrites d \<le> int (length (pendingWrites d))")
  case False
  have "int (length (filter (\<lambda>w. \<not> Reconciled w) (pendingWrites d))) \<le> int (length (pendingWrites d))"
    by simp
  with False have "int (length (filter (\<lambda>w. \<not> Reconciled w) (pendingWrites d))) < maxPendingWrites d"
    by linarith
  then show ?thesis using False assms by (simp add: trimmed_def pending_ok_def)
next
  case True
  then have tr: "trimmed d = drop_oldest (pendingWrites d)" by (simp add: trimmed_def)
  from drop_oldest_cases [of "pendingWrites d"] show ?thesis
  proof (elim disjE exE conjE)
    assume "drop_oldest (pendingWrites d) = pendingWrites d" "\<forall>w \<in> set (pendingWrites d). Reconciled w"
    then show ?thesis using assms by (simp add: tr pending_ok_def)
  next
    fix us w vs
    assume ws: "pendingWrites d = us @ w # vs" "drop_oldest (pendingWrites d) = us @ vs" "\<not> Reconciled w"
    then have "unreconciled d = Suc (length (filter (\<lambda>w. \<not> Reconciled w) (us @ vs)))"
      by (simp add: unreconciled_def)
    then show ?thesis using assms ws by (auto simp: tr pending_ok_def sorted_wrt_append)
  qed
qed

lemma set_pending_ok:
  assumes "pending_ok d" "currentVersion d < max_int64"
  shows "pending_ok (SetInCacheWithTTL now now' ks key v ttl d)"
proof -
  have ver: "wrap64 (currentVersion d + 1) = currentVersion d + 1"
    using assms by (simp add: pending_ok_def int64_defs)
  have le: "\<forall>w \<in> set (trimmed d). pw_Version w \<le> currentVersion d"
    using trimmed_ok [OF assms(1)] assms(1) by (auto simp: pending_ok_def)
  then have "sorted_wrt (<) (map pw_Version (trimmed d) @ [currentVersion d + 1])"
    using trimmed_ok [OF assms(1)] by (auto simp: sorted_wrt_append)
  then show ?thesis
    using trimmed_ok [OF assms(1)] assms(1) le
    by (auto simp: pending_ok_def set_pending ver unreconciled_def)
qed

lemma evicted_ok:
  assumes "cache_ok d" "map_order (localCache d) ks"
  shows "cache_ok (evicted ks d) \<and> cacheSize (evicted ks d) < maxCacheSize d"
proof (cases "maxCacheSize d \<le> cacheSize d")
  case False
  then show ?thesis using assms by (simp add: evicted_def)
next
  case True
  show ?thesis
  proof (cases rule: evict_lru_spec [OF assms(2)])
    case 1
    then show ?thesis using assms(1) True by (auto simp: cache_ok_def)
  next
    case (2 k e)
    have "card (dom (localCache d)) = Suc (card (dom (localCache d) - {k}))"
      using assms(1) 2(1) by (intro card.remove) (auto simp: cache_ok_def)
    then show ?thesis
      using assms(1) True 2(2,3) by (auto simp: evicted_def cache_ok_def dom_def [symmetric])
  qed
qed

lemma set_cache_ok:
  assumes "cache_ok d" "map_order (localCache d) ks" "key \<noteq> []"
  shows "cache_ok (SetInCacheWithTTL now now' ks key v ttl d)"
proof -
  have ok: "cache_ok (evicted ks d)" "cacheSize (evicted ks d) < maxCacheSize d"
    using evicted_ok [OF assms(1,2)] by simp_all
  have "maxCacheSize (evicted ks d) = maxCacheSize d" by (simp add: evicted_def)
  moreover have "card (insert key (dom (localCache (evicted ks d)))) =
      card (dom (localCache (evicted ks d))) + (if localCache (evicted ks d) key = None then 1 else 0)"
    using ok(1) by (auto simp: cache_ok_def insert_absorb domIff)
  ultimately show ?thesis using ok assms(3) by (auto simp: cache_ok_def set_cache)
qed

section \<open>Runs\<close>

text \<open>Every locked section, in any order. The cache is never written under the empty key, and fewer
  than \<open>2^63\<close> writes are made.\<close>

inductive dm_reach :: "'v degraded_mode \<Rightarrow> bool" where
  fresh: "dm_reach NewDegradedMode"
| set_in_cache: "dm_reach d \<Longrightarrow> map_order (localCache d) ks \<Longrightarrow> key \<noteq> [] \<Longrightarrow>
    currentVersion d < max_int64 \<Longrightarrow> dm_reach (SetInCacheWithTTL now now' ks key v ttl d)"
| get_from_cache: "dm_reach d \<Longrightarrow> dm_reach (snd (GetFromCache now key d))"
| clear: "dm_reach d \<Longrightarrow> dm_reach (ClearCache d)"
| redis_down: "dm_reach d \<Longrightarrow> dm_reach (MarkRedisUnavailable now d)"
| redis_up: "dm_reach d \<Longrightarrow> dm_reach (MarkRedisAvailable d)"
| db_down: "dm_reach d \<Longrightarrow> dm_reach (MarkDBUnavailable now d)"
| db_up: "dm_reach d \<Longrightarrow> dm_reach (MarkDBAvailable d)"
| mark: "dm_reach d \<Longrightarrow> dm_reach (mark_reconciled i d)"
| clean: "dm_reach d \<Longrightarrow> dm_reach (clean_up d)"

lemma flag_steps [inv_intros]:
  "dm_ok d \<Longrightarrow> dm_ok (MarkRedisUnavailable now d)" "dm_ok d \<Longrightarrow> dm_ok (MarkRedisAvailable d)"
  "dm_ok d \<Longrightarrow> dm_ok (MarkDBUnavailable now d)" "dm_ok d \<Longrightarrow> dm_ok (MarkDBAvailable d)"
  by (auto simp: dm_ok_def flags_ok_def cache_ok_def pending_ok_def unreconciled_def
      MarkRedisUnavailable_def MarkRedisAvailable_def MarkDBUnavailable_def MarkDBAvailable_def
      checkDegradedMode_def)

lemma get_ok [inv_intros]: "dm_ok d \<Longrightarrow> dm_ok (snd (GetFromCache now key d))"
  by (cases "localCache d key")
    (auto simp: GetFromCache_def dm_ok_def flags_ok_def cache_ok_def pending_ok_def unreconciled_def
      insert_absorb domIff)

lemma clear_ok [inv_intros]: "dm_ok d \<Longrightarrow> dm_ok (ClearCache d)"
  by (simp add: ClearCache_def dm_ok_def flags_ok_def cache_ok_def pending_ok_def unreconciled_def)

lemma mark_fewer:
  "i < length ws \<Longrightarrow> length (filter (\<lambda>w. \<not> Reconciled w) (ws[i := (ws ! i)\<lparr>Reconciled := True\<rparr>])) \<le>
   length (filter (\<lambda>w. \<not> Reconciled w) ws)"
proof (induction ws arbitrary: i)
  case (Cons w ws)
  show ?case
  proof (cases i)
    case (Suc j)
    then show ?thesis using Cons.IH [of j] Cons.prems by simp
  qed simp
qed simp

lemma map_mark: "map pw_Version (ws[i := (ws ! i)\<lparr>Reconciled := b\<rparr>]) = map pw_Version ws"
  by (simp add: map_update) (metis list_update_id list_update_beyond map_update not_less nth_map)

lemma mark_ok [inv_intros]:
  assumes "dm_ok d"
  shows "dm_ok (mark_reconciled i d)"
proof (cases "i < length (pendingWrites d)")
  case True
  let ?ws = "(pendingWrites d)[i := (pendingWrites d ! i)\<lparr>Reconciled := True\<rparr>]"
  have "pw_Version ` set ?ws = pw_Version ` set (pendingWrites d)"
    using arg_cong [OF map_mark [of "pendingWrites d" i True], of set] by simp
  then have "\<forall>w \<in> set ?ws. pw_Version w \<le> currentVersion d"
    using assms unfolding dm_ok_def pending_ok_def by (metis imageI imageE)
  then show ?thesis
    using assms mark_fewer [OF True] True
    by (simp add: mark_reconciled_def dm_ok_def flags_ok_def cache_ok_def pending_ok_def
        unreconciled_def map_mark)
qed (use assms in \<open>simp add: mark_reconciled_def\<close>)

lemma clean_ok [inv_intros]: "dm_ok d \<Longrightarrow> dm_ok (clean_up d)"
  by (auto simp: clean_up_def dm_ok_def flags_ok_def cache_ok_def pending_ok_def unreconciled_def
      sorted_wrt_map intro: sorted_wrt_filter)

lemma dm_reach_ok: "dm_reach d \<Longrightarrow> dm_ok d \<and> maxCacheSize d = 10000 \<and> maxPendingWrites d = 10000"
proof (induction rule: dm_reach.induct)
  case fresh
  then show ?case using dm_ok_new by (simp add: NewDegradedMode_def)
next
  case (set_in_cache d ks key now now' v ttl)
  then show ?case
    using set_cache_ok [of d ks key] set_pending_ok [of d]
    by (auto simp: dm_ok_def set_pending set_cache)
qed (auto intro: inv_intros, auto simp: GetFromCache_def ClearCache_def MarkRedisUnavailable_def
    MarkRedisAvailable_def MarkDBUnavailable_def MarkDBAvailable_def checkDegradedMode_def
    mark_reconciled_def clean_up_def split: option.splits)


text \<open>
  The eviction is LRU: a write into a full cache whose counter is right removes exactly one entry, one whose last
  access
  is not later than any other's, and adds the new one; the rest of the cache stays.
\<close>

theorem eviction_is_lru:
  assumes "cache_ok d" "map_order (localCache d) ks" "cacheSize d = maxCacheSize d"
  shows "\<exists>victim e. localCache d victim = Some e \<and>
     (\<forall>k f. localCache d k = Some f \<longrightarrow> LastAccess e \<le> LastAccess f) \<and>
     localCache (SetInCacheWithTTL now now' ks key v ttl d) =
       (localCache d)(victim := None, key \<mapsto> \<lparr>ce_Value = v, LastAccess = now\<rparr>)"
proof (cases rule: evict_lru_spec [OF assms(2)])
  case 1
  then show ?thesis using assms(1,3) by (auto simp: cache_ok_def)
next
  case (2 k e)
  then show ?thesis using assms(3) by (auto simp: set_cache evicted_def)
qed

section \<open>Witnesses\<close>

text \<open>One write after another, each in the next second.\<close>

definition two_cached :: "nat degraded_mode" where
  "two_cached = SetInCacheWithTTL (2 * second) (2 * second) [''a''] ''b'' 2 0
     (SetInCacheWithTTL (1 * second) (1 * second) [] ''a'' 1 0 NewDegradedMode)"

lemma two_cached_reach: "dm_reach two_cached"
  unfolding two_cached_def
  by (intro dm_reach.set_in_cache dm_reach.fresh)
    (simp_all add: map_order_def set_cache set_pending evicted_def NewDegradedMode_def int64_defs)


lemma two_cached_cache:
  "localCache two_cached = [''a'' \<mapsto> \<lparr>ce_Value = 1, LastAccess = 1000000000\<rparr>,
     ''b'' \<mapsto> \<lparr>ce_Value = 2, LastAccess = 2000000000\<rparr>]" "cacheSize two_cached = 2"
  by (simp_all add: two_cached_def set_cache evicted_def NewDegradedMode_def)

theorem eviction_is_lru_witness:
  "\<exists>victim. localCache (SetInCacheWithTTL 5 5 [''b'', ''a''] ''c'' 3 0 (two_cached\<lparr>maxCacheSize := 2\<rparr>)) victim = None \<and>
     localCache two_cached victim \<noteq> None"
proof -
  let ?d = "two_cached\<lparr>maxCacheSize := 2\<rparr>"
  have "cache_ok ?d" by (simp add: cache_ok_def two_cached_cache)
  moreover have "map_order (localCache ?d) [''b'', ''a'']" by (auto simp: map_order_def two_cached_cache)
  ultimately obtain victim where "localCache ?d victim \<noteq> None"
      "localCache (SetInCacheWithTTL 5 5 [''b'', ''a''] ''c'' 3 0 ?d) =
        (localCache ?d)(victim := None, ''c'' \<mapsto> \<lparr>ce_Value = 3, LastAccess = 5\<rparr>)"
    using eviction_is_lru [of ?d "[''b'', ''a'']" 5 5 "''c''" 3 0] by (auto simp: two_cached_cache)
  then show ?thesis by (intro exI [of _ victim]) (auto simp: two_cached_cache split: if_splits)
qed

end
