(* ===== verification/PendingSync.thy ===== *)
theory PendingSync
  imports DegradedMode
begin

text \<open>
  \<open>resilience/reconciliation.go\<close> and \<open>errors.go\<close>: the pending writes of degraded mode are sent to a
  versioned store once Redis is back.

  The store is an implementation of \<open>VersionedRedisWriter\<close>, a parameter: its two methods are the
  fields of \<open>versioned_writer\<close> over a state \<open>'r\<close>. What the loop relies on is the contract
  \<open>versioned_store\<close>: a write never replaces a stored value by one that is not newer. It is interpreted
  here on the store of the tests and in \<open>RedisVersioned\<close> on the Lua scripts.

  The loop takes the mutex of the degraded mode only to copy the list, to mark an entry and to clean
  up; in between, other goroutines may write to the cache and other nodes to the store. \<open>env i p\<close> is
  what they do before point \<open>p\<close> of round \<open>i\<close>; \<open>quiet\<close> is the run they leave alone.
\<close>

section \<open>The versioned store\<close>

record 'v versioned_value =
  vv_Value :: 'v
  vv_Version :: int
  vv_Timestamp :: int

record ('r, 'v) versioned_writer =
  GetVersioned :: "string \<Rightarrow> 'r \<Rightarrow> go_error + 'v versioned_value option"
  SetVersioned :: "string \<Rightarrow> 'v versioned_value \<Rightarrow> duration \<Rightarrow> 'r \<Rightarrow> go_error option \<times> 'r"

text \<open>No key loses its value or goes back to an older version, and a version is never reused.\<close>

definition no_rollback ::
  "(string \<Rightarrow> 'v versioned_value option) \<Rightarrow> (string \<Rightarrow> 'v versioned_value option) \<Rightarrow> bool" where
  "no_rollback v v' \<longleftrightarrow> (\<forall>k x. v k = Some x \<longrightarrow>
     (\<exists>y. v' k = Some y \<and> (y = x \<or> vv_Version x < vv_Version y)))"

lemma no_rollback_refl [simp]: "no_rollback v v"
  by (simp add: no_rollback_def)

lemma no_rollback_trans: "no_rollback u v \<Longrightarrow> no_rollback v w \<Longrightarrow> no_rollback u w"
proof (unfold no_rollback_def, intro allI impI)
  fix k x
  assume 1: "\<forall>k x. u k = Some x \<longrightarrow> (\<exists>y. v k = Some y \<and> (y = x \<or> vv_Version x < vv_Version y))"
    and 2: "\<forall>k x. v k = Some x \<longrightarrow> (\<exists>y. w k = Some y \<and> (y = x \<or> vv_Version x < vv_Version y))"
    and "u k = Some x"
  then obtain y where "v k = Some y" "y = x \<or> vv_Version x < vv_Version y" by blast
  moreover from this(1) 2 obtain z where "w k = Some z" "z = y \<or> vv_Version y < vv_Version z" by blast
  ultimately show "\<exists>y. w k = Some y \<and> (y = x \<or> vv_Version x < vv_Version y)" by fastforce
qed

text \<open>
  The same for two states of a store that is sound (\<open>ok\<close>: it holds nothing its methods cannot read).
\<close>

definition advances ::
  "('r \<Rightarrow> bool) \<Rightarrow> ('r \<Rightarrow> string \<Rightarrow> 'v versioned_value option) \<Rightarrow> 'r \<Rightarrow> 'r \<Rightarrow> bool" where
  "advances ok view r r' \<longleftrightarrow> (ok r \<longrightarrow> ok r' \<and> no_rollback (view r) (view r'))"

lemma advances_refl [simp]: "advances ok view r r"
  by (simp add: advances_def)

lemma advances_trans: "advances ok view r s \<Longrightarrow> advances ok view s u \<Longrightarrow> advances ok view r u"
  unfolding advances_def by (blast intro: no_rollback_trans)

text \<open>
  The contract: what is read is stored; a write of a value the store can represent (\<open>valid\<close>) never rolls
  the store back, and has stored its value if it reports no error. A write that reports an error may have
  taken effect all the same, and a read that fails says nothing.
\<close>

locale versioned_store =
  fixes w :: "('r, 'v) versioned_writer" and view :: "'r \<Rightarrow> string \<Rightarrow> 'v versioned_value option"
    and ok :: "'r \<Rightarrow> bool" and valid :: "'v versioned_value \<Rightarrow> bool"
  assumes get_value: "ok r \<Longrightarrow> GetVersioned w k r = Inr (Some x) \<Longrightarrow> view r k = Some x"
    and set_advances: "valid x \<Longrightarrow> advances ok view r (snd (SetVersioned w k x ttl r))"
    and set_stores: "ok r \<Longrightarrow> valid x \<Longrightarrow> SetVersioned w k x ttl r = (None, r') \<Longrightarrow> view r' k = Some x"

section \<open>The loop\<close>

datatype sync_result = SyncSucceeded | SyncSkipped | SyncFailed

datatype sync_point = BeforeGet | BeforeSet | BeforeMark | BeforeCleanUp

type_synonym ('r, 'v) sync_state = "'v degraded_mode \<times> 'r"
type_synonym ('r, 'v) sync_env = "nat \<Rightarrow> sync_point \<Rightarrow> ('r, 'v) sync_state \<Rightarrow> ('r, 'v) sync_state"

definition quiet :: "('r, 'v) sync_env" where
  "quiet = (\<lambda>i p st. st)"

lemma quiet_apply: "quiet i p st = st"
  by (simp add: quiet_def)

definition mark :: "('r, 'v) sync_env \<Rightarrow> nat \<Rightarrow> ('r, 'v) sync_state \<Rightarrow> ('r, 'v) sync_state" where
  "mark env i st = (let (d, r) = env i BeforeMark st in (mark_reconciled i d, r))"

definition stale_write :: "gotime \<Rightarrow> 'v pending_write \<Rightarrow> bool" where
  "stale_write now x \<longleftrightarrow> 5 * minute < time_sub now (of_unix (pw_Timestamp x))"

definition to_versioned :: "'v pending_write \<Rightarrow> 'v versioned_value" where
  "to_versioned x =
     \<lparr>vv_Value = pw_Value x, vv_Version = pw_Version x, vv_Timestamp = pw_Timestamp x\<rparr>"

text \<open>One round: the \<open>i\<close>-th entry \<open>x\<close> of the copied list.\<close>

definition sync_write ::
  "('r, 'v) versioned_writer \<Rightarrow> ('r, 'v) sync_env \<Rightarrow> gotime \<Rightarrow> nat \<Rightarrow> 'v pending_write \<Rightarrow>
   ('r, 'v) sync_state \<Rightarrow> sync_result \<times> ('r, 'v) sync_state"
where
  "sync_write w env now i x st =
     (if Reconciled x then (SyncSkipped, st)
      else if stale_write now x then (SyncFailed, mark env i st)
      else
        let st1 = env i BeforeGet st;
            got = GetVersioned w (pw_Key x) (snd st1)
        in if (case got of Inl e \<Rightarrow> e \<noteq> ''not found'' | Inr _ \<Rightarrow> False) then (SyncFailed, st1)
           else if (case got of Inr (Some y) \<Rightarrow> pw_Version x \<le> vv_Version y | _ \<Rightarrow> False)
           then (SyncSkipped, mark env i st1)
           else
             let (d, r) = env i BeforeSet st1;
                 (err, r') = SetVersioned w (pw_Key x) (to_versioned x) (pw_TTL x) r
             in if err \<noteq> None then (SyncFailed, (d, r'))
                else (SyncSucceeded, mark env i (d, r')))"

fun sync_loop ::
  "('r, 'v) versioned_writer \<Rightarrow> ('r, 'v) sync_env \<Rightarrow> (nat \<Rightarrow> gotime) \<Rightarrow> nat \<Rightarrow> 'v pending_write list \<Rightarrow>
   ('r, 'v) sync_state \<Rightarrow> sync_result list \<times> ('r, 'v) sync_state"
where
  "sync_loop w env clk i [] st = ([], st)"
| "sync_loop w env clk i (x # xs) st =
     (let (a, st') = sync_write w env (clk i) i x st;
          (as, st'') = sync_loop w env clk (Suc i) xs st'
      in (a # as, st''))"

record reconciliation_error =
  re_Total :: nat
  re_Success :: nat
  re_Skipped :: nat
  re_Failed :: nat

definition ReconcilePendingWrites ::
  "('r, 'v) versioned_writer \<Rightarrow> ('r, 'v) sync_env \<Rightarrow> (nat \<Rightarrow> gotime) \<Rightarrow> ('r, 'v) sync_state \<Rightarrow>
   (reconciliation_error + unit) \<times> ('r, 'v) sync_state"
where
  "ReconcilePendingWrites w env clk st =
     (let pending = pendingWrites (fst st) in
      if pending = [] then (Inr (), st)
      else
        let (as, st') = sync_loop w env clk 0 pending st;
            (d, r) = env (length pending) BeforeCleanUp st';
            failCount = length (filter (\<lambda>a. a = SyncFailed) as)
        in (if 0 < failCount
            then Inl \<lparr>re_Total = length pending,
                      re_Success = length (filter (\<lambda>a. a = SyncSucceeded) as),
                      re_Skipped = length (filter (\<lambda>a. a = SyncSkipped) as),
                      re_Failed = failCount\<rparr>
            else Inr (), (clean_up d, r)))"

definition MarkRedisAvailableWithReconciliation ::
  "('r, 'v) versioned_writer \<Rightarrow> ('r, 'v) sync_env \<Rightarrow> (nat \<Rightarrow> gotime) \<Rightarrow> ('r, 'v) sync_state \<Rightarrow>
   (reconciliation_error + unit) \<times> ('r, 'v) sync_state"
where
  "MarkRedisAvailableWithReconciliation w env clk st =
     (let (d, r) = st; d' = checkDegradedMode (d\<lparr>redisAvailable := True\<rparr>) in
      if \<not> redisAvailable d then ReconcilePendingWrites w env clk (d', r)
      else (Inr (), (d', r)))"

section \<open>What the contract gives the loop\<close>

text \<open>An environment that does not roll the store back, and writes the store can represent.\<close>

definition env_ok ::
  "('r \<Rightarrow> bool) \<Rightarrow> ('r \<Rightarrow> string \<Rightarrow> 'v versioned_value option) \<Rightarrow> ('r, 'v) sync_env \<Rightarrow> bool" where
  "env_ok ok view env \<longleftrightarrow> (\<forall>i p st. advances ok view (snd st) (snd (env i p st)))"

lemma env_okD: "env_ok ok view env \<Longrightarrow> advances ok view (snd st) (snd (env i p st))"
  unfolding env_ok_def by blast

definition valid_writes :: "('v versioned_value \<Rightarrow> bool) \<Rightarrow> 'v pending_write list \<Rightarrow> bool" where
  "valid_writes valid xs \<longleftrightarrow> list_all (\<lambda>x. valid (to_versioned x)) xs"

lemma valid_writes_simps [simp]:
  "valid_writes valid []"
  "valid_writes valid (x # xs) \<longleftrightarrow> valid (to_versioned x) \<and> valid_writes valid xs"
  by (simp_all add: valid_writes_def)

lemma valid_writes_True [simp]: "valid_writes (\<lambda>x. True) xs"
  by (induction xs) simp_all

lemma snd_mark [simp]: "snd (mark env i st) = snd (env i BeforeMark st)"
  by (simp add: mark_def split_beta Let_def)

lemma env_ok_quiet [simp]: "env_ok ok view quiet"
  by (simp add: env_ok_def quiet_def)

text \<open>A round with its three states named: after the environment's two turns, after the write.\<close>

lemma sync_write_eq:
  "sync_write w env now i x st =
     (let st1 = env i BeforeGet st; st2 = env i BeforeSet st1;
          sr = SetVersioned w (pw_Key x) (to_versioned x) (pw_TTL x) (snd st2) in
      if Reconciled x then (SyncSkipped, st)
      else if stale_write now x then (SyncFailed, mark env i st)
      else if (case GetVersioned w (pw_Key x) (snd st1) of Inl e \<Rightarrow> e \<noteq> ''not found'' | Inr _ \<Rightarrow> False)
      then (SyncFailed, st1)
      else if (case GetVersioned w (pw_Key x) (snd st1) of
                 Inr (Some y) \<Rightarrow> pw_Version x \<le> vv_Version y | _ \<Rightarrow> False)
      then (SyncSkipped, mark env i st1)
      else if fst sr \<noteq> None then (SyncFailed, (fst st2, snd sr))
      else (SyncSucceeded, mark env i (fst st2, snd sr)))"
  unfolding sync_write_def Let_def split_beta ..

context versioned_store
begin

lemma write_advances:
  assumes env: "env_ok ok view env" and x: "valid (to_versioned x)"
  shows "advances ok view (snd st) (snd (snd (sync_write w env now i x st)))"
proof -
  define st1 where "st1 = env i BeforeGet st"
  define st2 where "st2 = env i BeforeSet st1"
  define sr where "sr = SetVersioned w (pw_Key x) (to_versioned x) (pw_TTL x) (snd st2)"
  have 1: "advances ok view (snd st) (snd st1)" unfolding st1_def by (rule env_okD [OF env])
  have 2: "advances ok view (snd st) (snd st2)"
    unfolding st2_def by (rule advances_trans [OF 1 env_okD [OF env]])
  have 3: "advances ok view (snd st) (snd sr)"
    unfolding sr_def by (rule advances_trans [OF 2 set_advances [OF x]])
  have m: "advances ok view (snd st) (snd (mark env i s))"
    if "advances ok view (snd st) (snd s)" for s
    unfolding snd_mark by (rule advances_trans [OF that env_okD [OF env]])
  show ?thesis
    unfolding sync_write_eq Let_def st1_def [symmetric] st2_def [symmetric] sr_def [symmetric]
    using 1 3 m [of st] m [of st1] m [of "(fst st2, snd sr)"]
    by (simp only: if_splits snd_conv advances_refl) simp
qed

lemma loop_advances:
  "env_ok ok view env \<Longrightarrow> valid_writes valid xs \<Longrightarrow>
   advances ok view (snd st) (snd (snd (sync_loop w env clk i xs st)))"
proof (induction xs arbitrary: i st)
  case (Cons x xs)
  then show ?case
    using advances_trans [OF write_advances [OF Cons.prems(1), of x st "clk i" i]]
    by (simp add: split_beta Let_def)
qed simp

lemma reconcile_advances:
  assumes "env_ok ok view env" "valid_writes valid (pendingWrites (fst st))"
  shows "advances ok view (snd st) (snd (snd (ReconcilePendingWrites w env clk st)))"
proof -
  define st' where "st' = snd (sync_loop w env clk 0 (pendingWrites (fst st)) st)"
  have "advances ok view (snd st) (snd (env n BeforeCleanUp st'))" for n
    unfolding st'_def by (rule advances_trans [OF loop_advances [OF assms] env_okD [OF assms(1)]])
  then show ?thesis by (simp add: ReconcilePendingWrites_def Let_def split_beta st'_def)
qed

text \<open>The store holds the write, or something newer under its key.\<close>

definition delivered :: "'r \<Rightarrow> 'v pending_write \<Rightarrow> bool" where
  "delivered r x \<longleftrightarrow> (\<exists>y. view r (pw_Key x) = Some y \<and> pw_Version x \<le> vv_Version y)"

lemma delivered_mono: "advances ok view r r' \<Longrightarrow> ok r \<Longrightarrow> delivered r x \<Longrightarrow> delivered r' x"
  unfolding advances_def no_rollback_def delivered_def by fastforce

lemma quiet_write:
  assumes "sync_write w quiet now i x (d, r) = (a, (d', r'))" "ok r" "valid (to_versioned x)"
  shows "d' = d \<and> (a = SyncFailed \<or> Reconciled x) \<or>
    d' = mark_reconciled i d \<and> (stale_write now x \<and> a = SyncFailed \<or> delivered r' x)"
proof -
  let ?g = "GetVersioned w (pw_Key x) r"
  obtain err r1 where s: "SetVersioned w (pw_Key x) (to_versioned x) (pw_TTL x) r = (err, r1)"
    by fastforce
  have newer: "delivered r x" if "?g = Inr (Some y)" "pw_Version x \<le> vv_Version y" for y
    using get_value [OF assms(2)] that by (auto simp: delivered_def)
  have sent: "delivered r1 x" if "err = None"
    using set_stores [OF assms(2,3)] s that by (auto simp: delivered_def to_versioned_def)
  have "(a, (d', r')) =
     (if Reconciled x then (SyncSkipped, (d, r))
      else if stale_write now x then (SyncFailed, (mark_reconciled i d, r))
      else if (case ?g of Inl e \<Rightarrow> e \<noteq> ''not found'' | Inr _ \<Rightarrow> False) then (SyncFailed, (d, r))
      else if (case ?g of Inr (Some y) \<Rightarrow> pw_Version x \<le> vv_Version y | _ \<Rightarrow> False)
      then (SyncSkipped, (mark_reconciled i d, r))
      else if err \<noteq> None then (SyncFailed, (d, r1))
      else (SyncSucceeded, (mark_reconciled i d, r1)))"
    unfolding assms(1) [symmetric] sync_write_eq by (simp add: mark_def s quiet_apply)
  then show ?thesis
    using newer sent by (auto split: if_splits sum.splits option.splits)
qed

lemma quiet_loop:
  assumes "sync_loop w quiet clk i xs (d, r) = (as, (d', r'))" "drop i (pendingWrites d) = xs"
    and "ok r" "valid_writes valid xs"
  shows "length (pendingWrites d') = length (pendingWrites d) \<and> length as = length xs \<and>
    (\<forall>j<i. pendingWrites d' ! j = pendingWrites d ! j) \<and>
    (\<forall>j<length xs.
       (pendingWrites d' ! (i + j) = xs ! j \<and> (as ! j = SyncFailed \<or> Reconciled (xs ! j))) \<or>
       Reconciled (pendingWrites d' ! (i + j)) \<and>
       (stale_write (clk (i + j)) (xs ! j) \<and> as ! j = SyncFailed \<or> delivered r' (xs ! j)))"
  using assms
proof (induction xs arbitrary: i d r as)
  case (Cons x xs)
  have i: "i < length (pendingWrites d)" "pendingWrites d ! i = x"
    using Cons.prems(2) by (metis drop_all list.distinct(1) not_less)
      (metis Cons.prems(2) drop_all hd_drop_conv_nth list.distinct(1) list.sel(1) not_less)
  obtain a d1 r1 where s: "sync_write w quiet (clk i) i x (d, r) = (a, (d1, r1))" by (metis prod.exhaust)
  obtain bs where l: "sync_loop w quiet clk (Suc i) xs (d1, r1) = (bs, (d', r'))" "as = a # bs"
    using Cons.prems(1) s by (auto simp: Let_def split: prod.splits)
  have ok: "ok r" "valid (to_versioned x)" "valid_writes valid xs" using Cons.prems(3,4) by simp_all
  note q = quiet_write [OF s ok(1,2)]
  have ok1: "ok r1" using write_advances [OF env_ok_quiet ok(2), of "(d, r)" "clk i" i] s ok(1) by (simp add: advances_def)
  have d1: "length (pendingWrites d1) = length (pendingWrites d)"
    "\<forall>j. j \<noteq> i \<longrightarrow> pendingWrites d1 ! j = pendingWrites d ! j"
    using q i by (auto simp: mark_reconciled_def)
  have "drop (Suc i) (pendingWrites d1) = xs"
  proof -
    have "drop (Suc i) (pendingWrites d) = xs" using Cons.prems(2) by (metis drop_Suc list.sel(3) tl_drop)
    moreover have "drop (Suc i) (pendingWrites d1) = drop (Suc i) (pendingWrites d)"
      using q by (auto simp: mark_reconciled_def)
    ultimately show ?thesis by simp
  qed
  note IH = Cons.IH [OF l(1) this ok1 ok(3)]
  have nr: "advances ok view r1 r'"
    using loop_advances [OF env_ok_quiet ok(3), of "(d1, r1)" clk "Suc i"] l(1) by simp
  have at_i: "pendingWrites d' ! i = pendingWrites d1 ! i" using IH by simp
  have "(pendingWrites d' ! i = x \<and> (a = SyncFailed \<or> Reconciled x)) \<or>
       Reconciled (pendingWrites d' ! i) \<and> (stale_write (clk i) x \<and> a = SyncFailed \<or> delivered r' x)"
    using q i delivered_mono [OF nr ok1] unfolding at_i by (auto simp: mark_reconciled_def)
  moreover have "(pendingWrites d' ! (i + j) = (x # xs) ! j \<and> (as ! j = SyncFailed \<or> Reconciled ((x # xs) ! j))) \<or>
       Reconciled (pendingWrites d' ! (i + j)) \<and>
       (stale_write (clk (i + j)) ((x # xs) ! j) \<and> as ! j = SyncFailed \<or> delivered r' ((x # xs) ! j))"
    if "j < length (x # xs)" "j = Suc k" for j k
    using IH that l(2) by auto
  ultimately have "(pendingWrites d' ! (i + j) = (x # xs) ! j \<and> (as ! j = SyncFailed \<or> Reconciled ((x # xs) ! j))) \<or>
       Reconciled (pendingWrites d' ! (i + j)) \<and>
       (stale_write (clk (i + j)) ((x # xs) ! j) \<and> as ! j = SyncFailed \<or> delivered r' ((x # xs) ! j))"
    if "j < length (x # xs)" for j
    using that l(2) by (cases j) auto
  then show ?case using IH d1 l(2) by auto
qed simp

lemma quiet_reconcile:
  assumes "ReconcilePendingWrites w quiet clk (d, r) = (res, (d', r'))"
    and "ok r" "valid_writes valid (pendingWrites d)"
  shows "\<forall>x \<in> set (pendingWrites d). \<not> Reconciled x \<longrightarrow>
      x \<in> set (pendingWrites d') \<or> (\<exists>i. stale_write (clk i) x) \<or> delivered r' x"
    and "res = Inr () \<Longrightarrow> pendingWrites d' = []"
proof -
  let ?ws = "pendingWrites d"
  obtain as d1 r1 where l: "sync_loop w quiet clk 0 ?ws (d, r) = (as, (d1, r1))" by (metis prod.exhaust)
  have q: "length (pendingWrites d1) = length ?ws" "length as = length ?ws"
    "\<And>j. j < length ?ws \<Longrightarrow>
       (pendingWrites d1 ! j = ?ws ! j \<and> (as ! j = SyncFailed \<or> Reconciled (?ws ! j))) \<or>
       Reconciled (pendingWrites d1 ! j) \<and>
       (stale_write (clk j) (?ws ! j) \<and> as ! j = SyncFailed \<or> delivered r1 (?ws ! j))"
    using quiet_loop [OF l _ assms(2,3)] by simp_all
  consider (empty) "?ws = []" "res = Inr ()" "d' = d" "r' = r"
    | (some) "?ws \<noteq> []" "d' = clean_up d1" "r' = r1"
        "res = Inr () \<longleftrightarrow> filter (\<lambda>a. a = SyncFailed) as = []"
  proof (cases "?ws = []")
    case True
    show ?thesis by (rule empty [OF True]) (use assms True in \<open>simp_all add: ReconcilePendingWrites_def\<close>)
  next
    case False
    then have "ReconcilePendingWrites w quiet clk (d, r) =
      (if filter (\<lambda>a. a = SyncFailed) as \<noteq> []
       then Inl \<lparr>re_Total = length ?ws,
                 re_Success = length (filter (\<lambda>a. a = SyncSucceeded) as),
                 re_Skipped = length (filter (\<lambda>a. a = SyncSkipped) as),
                 re_Failed = length (filter (\<lambda>a. a = SyncFailed) as)\<rparr>
       else Inr (), (clean_up d1, r1))"
      by (simp add: ReconcilePendingWrites_def Let_def l quiet_apply [of "length ?ws" BeforeCleanUp "(d1, r1)"])
    then obtain e where e: "ReconcilePendingWrites w quiet clk (d, r) =
      (if filter (\<lambda>a. a = SyncFailed) as \<noteq> [] then Inl e else Inr (), (clean_up d1, r1))" by blast
    have "res = (if filter (\<lambda>a. a = SyncFailed) as \<noteq> [] then Inl e else Inr ())"
      "d' = clean_up d1" "r' = r1"
      using e unfolding assms(1) by simp_all
    then show ?thesis by (rule_tac some [OF False]) simp_all
  qed
  note outcome = this
  show "\<forall>x \<in> set ?ws. \<not> Reconciled x \<longrightarrow>
      x \<in> set (pendingWrites d') \<or> (\<exists>i. stale_write (clk i) x) \<or> delivered r' x"
    using outcome
  proof cases
    case some
    show ?thesis
    proof (intro ballI impI)
      fix x assume x: "x \<in> set ?ws" "\<not> Reconciled x"
      then obtain j where j: "j < length ?ws" "x = ?ws ! j" by (metis in_set_conv_nth)
      have "pendingWrites d1 ! j \<in> set (pendingWrites d1)" using j q(1) by simp
      then show "x \<in> set (pendingWrites d') \<or> (\<exists>i. stale_write (clk i) x) \<or> delivered r' x"
        using q(3) [OF j(1)] x j(2) some(2,3) by (auto simp: clean_up_def)
    qed
  qed simp
  show "pendingWrites d' = []" if fine: "res = Inr ()"
    using outcome
  proof cases
    case some
    then have "as ! j \<noteq> SyncFailed" if "j < length ?ws" for j
      using fine q(2) that by (auto simp: filter_empty_conv)
    then have "Reconciled (pendingWrites d1 ! j)" if "j < length (pendingWrites d1)" for j
      using q(3) [of j] q(1) that by force
    then have "\<forall>x \<in> set (pendingWrites d1). Reconciled x" by (metis in_set_conv_nth)
    then show ?thesis using some(2) by (simp add: clean_up_def filter_empty_conv)
  qed simp
qed

end

section \<open>The versioned store of the tests\<close>

definition mock_GetVersioned ::
  "string \<Rightarrow> (string \<rightharpoonup> 'v versioned_value) \<Rightarrow> go_error + 'v versioned_value option" where
  "mock_GetVersioned key m = (case m key of Some x \<Rightarrow> Inr (Some x) | None \<Rightarrow> Inl ''not found'')"

definition mock_SetVersioned ::
  "string \<Rightarrow> 'v versioned_value \<Rightarrow> duration \<Rightarrow> (string \<rightharpoonup> 'v versioned_value) \<Rightarrow>
   go_error option \<times> (string \<rightharpoonup> 'v versioned_value)" where
  "mock_SetVersioned key x ttl m =
     (case m key of
        Some y \<Rightarrow>
          if vv_Version x \<le> vv_Version y
          then (Some (''version conflict: existing '' @ itoa (vv_Version y) @ '' >= new '' @
                      itoa (vv_Version x)), m)
          else (None, m(key \<mapsto> x))
      | None \<Rightarrow> (None, m(key \<mapsto> x)))"

definition mockVersionedRedis :: "(string \<rightharpoonup> 'v versioned_value, 'v) versioned_writer" where
  "mockVersionedRedis = \<lparr>GetVersioned = mock_GetVersioned, SetVersioned = mock_SetVersioned\<rparr>"

interpretation mock_redis: versioned_store mockVersionedRedis "\<lambda>m. m" "\<lambda>m. True" "\<lambda>x. True"
  by unfold_locales (auto simp: mockVersionedRedis_def mock_GetVersioned_def mock_SetVersioned_def
      advances_def no_rollback_def split: option.splits if_splits)

section \<open>Properties of the synchronisation\<close>


text \<open>
  C23. Undisturbed, the reconciliation loses no write: each pending write is afterwards still pending,
  or the store holds it or something at least as new under its key, or it was older than five minutes.
  If no error is reported, nothing stays pending.
\<close>

theorem sync_loses_nothing:
  assumes "versioned_store w view ok valid"
    and "ReconcilePendingWrites w quiet clk (d, r) = (res, (d', r'))"
    and "ok r" "valid_writes valid (pendingWrites d)"
  shows "(\<forall>x \<in> set (pendingWrites d). \<not> Reconciled x \<longrightarrow>
       x \<in> set (pendingWrites d') \<or>
       (\<exists>y. view r' (pw_Key x) = Some y \<and> pw_Version x \<le> vv_Version y) \<or>
       (\<exists>i. stale_write (clk i) x)) \<and>
     (res = Inr () \<longrightarrow> pendingWrites d' = [])"
  using versioned_store.quiet_reconcile [OF assms]
    versioned_store.delivered_def [OF assms(1)] by blast

text \<open>
  The counts of a reported failure add up to the number of writes that were pending, at least one
  of them failed, and whatever the outcome only unreconciled entries stay in the list.
\<close>

theorem sync_error_counts:
  "case ReconcilePendingWrites w env clk st of
     (Inl e, (d', r')) \<Rightarrow>
       re_Total e = length (pendingWrites (fst st)) \<and> 0 < re_Failed e \<and>
       re_Success e + re_Skipped e + re_Failed e = re_Total e \<and>
       filter Reconciled (pendingWrites d') = []
   | (Inr _, (d', r')) \<Rightarrow> filter Reconciled (pendingWrites d') = []"
proof -
  have len: "length (fst (sync_loop w env clk i xs s)) = length xs" for i xs s
    by (induction xs arbitrary: i s) (simp_all add: split_beta Let_def)
  have parts: "length (filter (\<lambda>a. a = SyncSucceeded) as) + length (filter (\<lambda>a. a = SyncSkipped) as) +
      length (filter (\<lambda>a. a = SyncFailed) as) = length as" for as
  proof (induction as)
    case (Cons a as)
    then show ?case by (cases a) simp_all
  qed simp
  define as where "as = fst (sync_loop w env clk 0 (pendingWrites (fst st)) st)"
  have "length as = length (pendingWrites (fst st))" by (simp add: as_def len)
  then show ?thesis
    using parts [of as]
    by (auto simp: ReconcilePendingWrites_def Let_def split_beta as_def [symmetric] clean_up_def filter_empty_conv)
qed

section \<open>A write lost to a concurrent one\<close>

text \<open>
  The entries are marked by their position in the copied list. Here the list has room for two writes;
  while the first one is being sent, a third write drops the oldest entry and shifts the others.
\<close>

definition two_pending :: "nat degraded_mode" where
  "two_pending = SetInCacheWithTTL 1 (1 * second) [''k1''] ''k2'' 20 0
     (SetInCacheWithTTL 1 (1 * second) [] ''k1'' 10 0 (NewDegradedMode\<lparr>maxPendingWrites := 2\<rparr>))"

definition third_write :: "(string \<rightharpoonup> nat versioned_value, nat) sync_env" where
  "third_write i p st =
     (if i = 0 \<and> p = BeforeMark
      then (SetInCacheWithTTL 1 (1 * second) [''k1'', ''k2''] ''k3'' 30 0 (fst st), snd st) else st)"

definition pending_k :: "string \<Rightarrow> nat \<Rightarrow> int \<Rightarrow> nat pending_write" where
  "pending_k k v n = \<lparr>pw_Key = k, pw_Value = v, pw_Timestamp = to_unix (1 * second), pw_TTL = 0,
     pw_Version = n, Reconciled = False\<rparr>"

lemma two_pending_eq:
  "pendingWrites two_pending = [pending_k ''k1'' 10 1, pending_k ''k2'' 20 2]"
  "currentVersion two_pending = 2" "maxPendingWrites two_pending = 2"
  by (simp_all add: two_pending_def set_pending trimmed_def NewDegradedMode_def int64_defs pending_k_def)

lemma not_stale: "\<not> stale_write 1000000000 (pending_k k v n)"
  by (simp add: stale_write_def pending_k_def to_unix_def of_unix_def unix_epoch_seconds_def time_sub_def
      int64_defs)

lemma third_pending:
  "pendingWrites (SetInCacheWithTTL 1 (1 * second) ks ''k3'' 30 0 two_pending) =
   [pending_k ''k2'' 20 2, pending_k ''k3'' 30 3]"
  "localCache (SetInCacheWithTTL 1 (1 * second) ks ''k3'' 30 0 two_pending) ''k3'' =
   Some \<lparr>ce_Value = 30, LastAccess = 1\<rparr>"
  by (simp_all add: set_pending set_cache trimmed_def two_pending_eq int64_defs) (simp add: pending_k_def)

lemma third_write_run:
  "case ReconcilePendingWrites mockVersionedRedis third_write (\<lambda>_. 1 * second) (two_pending, Map.empty) of
     (res, (d, r)) \<Rightarrow>
       res = Inr () \<and> map_option ce_Value (localCache d ''k3'') = Some 30 \<and>
       pendingWrites d = [] \<and> r ''k3'' = None"
proof -
  let ?x1 = "pending_k ''k1'' 10 1" and ?x2 = "pending_k ''k2'' 20 2" and ?x3 = "pending_k ''k3'' 30 3"
  let ?r1 = "[''k1'' \<mapsto> to_versioned ?x1]" and ?r2 = "[''k1'' \<mapsto> to_versioned ?x1, ''k2'' \<mapsto> to_versioned ?x2]"
  define d1 where "d1 = SetInCacheWithTTL 1 (1 * second) [''k1'', ''k2''] ''k3'' 30 0 two_pending"
  have p1: "pendingWrites d1 = [?x2, ?x3]" "localCache d1 ''k3'' = Some \<lparr>ce_Value = 30, LastAccess = 1\<rparr>"
    unfolding d1_def by (rule third_pending)+
  have 1: "sync_write mockVersionedRedis third_write 1000000000 0 ?x1 (two_pending, Map.empty) =
      (SyncSucceeded, (mark_reconciled 0 d1, ?r1))"
    using not_stale [of "''k1''" 10 1]
    by (simp add: sync_write_eq third_write_def mark_def mockVersionedRedis_def mock_GetVersioned_def
        mock_SetVersioned_def d1_def Let_def pending_k_def)
  have 2: "sync_write mockVersionedRedis third_write 1000000000 (Suc 0) ?x2 (mark_reconciled 0 d1, ?r1) =
      (SyncSucceeded, (mark_reconciled (Suc 0) (mark_reconciled 0 d1), ?r2))"
    using not_stale [of "''k2''" 20 2]
    by (simp add: sync_write_eq third_write_def mark_def mockVersionedRedis_def mock_GetVersioned_def
        mock_SetVersioned_def Let_def pending_k_def)
  have l: "sync_loop mockVersionedRedis third_write (\<lambda>_. 1000000000) 0 [?x1, ?x2] (two_pending, Map.empty) =
      ([SyncSucceeded, SyncSucceeded], (mark_reconciled (Suc 0) (mark_reconciled 0 d1), ?r2))"
    by (simp only: sync_loop.simps Let_def 1 2 prod.case)
  have "ReconcilePendingWrites mockVersionedRedis third_write (\<lambda>_. 1000000000) (two_pending, Map.empty) =
      (Inr (), (clean_up (mark_reconciled (Suc 0) (mark_reconciled 0 d1)), ?r2))"
    unfolding ReconcilePendingWrites_def Let_def fst_conv two_pending_eq l prod.case
    by (simp add: third_write_def)
  then show ?thesis by (simp add: clean_up_def mark_reconciled_def p1)
qed

text \<open>
  Disturbed, the reconciliation can lose a write: the list is full with two writes, and while the
  first is being sent a third one is made. The reconciliation reports success, nothing is pending any
  more, the third write is in the cache, and the store has never seen it.
\<close>

theorem concurrent_write_lost:
  "case ReconcilePendingWrites mockVersionedRedis third_write (\<lambda>_. 1 * second) (two_pending, Map.empty) of
     (res, (d, r)) \<Rightarrow>
       res = Inr () \<and> map_option ce_Value (localCache d ''k3'') = Some 30 \<and>
       pendingWrites d = [] \<and> r ''k3'' = None"
  by (rule third_write_run)

section \<open>Witnesses\<close>


theorem sync_loses_nothing_witness:
  "\<exists>y. snd (snd (ReconcilePendingWrites mockVersionedRedis quiet (\<lambda>_. 1 * second) (two_pending, Map.empty)))
     ''k2'' = Some y \<and> 2 \<le> vv_Version y"
proof -
  let ?r = "ReconcilePendingWrites mockVersionedRedis quiet (\<lambda>_. 1 * second) (two_pending, Map.empty)"
  obtain res d' r' where r: "?r = (res, (d', r'))" by (metis prod.exhaust)
  have x: "pending_k ''k2'' 20 2 \<in> set (pendingWrites two_pending)" by (simp add: two_pending_eq)
  let ?m1 = "[''k1'' \<mapsto> to_versioned (pending_k ''k1'' 10 1)]"
  have 1: "sync_write mockVersionedRedis quiet 1000000000 0 (pending_k ''k1'' 10 1) (two_pending, Map.empty) =
      (SyncSucceeded, (mark_reconciled 0 two_pending, ?m1))"
    using not_stale [of "''k1''" 10 1]
    by (simp add: sync_write_eq quiet_def mark_def mockVersionedRedis_def mock_GetVersioned_def
        mock_SetVersioned_def Let_def pending_k_def)
  have 2: "fst (sync_write mockVersionedRedis quiet 1000000000 (Suc 0) (pending_k ''k2'' 20 2)
      (mark_reconciled 0 two_pending, ?m1)) = SyncSucceeded"
    using not_stale [of "''k2''" 20 2]
    by (simp add: sync_write_eq quiet_def mark_def mockVersionedRedis_def mock_GetVersioned_def
        mock_SetVersioned_def Let_def pending_k_def)
  have "fst (sync_loop mockVersionedRedis quiet (\<lambda>_. 1000000000) 0 (pendingWrites two_pending)
      (two_pending, Map.empty)) = [SyncSucceeded, SyncSucceeded]"
    by (simp only: two_pending_eq sync_loop.simps Let_def 1 2 prod.case split_beta fst_conv snd_conv)
  then have "res = Inr ()"
    using r by (simp add: ReconcilePendingWrites_def Let_def split_beta two_pending_eq)
  then show ?thesis
    using sync_loses_nothing [OF mock_redis.versioned_store_axioms r] x not_stale [of "''k2''" 20 2] r
    by (auto simp: pending_k_def)
qed

end
