(* ===== verification/RedisVersioned.thy ===== *)
theory RedisVersioned
  imports RedisServer PendingSync
begin

text \<open>
  \<open>store/redis_versioned.go\<close>: values with versions, kept as Redis hashes and written by Lua scripts that
  compare versions on the server.

  The hash commands are a second record over the server's state, with their documented behaviour at one
  instant as \<open>redis_hashes\<close>. Versions and timestamps are decimal text in the hash; Lua's numbers are
  exact for them below \<open>2 ^ 53\<close>. A script may fail (\<open>Inl\<close>); a request may be lost (\<open>fault\<close>). The JSON
  text the get script returns is decoded at once: its value member is the stored text as a string.

  \<open>script_writer\<close> gives the two methods the interface of the synchronisation; the scripts keep its contract
  (\<open>versioned_store\<close>), so its lemmas hold over Redis (\<open>sync_reaches_redis\<close>).
\<close>

section \<open>Hash commands\<close>

record 'r redis_hash =
  rh_hget :: "gotime \<Rightarrow> string \<Rightarrow> string \<Rightarrow> 'r \<Rightarrow> string option"
  rh_hmset :: "gotime \<Rightarrow> string \<Rightarrow> (string \<times> string) list \<Rightarrow> 'r \<Rightarrow> 'r"
  rh_expire :: "gotime \<Rightarrow> string \<Rightarrow> int \<Rightarrow> 'r \<Rightarrow> 'r"

locale redis_hashes =
  fixes rh :: "'r redis_hash"
  assumes hmset_same: "distinct (map fst fvs) \<Longrightarrow>
      rh_hget rh t k f (rh_hmset rh t k fvs r) =
      (case map_of fvs f of None \<Rightarrow> rh_hget rh t k f r | Some v \<Rightarrow> Some v)"
    and hmset_other: "q \<noteq> k \<Longrightarrow> rh_hget rh t q f (rh_hmset rh t k fvs r) = rh_hget rh t q f r"
    and expire_now: "0 < n \<Longrightarrow> rh_hget rh t q f (rh_expire rh t k n r) = rh_hget rh t q f r"

section \<open>The scripts\<close>

text \<open>A call whose command may itself fail on the server.\<close>

definition run_script :: "fault \<Rightarrow> ('r \<Rightarrow> (go_error + 'a) \<times> 'r) \<Rightarrow> 'r \<Rightarrow> (go_error + 'a) \<times> 'r" where
  "run_script net f r =
     (case call net f r of
        (Inl e, r') \<Rightarrow> (Inl e, r')
      | (Inr res, r') \<Rightarrow> (res, r'))"

definition noscript :: go_error where
  "noscript = ''NOSCRIPT No matching script. Please use EVAL.''"

text \<open>\<open>EvalSha\<close>, tried again after the script has been loaded when the server had lost it.\<close>

definition eval_sha :: "fault \<Rightarrow> fault \<Rightarrow> ('r \<Rightarrow> (go_error + 'a) \<times> 'r) \<Rightarrow> 'r \<Rightarrow> (go_error + 'a) \<times> 'r" where
  "eval_sha net1 net2 f r =
     (case run_script net1 f r of
        (Inl e, r') \<Rightarrow> if e = noscript then run_script net2 f r' else (Inl e, r')
      | (Inr x, r') \<Rightarrow> (Inr x, r'))"

definition write_version ::
  "'r redis_hash \<Rightarrow> gotime \<Rightarrow> string \<Rightarrow> string versioned_value \<Rightarrow> int \<Rightarrow> 'r \<Rightarrow> 'r" where
  "write_version rh now key x ttl r =
     (let r' = rh_hmset rh now key
                 [(''value'', vv_Value x), (''version'', itoa (vv_Version x)), (''timestamp'', itoa (vv_Timestamp x))] r
      in if 0 < ttl then rh_expire rh now key ttl r' else r')"

definition set_script ::
  "'r redis_hash \<Rightarrow> gotime \<Rightarrow> string \<Rightarrow> string versioned_value \<Rightarrow> int \<Rightarrow> 'r \<Rightarrow> (go_error + int) \<times> 'r" where
  "set_script rh now key x ttl r =
     (case rh_hget rh now key ''version'' r of
        None \<Rightarrow> (Inr 1, write_version rh now key x ttl r)
      | Some cv \<Rightarrow>
          (case parse_int cv of
             None \<Rightarrow> (Inl ''attempt to compare nil with number'', r)
           | Some c \<Rightarrow>
               if c < vv_Version x then (Inr 1, write_version rh now key x ttl r) else (Inr 0, r)))"

text \<open>\<open>tonumber\<close> of a missing or malformed field is nil, which the JSON text leaves out.\<close>

definition number_field :: "'r redis_hash \<Rightarrow> gotime \<Rightarrow> string \<Rightarrow> string \<Rightarrow> 'r \<Rightarrow> int" where
  "number_field rh now key f r =
     (case rh_hget rh now key f r of
        None \<Rightarrow> 0
      | Some v \<Rightarrow> (case parse_int v of None \<Rightarrow> 0 | Some n \<Rightarrow> n))"

definition get_script :: "'r redis_hash \<Rightarrow> gotime \<Rightarrow> string \<Rightarrow> 'r \<Rightarrow> string versioned_value option" where
  "get_script rh now key r =
     (case rh_hget rh now key ''value'' r of
        None \<Rightarrow> None
      | Some v \<Rightarrow>
          Some \<lparr>vv_Value = v, vv_Version = number_field rh now key ''version'' r,
                vv_Timestamp = number_field rh now key ''timestamp'' r\<rparr>)"

definition cas_script ::
  "'r redis_hash \<Rightarrow> gotime \<Rightarrow> string \<Rightarrow> int \<Rightarrow> string versioned_value \<Rightarrow> int \<Rightarrow> 'r \<Rightarrow> (go_error + int) \<times> 'r" where
  "cas_script rh now key expected x ttl r =
     (case rh_hget rh now key ''version'' r of
        None \<Rightarrow> (Inr 1, write_version rh now key x ttl r)
      | Some cv \<Rightarrow>
          if parse_int cv \<noteq> Some expected then (Inr 0, r)
          else (Inr 1, write_version rh now key x ttl r))"

section \<open>The store's methods\<close>

definition go_seconds :: "duration \<Rightarrow> int" where
  "go_seconds ttl = sgn ttl * (\<bar>ttl\<bar> div second)"

definition rs_SetVersioned ::
  "'r redis_hash \<Rightarrow> fault \<Rightarrow> fault \<Rightarrow> gotime \<Rightarrow> string \<Rightarrow> string versioned_value \<Rightarrow> duration \<Rightarrow> 'r \<Rightarrow>
   go_error option \<times> 'r"
where
  "rs_SetVersioned rh net1 net2 now key x ttl r =
     (case eval_sha net1 net2 (set_script rh now key x (go_seconds ttl)) r of
        (Inl e, r') \<Rightarrow> (Some (''failed to execute versioned set: '' @ e), r')
      | (Inr wasSet, r') \<Rightarrow>
          if wasSet = 0 then (Some ''version conflict: newer version exists in Redis'', r') else (None, r'))"

text \<open>With an error the result is nil, so every error reads as "not found".\<close>

definition rs_GetVersioned ::
  "'r redis_hash \<Rightarrow> fault \<Rightarrow> fault \<Rightarrow> gotime \<Rightarrow> string \<Rightarrow> 'r \<Rightarrow> go_error + string versioned_value" where
  "rs_GetVersioned rh net1 net2 now key r =
     (case fst (eval_sha net1 net2 (\<lambda>r. (Inr (get_script rh now key r), r)) r) of
        Inl e \<Rightarrow> Inl ''not found''
      | Inr None \<Rightarrow> Inl ''not found''
      | Inr (Some x) \<Rightarrow> Inr x)"

definition rs_CompareAndSetVersioned ::
  "'r redis_hash \<Rightarrow> fault \<Rightarrow> gotime \<Rightarrow> string \<Rightarrow> int \<Rightarrow> string versioned_value \<Rightarrow> duration \<Rightarrow> 'r \<Rightarrow>
   (go_error + bool) \<times> 'r"
where
  "rs_CompareAndSetVersioned rh net now key expected x ttl r =
     (case run_script net (cas_script rh now key expected x (go_seconds ttl)) r of
        (Inl e, r') \<Rightarrow> (Inl e, r')
      | (Inr success, r') \<Rightarrow> (Inr (success = 1), r'))"

section \<open>Lemmas\<close>

lemma run_script_result:
  "run_script net f r = (Inr x, r') \<Longrightarrow> f r = (Inr x, r')"
  by (cases net; cases "f r") (auto simp: run_script_def split: sum.splits)

lemma run_script_state: "run_script net f r = (res, r') \<Longrightarrow> r' = r \<or> r' = snd (f r)"
  by (cases net) (auto simp: run_script_def split: sum.splits)

definition ints_ok :: "'v versioned_value \<Rightarrow> bool" where
  "ints_ok x \<longleftrightarrow> min_int64 \<le> vv_Version x \<and> vv_Version x \<le> max_int64 \<and>
     min_int64 \<le> vv_Timestamp x \<and> vv_Timestamp x \<le> max_int64"

text \<open>Hashes written by this code only.\<close>

definition hash_ok :: "'r redis_hash \<Rightarrow> gotime \<Rightarrow> string \<Rightarrow> 'r \<Rightarrow> bool" where
  "hash_ok rh t k r \<longleftrightarrow>
     (case rh_hget rh t k ''version'' r of
        None \<Rightarrow> rh_hget rh t k ''value'' r = None
      | Some cv \<Rightarrow> parse_int cv \<noteq> None \<and> rh_hget rh t k ''value'' r \<noteq> None)"

context redis_hashes
begin

lemma write_version_hget:
  "rh_hget rh t q f (write_version rh t k x ttl r) =
   (if q = k then (case map_of [(''value'', vv_Value x), (''version'', itoa (vv_Version x)), (''timestamp'', itoa (vv_Timestamp x))] f
        of None \<Rightarrow> rh_hget rh t k f r | Some v \<Rightarrow> Some v)
    else rh_hget rh t q f r)"
  by (simp add: write_version_def Let_def expire_now hmset_same hmset_other)

lemma write_version_get:
  assumes "ints_ok x"
  shows "get_script rh t q (write_version rh t k x ttl r) = (if q = k then Some x else get_script rh t q r)"
  using assms by (simp add: get_script_def number_field_def write_version_hget ints_ok_def split: option.split)

lemma set_script_cases:
  assumes "hash_ok rh t k r" "ints_ok x"
  obtains (newer) "set_script rh t k x ttl r = (Inr 1, write_version rh t k x ttl r)"
      "\<And>y. get_script rh t k r = Some y \<Longrightarrow> vv_Version y < vv_Version x"
  | (older) y where "set_script rh t k x ttl r = (Inr 0, r)" "get_script rh t k r = Some y"
      "vv_Version x \<le> vv_Version y"
proof (cases "rh_hget rh t k ''version'' r")
  case None
  then have "rh_hget rh t k ''value'' r = None"
    using assms(1) by (simp add: hash_ok_def)
  then show ?thesis using newer None by (simp add: set_script_def get_script_def)
next
  case (Some cv)
  then obtain n v where n: "parse_int cv = Some n" "rh_hget rh t k ''value'' r = Some v"
    using assms(1) by (auto simp: hash_ok_def)
  then have g: "\<exists>y. get_script rh t k r = Some y \<and> vv_Version y = n"
    by (simp add: get_script_def number_field_def Some)
  show ?thesis
  proof (cases "n < vv_Version x")
    case True
    then show ?thesis using newer g n(1) Some by (auto simp: set_script_def)
  next
    case False
    then show ?thesis using older g n(1) Some by (auto simp: set_script_def)
  qed
qed

lemma write_version_ok: "hash_ok rh t q r \<Longrightarrow> ints_ok x \<Longrightarrow> hash_ok rh t q (write_version rh t k x ttl r)"
  by (cases "q = k") (auto simp: hash_ok_def write_version_hget ints_ok_def split: option.splits)

lemma write_no_rollback:
  assumes "ints_ok x" "\<And>y. get_script rh t k r = Some y \<Longrightarrow> vv_Version y < vv_Version x"
  shows "no_rollback (\<lambda>q. get_script rh t q r) (\<lambda>q. get_script rh t q (write_version rh t k x ttl r))"
  using assms by (simp add: no_rollback_def write_version_get)

text \<open>One request, whatever the network does to it.\<close>

lemma run_set:
  assumes "\<forall>q. hash_ok rh t q r" "ints_ok x" "run_script net (set_script rh t k x ttl) r = (res, r')"
  shows "(\<forall>q. hash_ok rh t q r') \<and> no_rollback (\<lambda>q. get_script rh t q r) (\<lambda>q. get_script rh t q r') \<and>
     (r' = r \<or> get_script rh t k r' = Some x) \<and>
     (res = Inr 1 \<longrightarrow> get_script rh t k r' = Some x \<and> (\<forall>y. get_script rh t k r = Some y \<longrightarrow> vv_Version y < vv_Version x)) \<and>
     (\<forall>n. res = Inr n \<longrightarrow> n = 0 \<or> n = 1)"
proof (cases rule: set_script_cases [OF assms(1) [rule_format] assms(2), of k ttl])
  case 1
  note newer = 1
  then have "r' = r \<or> r' = write_version rh t k x ttl r" "\<forall>n. res = Inr n \<longrightarrow> n = 1 \<and> r' = write_version rh t k x ttl r"
    using assms(3) by (cases net; auto simp: run_script_def)+
  then show ?thesis
    using assms(1,2) newer(2) write_version_ok write_no_rollback [OF assms(2) newer(2)] by (auto simp: write_version_get)
next
  case (2 y)
  then have "r' = r" "res \<noteq> Inr 1" "\<forall>n. res = Inr n \<longrightarrow> n = 0" using assms(3) by (cases net; auto simp: run_script_def)+
  then show ?thesis using assms(1) by simp
qed

lemma set_versioned:
  assumes "\<forall>q. hash_ok rh t q r" "ints_ok x" "rs_SetVersioned rh net1 net2 t k x ttl r = (err, r')"
  shows "no_rollback (\<lambda>q. get_script rh t q r) (\<lambda>q. get_script rh t q r') \<and> (\<forall>q. hash_ok rh t q r') \<and>
     (err = None \<longrightarrow> get_script rh t k r' = Some x \<and> (\<forall>y. get_script rh t k r = Some y \<longrightarrow> vv_Version y < vv_Version x))"
proof -
  let ?f = "set_script rh t k x (go_seconds ttl)"
  obtain res1 r1 where 1: "run_script net1 ?f r = (res1, r1)" by fastforce
  note one = run_set [OF assms(1,2) 1]
  show ?thesis
  proof (cases "res1 = Inl noscript")
    case False
    then have "r' = r1" "err = None \<longrightarrow> (\<exists>n. res1 = Inr n \<and> n \<noteq> 0)"
      using assms(3) 1 by (cases res1; auto simp: rs_SetVersioned_def eval_sha_def split: if_splits)+
    then show ?thesis using one by auto
  next
    case True
    obtain res2 r2 where 2: "run_script net2 ?f r1 = (res2, r2)" by fastforce
    have two: "(\<forall>q. hash_ok rh t q r2) \<and> no_rollback (\<lambda>q. get_script rh t q r1) (\<lambda>q. get_script rh t q r2) \<and>
       (res2 = Inr 1 \<longrightarrow> get_script rh t k r2 = Some x \<and> (\<forall>y. get_script rh t k r1 = Some y \<longrightarrow> vv_Version y < vv_Version x)) \<and>
       (\<forall>n. res2 = Inr n \<longrightarrow> n = 0 \<or> n = 1)"
      using run_set [OF _ assms(2) 2] one by blast
    have "r' = r2" "err = None \<longrightarrow> (\<exists>n. res2 = Inr n \<and> n \<noteq> 0)"
      using assms(3) 1 2 True by (cases res2; auto simp: rs_SetVersioned_def eval_sha_def split: if_splits)+
    moreover have "no_rollback (\<lambda>q. get_script rh t q r) (\<lambda>q. get_script rh t q r2)"
      using one two no_rollback_trans by blast
    moreover have "get_script rh t k r1 = get_script rh t k r" if "res2 = Inr 1"
    proof -
      have "get_script rh t k r1 \<noteq> Some x" using two that by blast
      then show ?thesis using one by auto
    qed
    ultimately show ?thesis using two by auto
  qed
qed

end

section \<open>The store of the synchronisation\<close>

text \<open>
  \<open>RedisStore\<close> as the \<open>VersionedRedisWriter\<close> of the synchronisation: a client sees the server, the clock
  and the network, whose next four faults are those of the next read and the next write.
\<close>

record 'r redis_client =
  cl_server :: 'r
  cl_now :: gotime
  cl_net :: "nat \<Rightarrow> fault"

definition script_writer :: "'r redis_hash \<Rightarrow> ('r redis_client, string) versioned_writer" where
  "script_writer rh =
     \<lparr>GetVersioned = (\<lambda>k c.
        case rs_GetVersioned rh (cl_net c 0) (cl_net c 1) (cl_now c) k (cl_server c) of
          Inl e \<Rightarrow> Inl e
        | Inr x \<Rightarrow> Inr (Some x)),
      SetVersioned = (\<lambda>k x ttl c.
        let (err, r') = rs_SetVersioned rh (cl_net c 2) (cl_net c 3) (cl_now c) k x ttl (cl_server c)
        in (err, c\<lparr>cl_server := r', cl_net := (\<lambda>n. cl_net c (n + 4))\<rparr>))\<rparr>"

definition client_view :: "'r redis_hash \<Rightarrow> 'r redis_client \<Rightarrow> string \<Rightarrow> string versioned_value option" where
  "client_view rh c k = get_script rh (cl_now c) k (cl_server c)"

definition client_ok :: "'r redis_hash \<Rightarrow> 'r redis_client \<Rightarrow> bool" where
  "client_ok rh c \<longleftrightarrow> (\<forall>k. hash_ok rh (cl_now c) k (cl_server c))"

lemma rs_get_stored: "rs_GetVersioned rh net1 net2 t k r = Inr x \<Longrightarrow> get_script rh t k r = Some x"
  by (cases net1; cases net2)
    (auto simp: rs_GetVersioned_def eval_sha_def run_script_def split: option.splits if_splits)

sublocale redis_hashes \<subseteq> versioned_store "script_writer rh" "client_view rh" "client_ok rh" ints_ok
proof
  fix c k x
  assume "GetVersioned (script_writer rh) k c = Inr (Some x)"
  then show "client_view rh c k = Some x"
    by (auto simp: script_writer_def client_view_def dest: rs_get_stored split: sum.splits)
next
  fix x :: "string versioned_value" and k ttl and c :: "'r redis_client"
  assume x: "ints_ok x"
  obtain err r' where s: "rs_SetVersioned rh (cl_net c 2) (cl_net c 3) (cl_now c) k x ttl (cl_server c) = (err, r')"
    by fastforce
  show "advances (client_ok rh) (client_view rh) c (snd (SetVersioned (script_writer rh) k x ttl c))"
    using set_versioned [OF _ x s]
    by (simp add: advances_def client_ok_def client_view_def [abs_def] script_writer_def s)
next
  fix c c' :: "'r redis_client" and k ttl and x :: "string versioned_value"
  assume ok: "client_ok rh c" and x: "ints_ok x" and s: "SetVersioned (script_writer rh) k x ttl c = (None, c')"
  then obtain r' where "rs_SetVersioned rh (cl_net c 2) (cl_net c 3) (cl_now c) k x ttl (cl_server c) = (None, r')"
    "cl_server c' = r'" "cl_now c' = cl_now c"
    by (auto simp: script_writer_def Let_def split: prod.splits)
  then show "client_view rh c' k = Some x"
    using set_versioned [OF _ x] ok by (fastforce simp: client_ok_def client_view_def)
qed

text \<open>
  Degraded mode over Redis: a write that was pending when Redis came back is still pending, too old, or
  Redis holds it or something at least as new, whatever the network does to the requests.
\<close>

context redis_hashes
begin

lemma sync_reaches_redis:
  assumes "client_ok rh c" "valid_writes ints_ok (pendingWrites d)"
    and "ReconcilePendingWrites (script_writer rh) quiet clk (d, c) = (res, (d', c'))"
    and "x \<in> set (pendingWrites d)" "\<not> Reconciled x"
  shows "x \<in> set (pendingWrites d') \<or> (\<exists>i. stale_write (clk i) x) \<or>
    (\<exists>y. get_script rh (cl_now c') (pw_Key x) (cl_server c') = Some y \<and> pw_Version x \<le> vv_Version y)"
  using quiet_reconcile(1) [OF assms(3,1,2)] assms(4,5)
  unfolding delivered_def client_view_def by blast

end

section \<open>The laws can be met\<close>

type_synonym hash_map = "string \<Rightarrow> string \<rightharpoonup> string"

definition map_hashes :: "hash_map redis_hash" where
  "map_hashes =
     \<lparr>rh_hget = (\<lambda>t k f m. m k f), rh_hmset = (\<lambda>t k fvs m. m(k := m k ++ map_of fvs)), rh_expire = (\<lambda>t k n m. m)\<rparr>"

interpretation map_hashes: redis_hashes map_hashes
  by unfold_locales (simp_all add: map_hashes_def map_add_def split: option.split)

section \<open>Properties\<close>

text \<open>
  Versions in Redis only grow: whatever requests and replies are lost and however often the script
  has to be loaded again, \<open>SetVersioned\<close> never removes a value or replaces it by one of an older or equal
  version; if it reports success, its value is stored and everything stored before was older.
\<close>

theorem redis_versions_grow:
  assumes "redis_hashes rh" "\<forall>q. hash_ok rh t q r" "ints_ok x"
    and "rs_SetVersioned rh net1 net2 t k x ttl r = (err, r')"
  shows "no_rollback (\<lambda>q. get_script rh t q r) (\<lambda>q. get_script rh t q r') \<and>
     (err = None \<longrightarrow> rs_GetVersioned rh Delivered Delivered t k r' = Inr x \<and>
        (\<forall>y. get_script rh t k r = Some y \<longrightarrow> vv_Version y < vv_Version x))"
  using redis_hashes.set_versioned [OF assms] by (auto simp: rs_GetVersioned_def eval_sha_def run_script_def)

text \<open>
  Compare-and-set does not compare with nothing: on a missing key it succeeds whatever version was
  expected, and after that even with a lower version than one that has been stored and expired.
\<close>

theorem cas_ignores_missing:
  assumes "redis_hashes rh" "rh_hget rh t k ''version'' r = None" "ints_ok x"
  shows "\<exists>r'. rs_CompareAndSetVersioned rh Delivered t k expected x ttl r = (Inr True, r') \<and>
     get_script rh t k r' = Some x"
  using redis_hashes.write_version_get [OF assms(1,3)] assms(2)
  by (simp add: rs_CompareAndSetVersioned_def cas_script_def run_script_def)

section \<open>Witnesses\<close>

theorem redis_versions_grow_witness:
  "rs_GetVersioned map_hashes Delivered Delivered 0 ''k'' (snd (rs_SetVersioned map_hashes (Refused noscript) Delivered 0 ''k''
     \<lparr>vv_Value = ''{}'', vv_Version = 2, vv_Timestamp = 7\<rparr> 0
     ((\<lambda>_. Map.empty)(''k'' := [''value'' \<mapsto> ''1'', ''version'' \<mapsto> ''1'', ''timestamp'' \<mapsto> ''5''])))) =
   Inr \<lparr>vv_Value = ''{}'', vv_Version = 2, vv_Timestamp = 7\<rparr>"
proof -
  let ?r = "(\<lambda>_. Map.empty)(''k'' := [''value'' \<mapsto> ''1'', ''version'' \<mapsto> ''1'', ''timestamp'' \<mapsto> ''5'']) :: hash_map"
  let ?x = "\<lparr>vv_Value = ''{}'', vv_Version = 2, vv_Timestamp = 7\<rparr>"
  obtain err r' where s: "rs_SetVersioned map_hashes (Refused noscript) Delivered 0 ''k'' ?x 0 ?r = (err, r')" by fastforce
  have "parse_int ''1'' = Some 1" by code_simp
  then have wf: "\<forall>q. hash_ok map_hashes 0 q ?r"
    by (simp add: hash_ok_def map_hashes_def)
  have "fst (rs_SetVersioned map_hashes (Refused noscript) Delivered 0 ''k'' ?x 0 ?r) = None" by code_simp
  moreover have "ints_ok ?x" by (simp add: ints_ok_def int64_defs)
  ultimately show ?thesis using redis_versions_grow [OF map_hashes.redis_hashes_axioms wf _ s] s by simp
qed

theorem cas_ignores_missing_witness:
  "\<exists>r'. rs_CompareAndSetVersioned map_hashes Delivered 0 ''k'' 17 \<lparr>vv_Value = ''{}'', vv_Version = 1, vv_Timestamp = 7\<rparr> 0
     (\<lambda>_. Map.empty) = (Inr True, r') \<and> get_script map_hashes 0 ''k'' r' = Some \<lparr>vv_Value = ''{}'', vv_Version = 1, vv_Timestamp = 7\<rparr>"
  by (rule cas_ignores_missing [OF map_hashes.redis_hashes_axioms])
    (simp_all add: map_hashes_def ints_ok_def int64_defs)

end
