(* ===== verification/StoreInterface.thy ===== *)
theory StoreInterface
  imports StoreTypes
begin

text \<open>
  What the clients of \<open>store/interface.go\<close> rely on, as contracts: records of one kind kept per tenant
  (agents, states, jobs), and the durable epoch counters behind leader election. The stores
  instantiate them.
\<close>

section \<open>Records kept per tenant\<close>

locale tenant_records =
  fixes put :: "string \<Rightarrow> 'v \<Rightarrow> 's \<Rightarrow> 's" and get :: "string \<Rightarrow> string \<Rightarrow> 's \<Rightarrow> 'v option"
    and ident :: "'v \<Rightarrow> string" and owned :: "string \<Rightarrow> 'v \<Rightarrow> 'v"
  assumes get_put: "get t (ident v) (put t v s) = Some (owned t v)"
    and get_put_other: "no_colon t \<Longrightarrow> no_colon u \<Longrightarrow> (t, i) \<noteq> (u, ident v) \<Longrightarrow>
      get t i (put u v s) = get t i s"
begin

text \<open>The last record put under a tenant and an identifier is the one that is read.\<close>

lemma get_puts:
  assumes "no_colon t" "\<forall>(u, v) \<in> set puts. no_colon u"
  shows "get t i (fold (\<lambda>(u, v). put u v) puts s) =
    (case filter (\<lambda>(u, v). u = t \<and> ident v = i) (rev puts) of
       [] \<Rightarrow> get t i s
     | (u, v) # _ \<Rightarrow> Some (owned t v))"
  using assms(2)
proof (induction puts rule: rev_induct)
  case (snoc uv puts)
  obtain u v where uv: "uv = (u, v)" by (cases uv)
  show ?case
  proof (cases "u = t \<and> ident v = i")
    case True
    then show ?thesis using get_put [of t v] by (auto simp: uv)
  next
    case False
    then have "get t i (put u v s') = get t i s'" for s'
      using get_put_other [OF assms(1)] snoc.prems by (auto simp: uv)
    then show ?thesis using snoc False by (auto simp: uv)
  qed
qed simp

end

section \<open>Durable epochs\<close>

text \<open>The epochs handed out by a sequence of increments, each with its resource.\<close>

fun issue :: "(string \<Rightarrow> 's \<Rightarrow> int \<times> 's) \<Rightarrow> string list \<Rightarrow> 's \<Rightarrow> (string \<times> int) list" where
  "issue incr [] s = []"
| "issue incr (r # rs) s = (let (n, s') = incr r s in (r, n) # issue incr rs s')"

locale durable_epochs =
  fixes incr :: "string \<Rightarrow> 's \<Rightarrow> int \<times> 's" and get :: "string \<Rightarrow> 's \<Rightarrow> int"
    and invar :: "'s \<Rightarrow> bool"
  assumes incr_epoch: "invar s \<Longrightarrow> get r s < max_int64 \<Longrightarrow> incr r s = (n, s') \<Longrightarrow>
      n = get r s + 1 \<and> get r s' = n"
    and incr_invar: "invar s \<Longrightarrow> incr r s = (n, s') \<Longrightarrow> invar s'"
    and incr_other: "incr r s = (n, s') \<Longrightarrow> r' \<noteq> r \<Longrightarrow> get r' s' = get r' s"
begin

text \<open>Per resource the epochs are handed out consecutively, whatever happens on other resources.\<close>

lemma issued_consecutive:
  "invar s \<Longrightarrow> get r s + int (length rs) \<le> max_int64 \<Longrightarrow>
   map snd (filter (\<lambda>(q, _). q = r) (issue incr rs s)) =
   map (\<lambda>k. get r s + 1 + int k) [0..<count_list rs r]"
proof (induction rs arbitrary: s)
  case (Cons q rs)
  obtain n s' where i: "incr q s = (n, s')" by (cases "incr q s")
  have inv: "invar s'" using incr_invar [OF Cons.prems(1) i] .
  show ?case
  proof (cases "q = r")
    case True
    have n: "n = get r s + 1" "get r s' = n" using incr_epoch [of s r n s'] i True Cons.prems by auto
    then have "map snd (filter (\<lambda>(q, _). q = r) (issue incr rs s')) =
        map (\<lambda>k. get r s' + 1 + int k) [0..<count_list rs r]"
      using Cons.prems inv by (intro Cons.IH) simp_all
    also have "\<dots> = map (\<lambda>k. get r s + 1 + int k) [1..<Suc (count_list rs r)]"
      using n by (intro nth_equalityI) (simp_all del: upt_Suc)
    finally show ?thesis using True i n by (simp add: upt_conv_Cons del: upt_Suc)
  next
    case False
    then have "get r s' = get r s" using incr_other [OF i] by simp
    then show ?thesis using Cons.IH [of s'] Cons.prems inv False i by simp
  qed
qed simp

lemma issued_distinct:
  assumes "invar s" "get r s + int (length rs) \<le> max_int64"
  shows "distinct (map snd (filter (\<lambda>(q, _). q = r) (issue incr rs s)))"
  unfolding issued_consecutive [OF assms] by (simp add: distinct_map inj_on_def)

end

end
