(* ===== verification/MemoryStore.thy ===== *)
theory MemoryStore
  imports StoreInterface
begin

text \<open>
  The in-memory store of \<open>store/memory.go\<close>. One mutex makes every method a step. The maps hold the
  records themselves: the code stores the caller's pointer, and no caller in the repository writes to
  a record after handing it over. Methods that range over a map take the runtime's order of the keys.
\<close>

section \<open>Operations\<close>

record memory_store =
  ms_agents :: "string \<rightharpoonup> agent"
  ms_jobs :: "string \<rightharpoonup> job"
  ms_states :: "string \<rightharpoonup> desired_state"
  ms_epochs :: "string \<rightharpoonup> int"

definition NewMemoryStore :: memory_store where
  "NewMemoryStore =
     \<lparr>ms_agents = Map.empty, ms_jobs = Map.empty, ms_states = Map.empty, ms_epochs = Map.empty\<rparr>"

definition ms_UpsertAgent :: "string \<Rightarrow> agent \<Rightarrow> memory_store \<Rightarrow> memory_store" where
  "ms_UpsertAgent tenantID a s =
     (let a' = a\<lparr>a_TenantID := tenantID\<rparr>; key = TenantKey tenantID ResourceAgent (a_NodeID a')
      in s\<lparr>ms_agents := (ms_agents s)(key \<mapsto> a')\<rparr>)"

definition ms_GetAgent :: "string \<Rightarrow> string \<Rightarrow> memory_store \<Rightarrow> agent option" where
  "ms_GetAgent tenantID nodeID s = ms_agents s (TenantKey tenantID ResourceAgent nodeID)"

definition ms_ListAgents :: "string list \<Rightarrow> string \<Rightarrow> memory_store \<Rightarrow> agent list" where
  "ms_ListAgents ks tenantID s =
     map_values (ms_agents s) (filter (\<lambda>key. prefix (TenantPrefix tenantID ResourceAgent) key) ks)"

definition ms_UpdateAgentHeartbeat ::
  "string \<Rightarrow> string \<Rightarrow> gotime \<Rightarrow> memory_store \<Rightarrow> (go_error + unit) \<times> memory_store" where
  "ms_UpdateAgentHeartbeat tenantID nodeID t s =
     (let key = TenantKey tenantID ResourceAgent nodeID in
      case ms_agents s key of
        None \<Rightarrow> (Inl ''agent not found'', s)
      | Some a \<Rightarrow> (Inr (), s\<lparr>ms_agents := (ms_agents s)(key \<mapsto> a\<lparr>a_LastHeartbeat := t\<rparr>)\<rparr>))"

definition ms_UpsertState :: "string \<Rightarrow> desired_state \<Rightarrow> memory_store \<Rightarrow> memory_store" where
  "ms_UpsertState tenantID st s =
     (let st' = st\<lparr>ds_TenantID := tenantID\<rparr>; key = TenantKey tenantID ResourceState (ds_StateID st')
      in s\<lparr>ms_states := (ms_states s)(key \<mapsto> st')\<rparr>)"

definition ms_UpdateStateStatus ::
  "string \<Rightarrow> string \<Rightarrow> string \<Rightarrow> string \<Rightarrow> gotime \<Rightarrow> int \<Rightarrow> memory_store \<Rightarrow>
   (go_error + unit) \<times> memory_store" where
  "ms_UpdateStateStatus tenantID stateID status lastError lastChecked expectedVersion s =
     (let key = TenantKey tenantID ResourceState stateID in
      case ms_states s key of
        None \<Rightarrow> (Inl ''state not found'', s)
      | Some st \<Rightarrow>
          if ds_Version st \<noteq> expectedVersion
          then (Inl ''optimistic lock failure: state version changed'', s)
          else (Inr (), s\<lparr>ms_states := (ms_states s)(key \<mapsto>
                  st\<lparr>ds_Status := status, ds_LastError := lastError, ds_LastChecked := lastChecked\<rparr>)\<rparr>))"

definition ms_GetState :: "string \<Rightarrow> string \<Rightarrow> memory_store \<Rightarrow> desired_state option" where
  "ms_GetState tenantID stateID s = ms_states s (TenantKey tenantID ResourceState stateID)"

definition ms_GetStateByNode ::
  "string list \<Rightarrow> string \<Rightarrow> string \<Rightarrow> memory_store \<Rightarrow> desired_state option" where
  "ms_GetStateByNode ks tenantID nodeID s =
     List.find (\<lambda>st. ds_TenantID st = tenantID \<and> ds_NodeID st = nodeID) (map_values (ms_states s) ks)"

definition ms_ListStates :: "string list \<Rightarrow> string \<Rightarrow> memory_store \<Rightarrow> desired_state list" where
  "ms_ListStates ks tenantID s =
     filter (\<lambda>st. ds_TenantID st = tenantID) (map_values (ms_states s) ks)"

definition ms_CreateJob :: "string \<Rightarrow> job \<Rightarrow> memory_store \<Rightarrow> memory_store" where
  "ms_CreateJob tenantID j s =
     (let j' = j\<lparr>j_TenantID := tenantID\<rparr>; key = TenantKey tenantID ResourceJob (j_JobID j')
      in s\<lparr>ms_jobs := (ms_jobs s)(key \<mapsto> j')\<rparr>)"

definition job_status_update ::
  "gotime \<Rightarrow> string \<Rightarrow> int \<Rightarrow> string \<Rightarrow> string \<Rightarrow> job \<Rightarrow> job" where
  "job_status_update now status exitCode out err j =
     (let j' = j\<lparr>j_Status := status\<rparr> in
      if status = ''running'' then j'\<lparr>j_StartedAt := Some now\<rparr>
      else if status = ''completed'' \<or> status = ''failed''
      then j'\<lparr>j_FinishedAt := Some now, j_ExitCode := exitCode, j_Stdout := out, j_Stderr := err\<rparr>
      else j')"

definition ms_UpdateJobStatus ::
  "gotime \<Rightarrow> string \<Rightarrow> string \<Rightarrow> string \<Rightarrow> int \<Rightarrow> string \<Rightarrow> string \<Rightarrow> memory_store \<Rightarrow>
   (go_error + unit) \<times> memory_store" where
  "ms_UpdateJobStatus now tenantID jobID status exitCode out err s =
     (let key = TenantKey tenantID ResourceJob jobID in
      case ms_jobs s key of
        None \<Rightarrow> (Inl ''job not found'', s)
      | Some j \<Rightarrow>
          (Inr (), s\<lparr>ms_jobs := (ms_jobs s)(key \<mapsto> job_status_update now status exitCode out err j)\<rparr>))"

definition ms_GetJob :: "string \<Rightarrow> string \<Rightarrow> memory_store \<Rightarrow> job option" where
  "ms_GetJob tenantID jobID s = ms_jobs s (TenantKey tenantID ResourceJob jobID)"

text \<open>A listing whose shard modulus is zero panics; it is \<open>None\<close>.\<close>

fun shard_filter :: "int \<Rightarrow> int \<Rightarrow> desired_state list \<Rightarrow> desired_state list option" where
  "shard_filter idx cnt [] = Some []"
| "shard_filter idx cnt (st # sts) =
     (if 1 < cnt then
        (case shard_of (ds_NodeID st) cnt of
           None \<Rightarrow> None
         | Some i \<Rightarrow>
             if i \<noteq> idx then shard_filter idx cnt sts
             else map_option (Cons st) (shard_filter idx cnt sts))
      else map_option (Cons st) (shard_filter idx cnt sts))"

definition ms_ListStatesByStatus ::
  "string list \<Rightarrow> string \<Rightarrow> int \<Rightarrow> int \<Rightarrow> memory_store \<Rightarrow> desired_state list option" where
  "ms_ListStatesByStatus ks status idx cnt s =
     shard_filter idx cnt (filter (\<lambda>st. ds_Status st = status) (map_values (ms_states s) ks))"

definition ms_CountStatesByStatus :: "string list \<Rightarrow> string \<Rightarrow> string \<Rightarrow> memory_store \<Rightarrow> nat" where
  "ms_CountStatesByStatus ks tenantID status s =
     length (filter (\<lambda>st. ds_TenantID st = tenantID \<and> ds_Status st = status) (map_values (ms_states s) ks))"

text \<open>The listing loop with its limit: \<open>break\<close> once \<open>limit > 0\<close> entries are collected.\<close>

fun list_limited :: "('v \<Rightarrow> bool) \<Rightarrow> int \<Rightarrow> int \<Rightarrow> 'v list \<Rightarrow> 'v list" where
  "list_limited P limit n [] = []"
| "list_limited P limit n (x # xs) =
     (if P x then
        if 0 < limit \<and> limit \<le> n + 1 then [x] else x # list_limited P limit (n + 1) xs
      else list_limited P limit n xs)"

definition ms_ListJobs :: "string list \<Rightarrow> string \<Rightarrow> string \<Rightarrow> int \<Rightarrow> memory_store \<Rightarrow> job list" where
  "ms_ListJobs ks tenantID nodeID limit s =
     list_limited (\<lambda>j. j_TenantID j = tenantID \<and> j_NodeID j = nodeID) limit 0
       (map_values (ms_jobs s) ks)"

definition ms_ListJobsByTenant :: "string list \<Rightarrow> string \<Rightarrow> int \<Rightarrow> memory_store \<Rightarrow> job list" where
  "ms_ListJobsByTenant ks tenantID limit s =
     list_limited (\<lambda>j. j_TenantID j = tenantID) limit 0 (map_values (ms_jobs s) ks)"

definition ms_IncrementDurableEpoch :: "string \<Rightarrow> memory_store \<Rightarrow> int \<times> memory_store" where
  "ms_IncrementDurableEpoch resourceID s =
     (let newEpoch = wrap64 (map_read 0 (ms_epochs s) resourceID + 1)
      in (newEpoch, s\<lparr>ms_epochs := (ms_epochs s)(resourceID \<mapsto> newEpoch)\<rparr>))"

definition ms_GetDurableEpoch :: "string \<Rightarrow> memory_store \<Rightarrow> int" where
  "ms_GetDurableEpoch resourceID s = map_read 0 (ms_epochs s) resourceID"

text \<open>The idempotency records are stubs in the code too.\<close>

definition ms_GetIdempotencyRecord :: "string \<Rightarrow> memory_store \<Rightarrow> go_error + string" where
  "ms_GetIdempotencyRecord key s = Inl ''not found''"

definition ms_SetIdempotencyRecord ::
  "string \<Rightarrow> string \<Rightarrow> duration \<Rightarrow> memory_store \<Rightarrow> (go_error + unit) \<times> memory_store" where
  "ms_SetIdempotencyRecord key val ttl s = (Inr (), s)"

definition ms_SetIdempotencyRecordNX ::
  "string \<Rightarrow> string \<Rightarrow> duration \<Rightarrow> memory_store \<Rightarrow> (go_error + unit) \<times> memory_store" where
  "ms_SetIdempotencyRecordNX key val ttl s = (Inr (), s)"

lemma list_limited_take:
  "list_limited P limit n xs =
   (if limit \<le> 0 then filter P xs
    else if n < limit then take (nat (limit - n)) (filter P xs) else take 1 (filter P xs))"
proof (induction xs arbitrary: n)
  case (Cons x xs)
  have "nat (limit - n) = Suc (nat (limit - (n + 1)))" if "n + 1 < limit"
    using that by linarith
  moreover have "nat (limit - n) = Suc 0" if "n < limit" "limit \<le> n + 1"
    using that by linarith
  ultimately show ?case using Cons by auto
qed simp

section \<open>Tenants\<close>

text \<open>The writes of the store, each by one tenant.\<close>

datatype store_write =
    WAgent agent
  | WHeartbeat string gotime
  | WState desired_state
  | WStatus string string string gotime int
  | WJob job
  | WJobStatus gotime string string int string string

fun ms_write :: "string \<Rightarrow> store_write \<Rightarrow> memory_store \<Rightarrow> memory_store" where
  "ms_write t (WAgent a) s = ms_UpsertAgent t a s"
| "ms_write t (WHeartbeat n now) s = snd (ms_UpdateAgentHeartbeat t n now s)"
| "ms_write t (WState st) s = ms_UpsertState t st s"
| "ms_write t (WStatus i status err now v) s = snd (ms_UpdateStateStatus t i status err now v s)"
| "ms_write t (WJob j) s = ms_CreateJob t j s"
| "ms_write t (WJobStatus now i status code out err) s =
     snd (ms_UpdateJobStatus now t i status code out err s)"

definition ms_writes :: "(string \<times> store_write) list \<Rightarrow> memory_store \<Rightarrow> memory_store" where
  "ms_writes ws s = fold (\<lambda>(t, w). ms_write t w) ws s"

text \<open>All a tenant can read by key.\<close>

definition tenant_view :: "string \<Rightarrow> memory_store \<Rightarrow>
    (string \<Rightarrow> agent option) \<times> (string \<Rightarrow> desired_state option) \<times> (string \<Rightarrow> job option)" where
  "tenant_view t s = ((\<lambda>i. ms_GetAgent t i s), (\<lambda>i. ms_GetState t i s), (\<lambda>i. ms_GetJob t i s))"

lemmas ms_write_defs = ms_UpsertAgent_def ms_UpdateAgentHeartbeat_def ms_UpsertState_def
  ms_UpdateStateStatus_def ms_CreateJob_def ms_UpdateJobStatus_def
lemmas ms_read_defs = tenant_view_def ms_GetAgent_def ms_GetState_def ms_GetJob_def

lemma ms_write_other:
  assumes "no_colon t" "no_colon t'" "t \<noteq> t'"
  shows "tenant_view t (ms_write t' w s) = tenant_view t s"
proof -
  have "TenantKey t r i \<noteq> TenantKey t' r' i'" for r r' i i'
    using assms no_colon_split [of t t' "r @ CHR '':'' # i" "r' @ CHR '':'' # i'"]
    by (auto simp: TenantKey_def)
  then show ?thesis
    by (cases w) (auto simp: ms_write_defs ms_read_defs Let_def split: option.split)
qed

lemma ms_write_same:
  "tenant_view t s = tenant_view t s' \<Longrightarrow> tenant_view t (ms_write t w s) = tenant_view t (ms_write t w s')"
proof -
  assume "tenant_view t s = tenant_view t s'"
  then have v: "ms_agents s (TenantKey t ResourceAgent i) = ms_agents s' (TenantKey t ResourceAgent i)"
    "ms_states s (TenantKey t ResourceState i) = ms_states s' (TenantKey t ResourceState i)"
    "ms_jobs s (TenantKey t ResourceJob i) = ms_jobs s' (TenantKey t ResourceJob i)" for i
    by (auto simp: ms_read_defs fun_eq_iff)
  then show ?thesis
    by (cases w) (auto simp: ms_write_defs ms_read_defs Let_def fun_eq_iff split: option.split)
qed

text \<open>
  Tenants do not interfere: if no tenant identifier contains a colon, what a tenant reads after
  any interleaving of writes is what it would read if the writes of all other tenants were left out.
\<close>

theorem tenants_do_not_interfere:
  assumes "no_colon t" "\<forall>(u, w) \<in> set ws. no_colon u"
  shows "tenant_view t (ms_writes ws s) = tenant_view t (ms_writes (filter (\<lambda>(u, w). u = t) ws) s)"
proof -
  have "tenant_view t s = tenant_view t s' \<Longrightarrow>
    tenant_view t (ms_writes ws s) = tenant_view t (ms_writes (filter (\<lambda>(u, w). u = t) ws) s')" for s'
    using assms(2)
  proof (induction ws arbitrary: s s')
    case (Cons uw ws)
    obtain u w where uw: "uw = (u, w)" by (cases uw)
    then show ?case
      using Cons ms_write_same [of t s s' w] ms_write_other [OF assms(1), of u w s]
      by (cases "u = t") (simp_all add: ms_writes_def)
  qed (simp add: ms_writes_def)
  then show ?thesis by simp
qed

text \<open>
  The colon does matter: tenant \<open>a:agents\<close> registers node \<open>x\<close>, and tenant \<open>a\<close> reads that agent as
  its own node \<open>agents:x\<close> and finds it in its listing.
\<close>

theorem colon_tenants_collide:
  "let s = ms_UpsertAgent ''a:agents'' (zero_agent\<lparr>a_NodeID := ''x''\<rparr>) NewMemoryStore;
       ks = [TenantKey ''a:agents'' ResourceAgent ''x'']
   in map_order (ms_agents s) ks \<and>
      map_option a_TenantID (ms_GetAgent ''a'' ''agents:x'' s) = Some ''a:agents'' \<and>
      map a_TenantID (ms_ListAgents ks ''a'' s) = [''a:agents'']"
  by (simp add: Let_def map_order_def ms_UpsertAgent_def ms_GetAgent_def ms_ListAgents_def
      NewMemoryStore_def TenantKey_def TenantPrefix_def ResourceAgent_def map_values_def
      List.map_filter_def)

section \<open>The contracts of the interface\<close>

interpretation ms_agent_records: tenant_records ms_UpsertAgent ms_GetAgent a_NodeID
  "\<lambda>t a. a\<lparr>a_TenantID := t\<rparr>"
  by unfold_locales (auto simp: ms_UpsertAgent_def ms_GetAgent_def Let_def TenantKey_eq)

interpretation ms_state_records: tenant_records ms_UpsertState ms_GetState ds_StateID
  "\<lambda>t st. st\<lparr>ds_TenantID := t\<rparr>"
  by unfold_locales (auto simp: ms_UpsertState_def ms_GetState_def Let_def TenantKey_eq)

interpretation ms_job_records: tenant_records ms_CreateJob ms_GetJob j_JobID
  "\<lambda>t j. j\<lparr>j_TenantID := t\<rparr>"
  by unfold_locales (auto simp: ms_CreateJob_def ms_GetJob_def Let_def TenantKey_eq)

text \<open>The counters hold \<open>int64\<close> values.\<close>

definition epochs_int64 :: "memory_store \<Rightarrow> bool" where
  "epochs_int64 s \<longleftrightarrow> (\<forall>r. min_int64 \<le> ms_GetDurableEpoch r s)"

interpretation ms_epoch: durable_epochs ms_IncrementDurableEpoch ms_GetDurableEpoch epochs_int64
proof unfold_locales
  fix s r n s'
  assume s: "epochs_int64 s" and i: "ms_IncrementDurableEpoch r s = (n, s')"
  then show "epochs_int64 s'"
    using wrap64_bounds
    by (auto simp: epochs_int64_def ms_IncrementDurableEpoch_def ms_GetDurableEpoch_def Let_def)
  assume "ms_GetDurableEpoch r s < max_int64"
  moreover have "min_int64 \<le> ms_GetDurableEpoch r s" using s by (simp add: epochs_int64_def)
  ultimately have "wrap64 (ms_GetDurableEpoch r s + 1) = ms_GetDurableEpoch r s + 1" by simp
  then show "n = ms_GetDurableEpoch r s + 1 \<and> ms_GetDurableEpoch r s' = n"
    using i by (auto simp: ms_IncrementDurableEpoch_def ms_GetDurableEpoch_def Let_def)
qed (auto simp: ms_IncrementDurableEpoch_def ms_GetDurableEpoch_def Let_def)

text \<open>
  Epochs are consecutive and never reused: whatever increments of other resources come in
  between, the epochs the memory store hands out for a resource are the current epoch plus 1, plus 2,
  and so on (below the end of \<open>int64\<close>).
\<close>

theorem memory_epochs_consecutive:
  assumes "epochs_int64 s" "ms_GetDurableEpoch r s + int (length rs) \<le> max_int64"
  shows "map snd (filter (\<lambda>(q, _). q = r) (issue ms_IncrementDurableEpoch rs s)) =
    map (\<lambda>k. ms_GetDurableEpoch r s + 1 + int k) [0..<count_list rs r]"
  by (rule ms_epoch.issued_consecutive [OF assms])

text \<open>
  Reads see the last write: after any sequence of upserts by any tenants (without colons),
  \<open>GetState\<close> returns the last state its tenant stored under the identifier, with the tenant filled in,
  or what was there before.
\<close>

theorem memory_state_last_write:
  assumes "no_colon t" "\<forall>(u, st) \<in> set puts. no_colon u"
  shows "ms_GetState t i (fold (\<lambda>(u, st). ms_UpsertState u st) puts s) =
    (case filter (\<lambda>(u, st). u = t \<and> ds_StateID st = i) (rev puts) of
       [] \<Rightarrow> ms_GetState t i s
     | (u, st) # _ \<Rightarrow> Some (st\<lparr>ds_TenantID := t\<rparr>))"
  by (rule ms_state_records.get_puts [OF assms])

section \<open>Optimistic locking\<close>

text \<open>
  The version check of \<open>MemoryStore.UpdateStateStatus\<close> does not serialise writers: a successful
  update leaves the version as it is, so a second writer holding the same version succeeds as well and
  overwrites the first one's status.
\<close>

theorem memory_status_lost_update:
  assumes "ms_UpdateStateStatus t i status1 err1 now1 v s = (Inr (), s')"
  shows "\<exists>st s''. ms_UpdateStateStatus t i status2 err2 now2 v s' = (Inr (), s'') \<and>
     ms_GetState t i s = Some st \<and>
     ms_GetState t i s'' =
       Some (st\<lparr>ds_Status := status2, ds_LastError := err2, ds_LastChecked := now2\<rparr>)"
  using assms
  by (auto simp: ms_UpdateStateStatus_def ms_GetState_def Let_def split: option.splits if_splits)

section \<open>Shards\<close>

lemma shard_filter_eq:
  assumes "1 < n" "n < 2 ^ 32"
  shows "shard_filter i n sts = Some (filter (\<lambda>st. shard_of (ds_NodeID st) n = Some i) sts)"
proof (induction sts)
  case (Cons st sts)
  obtain k where "shard_of (ds_NodeID st) n = Some k"
    using shard_of_range [of n "ds_NodeID st"] assms by auto
  then show ?case using Cons assms(1) by simp
qed simp

lemma mset_partition_upt:
  assumes "\<forall>x \<in> set xs. f x \<in> {0..<int n}"
  shows "mset (concat (map (\<lambda>i. filter (\<lambda>x. f x = int i) xs) [0..<n])) = mset xs"
  using assms
proof (induction n arbitrary: xs)
  case (Suc n)
  have "mset xs = mset (filter (\<lambda>x. f x < int n) xs) + mset (filter (\<lambda>x. \<not> f x < int n) xs)"
    by (simp add: mset_filter multiset_partition)
  moreover have "filter (\<lambda>x. \<not> f x < int n) xs = filter (\<lambda>x. f x = int n) xs"
    using Suc.prems by (intro filter_cong) auto
  moreover have "concat (map (\<lambda>i. filter (\<lambda>x. f x = int i) (filter (\<lambda>x. f x < int n) xs)) [0..<n]) =
      concat (map (\<lambda>i. filter (\<lambda>x. f x = int i) xs) [0..<n])"
    by (intro arg_cong [where f = concat] map_cong) (auto simp: filter_filter intro!: filter_cong)
  moreover have "mset (concat (map (\<lambda>i. filter (\<lambda>x. f x = int i) (filter (\<lambda>x. f x < int n) xs)) [0..<n])) =
      mset (filter (\<lambda>x. f x < int n) xs)"
    using Suc.prems by (intro Suc.IH) auto
  ultimately show ?case by simp
qed simp

text \<open>
  Sharded listings partition the states: the listings of shards \<open>0\<close> to \<open>n - 1\<close> together are the
  unsharded listing, no state twice and none missing, so after an election every pending or drifted
  state is rehydrated by exactly one control plane.
\<close>

theorem sharded_listings_partition:
  assumes "1 < n" "int n < 2 ^ 32"
  shows "mset (concat (map (\<lambda>i. the (ms_ListStatesByStatus ks status (int i) (int n) s)) [0..<n])) =
     mset (the (ms_ListStatesByStatus ks status 0 1 s)) \<and>
     (\<forall>i. ms_ListStatesByStatus ks status (int i) (int n) s \<noteq> None)"
proof -
  let ?sts = "filter (\<lambda>st. ds_Status st = status) (map_values (ms_states s) ks)"
  have one: "shard_filter 0 1 sts = Some sts" for sts by (induction sts) simp_all
  have l: "ms_ListStatesByStatus ks status (int i) (int n) s =
      Some (filter (\<lambda>st. the (shard_of (ds_NodeID st) (int n)) = int i) ?sts)" for i
  proof -
    have "shard_of x (int n) = Some k \<longleftrightarrow> the (shard_of x (int n)) = k" for x k
      using shard_of_range [of "int n" x] assms by auto
    then show ?thesis using assms by (simp add: ms_ListStatesByStatus_def shard_filter_eq)
  qed
  have "the (shard_of x (int n)) \<in> {0..<int n}" for x
    using shard_of_range [of "int n" x] assms by auto
  then have "mset (concat (map (\<lambda>i. filter (\<lambda>st. the (shard_of (ds_NodeID st) (int n)) = int i) ?sts) [0..<n])) =
      mset ?sts"
    by (intro mset_partition_upt) blast
  then show ?thesis by (simp add: l ms_ListStatesByStatus_def [of _ _ 0 1] one)
qed

section \<open>Witnesses\<close>

definition two_tenants :: "(string \<times> store_write) list" where
  "two_tenants = [(''a'', WAgent (zero_agent\<lparr>a_NodeID := ''x''\<rparr>)),
     (''b'', WAgent (zero_agent\<lparr>a_NodeID := ''x'', a_Tier := ''canary''\<rparr>)), (''b'', WHeartbeat ''x'' 7)]"

theorem tenants_do_not_interfere_witness:
  "tenant_view ''a'' (ms_writes two_tenants NewMemoryStore) =
   tenant_view ''a'' (ms_writes [(''a'', WAgent (zero_agent\<lparr>a_NodeID := ''x''\<rparr>))] NewMemoryStore)"
  using tenants_do_not_interfere [of "''a''" two_tenants NewMemoryStore]
  by (simp add: two_tenants_def no_colon_def)

theorem memory_epochs_consecutive_witness:
  "map snd (filter (\<lambda>(q, _). q = ''leader'')
     (issue ms_IncrementDurableEpoch [''leader'', ''x'', ''leader''] NewMemoryStore)) = [1, 2]"
  using memory_epochs_consecutive [of NewMemoryStore "''leader''" "[''leader'', ''x'', ''leader'']"]
  by (simp add: epochs_int64_def ms_GetDurableEpoch_def NewMemoryStore_def int64_defs)

theorem memory_state_last_write_witness:
  "map_option ds_CheckCmd (ms_GetState ''a'' ''s1''
     (fold (\<lambda>(u, st). ms_UpsertState u st)
        [(''a'', zero_state\<lparr>ds_StateID := ''s1'', ds_CheckCmd := ''old''\<rparr>),
         (''a'', zero_state\<lparr>ds_StateID := ''s1'', ds_CheckCmd := ''new''\<rparr>),
         (''b'', zero_state\<lparr>ds_StateID := ''s1''\<rparr>)] NewMemoryStore)) = Some ''new''"
  using memory_state_last_write [of "''a''"
      "[(''a'', zero_state\<lparr>ds_StateID := ''s1'', ds_CheckCmd := ''old''\<rparr>),
        (''a'', zero_state\<lparr>ds_StateID := ''s1'', ds_CheckCmd := ''new''\<rparr>),
        (''b'', zero_state\<lparr>ds_StateID := ''s1''\<rparr>)]" "''s1''" NewMemoryStore]
  by (simp add: no_colon_def)

theorem memory_status_lost_update_witness:
  "\<exists>s''. map_option ds_Status (ms_GetState ''a'' ''s1'' s'') = Some ''failed''"
  using memory_status_lost_update [of "''a''" "''s1''" "''compliant''" "[]" 1 0
      "ms_UpsertState ''a'' (zero_state\<lparr>ds_StateID := ''s1''\<rparr>) NewMemoryStore"
      _ "''failed''" "''boom''" 2]
  by (fastforce simp: ms_UpsertState_def ms_UpdateStateStatus_def NewMemoryStore_def zero_state_def)

definition one_pending :: memory_store where
  "one_pending = ms_UpsertState ''a'' (zero_state\<lparr>ds_StateID := ''s1'', ds_Status := ''pending''\<rparr>) NewMemoryStore"

theorem sharded_listings_partition_witness:
  "image_mset ds_StateID (mset (concat (map (\<lambda>i. the (ms_ListStatesByStatus
     [TenantKey ''a'' ResourceState ''s1''] ''pending'' (int i) (int 3) one_pending)) [0..<3]))) = {#''s1''#}"
proof -
  have "map ds_StateID (the (ms_ListStatesByStatus [TenantKey ''a'' ResourceState ''s1''] ''pending'' 0 1
      one_pending)) = [''s1'']"
    by (simp add: one_pending_def ms_ListStatesByStatus_def ms_UpsertState_def map_values_def
        List.map_filter_def Let_def)
  then have "image_mset ds_StateID (mset (the (ms_ListStatesByStatus
      [TenantKey ''a'' ResourceState ''s1''] ''pending'' 0 1 one_pending))) = {#''s1''#}"
    by (metis mset_map mset_single_iff)
  moreover have "1 < (3::nat)" "int 3 < 2 ^ 32" by simp_all
  ultimately show ?thesis by (simp only: sharded_listings_partition)
qed

end
