(* ===== verification/Reconciler.thy ===== *)
theory Reconciler
  imports MemoryStore
begin

text \<open>
  \<open>reconciler.go\<close> and the \<open>Dispatcher\<close> of \<open>jobs.go\<close>: one reconciliation of a desired state, by jobs that
  the agent of the node executes.

  The store is a parameter, the part of \<open>store/interface.go\<close> the reconciler uses as a record of
  functions over a state \<open>'s\<close>. So is everything that is not this program: the job identifier (random),
  the agent's HTTP reply, the context's errors, the clock, and what others do to the store while the
  reconciler waits (\<open>job_env\<close>). \<open>je_polls\<close> is how often the select statement of \<open>waitForJob\<close> takes
  the ticker before it takes the expired timeout. \<open>published\<close> and \<open>dispatched\<close> record the events
  handed to the publisher and the jobs handed to the dispatcher, oldest first. Log lines are
  left out, metrics are in \<open>Telemetry\<close>.
\<close>

section \<open>The store as the reconciler sees it\<close>

record 's store_api =
  st_GetState :: "string \<Rightarrow> string \<Rightarrow> 's \<Rightarrow> go_error + desired_state option"
  st_GetAgent :: "string \<Rightarrow> string \<Rightarrow> 's \<Rightarrow> go_error + agent option"
  st_GetJob :: "string \<Rightarrow> string \<Rightarrow> 's \<Rightarrow> go_error + job option"
  st_CreateJob :: "string \<Rightarrow> job \<Rightarrow> 's \<Rightarrow> go_error option \<times> 's"
  st_UpdateJobStatus :: "gotime \<Rightarrow> string \<Rightarrow> string \<Rightarrow> string \<Rightarrow> int \<Rightarrow> string \<Rightarrow> string \<Rightarrow> 's \<Rightarrow>
    go_error option \<times> 's"
  st_UpdateStateStatus :: "string \<Rightarrow> string \<Rightarrow> string \<Rightarrow> string \<Rightarrow> gotime \<Rightarrow> int \<Rightarrow> 's \<Rightarrow>
    go_error option \<times> 's"

section \<open>Dispatcher\<close>

text \<open>What becomes of the HTTP request.\<close>

datatype http_reply = RequestError go_error | NoContact go_error | StatusCode int

definition StatusAccepted :: int where "StatusAccepted = 202"

definition execute_url :: "agent \<Rightarrow> string" where
  "execute_url a = ''http://'' @ a_IPAddress a @ '':'' @ itoa (a_Port a) @ ''/execute''"

text \<open>The new status and stderr of the job.\<close>

definition dispatch_outcome :: "go_error option \<Rightarrow> http_reply \<Rightarrow> string \<times> string" where
  "dispatch_outcome ctx reply =
     (case ctx of
        Some _ \<Rightarrow> (''failed'', ''dispatch cancelled: leadership lost'')
      | None \<Rightarrow>
          (case reply of
             RequestError e \<Rightarrow> (''failed'', ''failed to create request: '' @ e)
           | NoContact e \<Rightarrow> (''failed'', ''failed to contact agent: '' @ e)
           | StatusCode c \<Rightarrow>
               if c \<noteq> StatusAccepted then (''failed'', ''agent returned status '' @ itoa c)
               else (''running'', [])))"

record 's job_env =
  je_JobID :: string
  je_created :: gotime
  je_ctx :: "go_error option"
  je_reply :: http_reply
  je_before_update :: "'s \<Rightarrow> 's"
  je_updated :: gotime
  je_polls :: nat
  je_world :: "nat \<Rightarrow> 's \<Rightarrow> 's"

definition DispatchJob :: "'s store_api \<Rightarrow> 's job_env \<Rightarrow> job \<Rightarrow> 's \<Rightarrow> 's" where
  "DispatchJob sa je j s =
     (let (status, err) = dispatch_outcome (je_ctx je) (je_reply je)
      in snd (st_UpdateJobStatus sa (je_updated je) (j_TenantID j) (j_JobID j) status 0 [] err
                (je_before_update je s)))"

section \<open>Reconciler\<close>

record event =
  e_state_id :: string
  e_node_id :: string
  e_new_status :: string
  e_reason :: string

record 's reconciler =
  rc_store :: 's
  activeReconciles :: "string \<rightharpoonup> bool"
  hasPublisher :: bool
  maxTaskRuntime :: duration
  ShadowMode :: bool
  published :: "event list"
  dispatched :: "(string \<times> string) list"

definition NewReconciler :: "'s \<Rightarrow> bool \<Rightarrow> 's reconciler" where
  "NewReconciler s pub =
     \<lparr>rc_store = s, activeReconciles = Map.empty, hasPublisher = pub, maxTaskRuntime = 5 * minute,
      ShadowMode = False, published = [], dispatched = []\<rparr>"

definition SetShadowMode :: "bool \<Rightarrow> 's reconciler \<Rightarrow> 's reconciler" where
  "SetShadowMode enabled rc = rc\<lparr>ShadowMode := enabled\<rparr>"

definition SetMaxTaskRuntime :: "duration \<Rightarrow> 's reconciler \<Rightarrow> 's reconciler" where
  "SetMaxTaskRuntime d rc = rc\<lparr>maxTaskRuntime := d\<rparr>"

definition IsAgentBusy :: "string \<Rightarrow> 's reconciler \<Rightarrow> bool" where
  "IsAgentBusy nodeID rc = map_read False (activeReconciles rc) nodeID"

definition acquireLock :: "string \<Rightarrow> 's reconciler \<Rightarrow> bool \<times> 's reconciler" where
  "acquireLock nodeID rc =
     (if map_read False (activeReconciles rc) nodeID then (False, rc)
      else (True, rc\<lparr>activeReconciles := (activeReconciles rc)(nodeID \<mapsto> True)\<rparr>))"

definition releaseLock :: "string \<Rightarrow> 's reconciler \<Rightarrow> 's reconciler" where
  "releaseLock nodeID rc = rc\<lparr>activeReconciles := (activeReconciles rc)(nodeID := None)\<rparr>"

definition updateStatus ::
  "'s store_api \<Rightarrow> string \<Rightarrow> string \<Rightarrow> desired_state \<Rightarrow> 's reconciler \<Rightarrow> desired_state \<times> 's reconciler"
where
  "updateStatus sa status lastError st rc =
     (let st' = st\<lparr>ds_Status := status, ds_LastError := lastError\<rparr>;
          (err, s) = st_UpdateStateStatus sa (ds_TenantID st') (ds_StateID st') status lastError
                       (ds_LastChecked st') (ds_Version st') (rc_store rc);
          rc' = rc\<lparr>rc_store := s\<rparr>
      in if err = None \<and> hasPublisher rc
         then (st', rc'\<lparr>published := published rc' @
                [\<lparr>e_state_id = ds_StateID st', e_node_id = ds_NodeID st', e_new_status = status,
                  e_reason = lastError\<rparr>]\<rparr>)
         else (st', rc'))"

text \<open>\<open>waitForJob\<close>: round \<open>k\<close> of the loop, after what the world did since the last round.\<close>

fun waitForJob ::
  "'s store_api \<Rightarrow> (nat \<Rightarrow> 's \<Rightarrow> 's) \<Rightarrow> string \<Rightarrow> string \<Rightarrow> nat \<Rightarrow> nat \<Rightarrow> 's \<Rightarrow> (go_error + int) \<times> 's"
where
  "waitForJob sa world tenantID jobID k 0 s = (Inl (''timeout waiting for job '' @ jobID), world k s)"
| "waitForJob sa world tenantID jobID k (Suc polls) s =
     (let s' = world k s in
      case st_GetJob sa tenantID jobID s' of
        Inl e \<Rightarrow> (Inl (''error getting job '' @ jobID @ '': '' @ e), s')
      | Inr None \<Rightarrow> (Inl (''job '' @ jobID @ '' lost''), s')
      | Inr (Some j) \<Rightarrow>
          if j_Status j = ''completed'' then (Inr (j_ExitCode j), s')
          else if j_Status j = ''failed'' then (Inl (''job execution failed: '' @ j_Stderr j), s')
          else waitForJob sa world tenantID jobID (Suc k) polls s')"

definition new_job :: "'s job_env \<Rightarrow> agent \<Rightarrow> string \<Rightarrow> job" where
  "new_job je a command =
     zero_job\<lparr>j_JobID := je_JobID je, j_NodeID := a_NodeID a, j_TenantID := a_TenantID a,
              j_Command := command, j_Status := ''queued'', j_CreatedAt := je_created je\<rparr>"

definition executeJob ::
  "'s store_api \<Rightarrow> 's job_env \<Rightarrow> agent \<Rightarrow> string \<Rightarrow> 's reconciler \<Rightarrow> (go_error + int) \<times> 's reconciler"
where
  "executeJob sa je a command rc =
     (let j = new_job je a command in
      case st_CreateJob sa (a_TenantID a) j (rc_store rc) of
        (Some e, s) \<Rightarrow> (Inl (''failed to create job: '' @ e), rc\<lparr>rc_store := s\<rparr>)
      | (None, s) \<Rightarrow>
          (let (res, s') = waitForJob sa (je_world je) (a_TenantID a) (j_JobID j) 0 (je_polls je)
                             (DispatchJob sa je j s)
           in (res, rc\<lparr>rc_store := s', dispatched := dispatched rc @ [(a_NodeID a, command)]\<rparr>)))"

definition runCheck ::
  "'s store_api \<Rightarrow> 's job_env \<Rightarrow> gotime \<Rightarrow> agent \<Rightarrow> desired_state \<Rightarrow> 's reconciler \<Rightarrow>
   bool \<times> desired_state \<times> 's reconciler"
where
  "runCheck sa je now a st rc =
     (case executeJob sa je a (ds_CheckCmd st) rc of
        (Inl e, rc') \<Rightarrow> (False, updateStatus sa ''failed'' (''check failed: '' @ e) st rc')
      | (Inr exitCode, rc') \<Rightarrow>
          (let st' = st\<lparr>ds_LastChecked := now\<rparr> in
           if exitCode = ds_DesiredExitCode st'
           then (False, updateStatus sa ''compliant'' [] st' rc')
           else (True, updateStatus sa ''drifted''
                   (''exit code '' @ itoa exitCode @ '' (expected '' @ itoa (ds_DesiredExitCode st') @ '')'')
                   st' rc')))"

definition runApply ::
  "'s store_api \<Rightarrow> 's job_env \<Rightarrow> agent \<Rightarrow> desired_state \<Rightarrow> 's reconciler \<Rightarrow>
   bool \<times> desired_state \<times> 's reconciler"
where
  "runApply sa je a st0 rc0 =
     (let (st, rc) = updateStatus sa ''applying'' [] st0 rc0 in
      if ShadowMode rc then (True, st, rc)
      else case executeJob sa je a (ds_ApplyCmd st) rc of
          (Inl e, rc') \<Rightarrow> (False, updateStatus sa ''failed'' (''apply failed: '' @ e) st rc')
        | (Inr _, rc') \<Rightarrow> (True, st, rc'))"

definition runFinalCheck ::
  "'s store_api \<Rightarrow> 's job_env \<Rightarrow> gotime \<Rightarrow> agent \<Rightarrow> desired_state \<Rightarrow> 's reconciler \<Rightarrow>
   desired_state \<times> 's reconciler"
where
  "runFinalCheck sa je now a st rc =
     (case executeJob sa je a (ds_CheckCmd st) rc of
        (Inl e, rc') \<Rightarrow> updateStatus sa ''failed'' (''final check failed: '' @ e) st rc'
      | (Inr exitCode, rc') \<Rightarrow>
          (let st' = st\<lparr>ds_LastChecked := now\<rparr> in
           if exitCode = ds_DesiredExitCode st'
           then updateStatus sa ''compliant'' [] st' rc'
           else updateStatus sa ''failed'' (''drift persisted (exit code '' @ itoa exitCode @ '')'') st' rc'))"

text \<open>The context's error at the three checks, the environments of the three jobs, and the readings
  stored as \<open>LastChecked\<close>.\<close>

record 's rec_env =
  re_ctx0 :: "go_error option"
  re_ctx1 :: "go_error option"
  re_ctx2 :: "go_error option"
  re_check :: "'s job_env"
  re_apply :: "'s job_env"
  re_final :: "'s job_env"
  re_checked :: gotime
  re_verified :: gotime

text \<open>The part that runs under the agent's lock.\<close>

definition reconcile_locked ::
  "'s store_api \<Rightarrow> 's rec_env \<Rightarrow> desired_state \<Rightarrow> 's reconciler \<Rightarrow> go_error option \<times> 's reconciler"
where
  "reconcile_locked sa re st rc =
     (case re_ctx1 re of
        Some e \<Rightarrow> (Some (''reconciliation cancelled: '' @ e), rc)
      | None \<Rightarrow>
          case st_GetAgent sa (ds_TenantID st) (ds_NodeID st) (rc_store rc) of
            Inl e \<Rightarrow> (Some e, rc)
          | Inr None \<Rightarrow> (Some ''agent not found'', snd (updateStatus sa ''failed'' ''agent not found'' st rc))
          | Inr (Some a) \<Rightarrow>
              (let (drift, st1, rc1) = runCheck sa (re_check re) (re_checked re) a st rc in
               if \<not> drift then (Some ''check phase failed'', rc1)
               else case re_ctx2 re of
                   Some e \<Rightarrow> (Some (''reconciliation cancelled: '' @ e), rc1)
                 | None \<Rightarrow>
                     (let (ok, st2, rc2) = runApply sa (re_apply re) a st1 rc1 in
                      if \<not> ok then (Some ''apply phase failed'', rc2)
                      else
                        let (st3, rc3) = runFinalCheck sa (re_final re) (re_verified re) a st2 rc2 in
                        if ds_Status st3 = ''failed'' then (Some ''final check failed'', rc3)
                        else (None, rc3))))"

definition reconcileWithContext ::
  "'s store_api \<Rightarrow> 's rec_env \<Rightarrow> string \<Rightarrow> string \<Rightarrow> 's reconciler \<Rightarrow> go_error option \<times> 's reconciler"
where
  "reconcileWithContext sa re tenantID stateID rc =
     (case re_ctx0 re of
        Some e \<Rightarrow> (Some (''reconciliation cancelled: '' @ e), rc)
      | None \<Rightarrow>
          case st_GetState sa tenantID stateID (rc_store rc) of
            Inl e \<Rightarrow> (Some e, rc)
          | Inr None \<Rightarrow> (Some ''state not found'', rc)
          | Inr (Some st) \<Rightarrow>
              (let (ok, rc1) = acquireLock (ds_NodeID st) rc in
               if \<not> ok then (None, rc1)
               else
                 let (res, rc2) = reconcile_locked sa re st rc1
                 in (res, releaseLock (ds_NodeID st) rc2)))"

text \<open>\<open>Reconcile\<close> runs it under a context that expires after \<open>maxTaskRuntime\<close>; the expiry shows in the
  context readings of \<open>rec_env\<close>.\<close>

definition Reconcile ::
  "'s store_api \<Rightarrow> 's rec_env \<Rightarrow> string \<Rightarrow> string \<Rightarrow> 's reconciler \<Rightarrow> go_error option \<times> 's reconciler"
where
  "Reconcile sa re tenantID stateID rc = reconcileWithContext sa re tenantID stateID rc"

end
