(* ===== verification/Reconciliation.thy ===== *)
theory Reconciliation
  imports Reconciler "HOL-Library.Sublist"
begin

text \<open>
  What one reconciliation guarantees: the agent's lock, the jobs it sends and in which order, what its
  result means, and how it waits for a job.
\<close>

section \<open>Frames\<close>

definition locks_kept :: "'s reconciler \<Rightarrow> 's reconciler \<Rightarrow> bool" where
  "locks_kept rc rc' \<longleftrightarrow> activeReconciles rc' = activeReconciles rc \<and> ShadowMode rc' = ShadowMode rc \<and>
     hasPublisher rc' = hasPublisher rc"

lemma locks_kept_refl [simp]: "locks_kept rc rc"
  by (simp add: locks_kept_def)

lemma locks_kept_trans: "locks_kept a b \<Longrightarrow> locks_kept b c \<Longrightarrow> locks_kept a c"
  by (simp add: locks_kept_def)

lemma updateStatus_kept:
  "locks_kept rc (snd (updateStatus sa status err st rc))"
  "dispatched (snd (updateStatus sa status err st rc)) = dispatched rc"
  by (simp_all add: updateStatus_def Let_def split_beta locks_kept_def)

lemma updateStatus_state [simp]:
  "fst (updateStatus sa status err st rc) = st\<lparr>ds_Status := status, ds_LastError := err\<rparr>"
  by (simp add: updateStatus_def Let_def split_beta)

lemma executeJob_kept:
  "locks_kept rc (snd (executeJob sa je a command rc))"
  "\<exists>cs. map snd (dispatched (snd (executeJob sa je a command rc))) = map snd (dispatched rc) @ cs \<and>
     (cs = [command] \<or> cs = [] \<and> (\<exists>e. fst (executeJob sa je a command rc) = Inl e))"
proof -
  obtain err s where c: "st_CreateJob sa (a_TenantID a) (new_job je a command) (rc_store rc) = (err, s)"
    by fastforce
  show "locks_kept rc (snd (executeJob sa je a command rc))"
    by (cases err) (simp_all add: executeJob_def Let_def c split_beta locks_kept_def)
  show "\<exists>cs. map snd (dispatched (snd (executeJob sa je a command rc))) = map snd (dispatched rc) @ cs \<and>
     (cs = [command] \<or> cs = [] \<and> (\<exists>e. fst (executeJob sa je a command rc) = Inl e))"
    by (cases err) (simp_all add: executeJob_def Let_def c split_beta)
qed

text \<open>The outcomes of the three phases.\<close>

lemma runCheck_cases:
  obtains (error) e rc1 where "executeJob sa je a (ds_CheckCmd st) rc = (Inl e, rc1)"
      "runCheck sa je now a st rc = (False, updateStatus sa ''failed'' (''check failed: '' @ e) st rc1)"
  | (compliant) rc1 where "executeJob sa je a (ds_CheckCmd st) rc = (Inr (ds_DesiredExitCode st), rc1)"
      "runCheck sa je now a st rc =
       (False, updateStatus sa ''compliant'' [] (st\<lparr>ds_LastChecked := now\<rparr>) rc1)"
  | (drifted) code rc1 msg where "executeJob sa je a (ds_CheckCmd st) rc = (Inr code, rc1)"
      "code \<noteq> ds_DesiredExitCode st"
      "runCheck sa je now a st rc =
       (True, updateStatus sa ''drifted'' msg (st\<lparr>ds_LastChecked := now\<rparr>) rc1)"
proof -
  obtain res rc1 where x: "executeJob sa je a (ds_CheckCmd st) rc = (res, rc1)" by fastforce
  show ?thesis
  proof (cases res)
    case (Inl e)
    show ?thesis by (rule error) (simp_all add: runCheck_def x Inl)
  next
    case (Inr code)
    show ?thesis
    proof (cases "code = ds_DesiredExitCode st")
      case True
      show ?thesis by (rule compliant) (simp_all add: runCheck_def x Inr True Let_def)
    next
      case False
      have "executeJob sa je a (ds_CheckCmd st) rc = (Inr code, rc1)" using x Inr by simp
      then show ?thesis using False by (rule drifted) (simp add: runCheck_def x Inr False Let_def)
    qed
  qed
qed

lemma runFinalCheck_cases:
  obtains (bad) st' rc' where "runFinalCheck sa je now a st rc = (st', rc')" "ds_Status st' = ''failed''"
  | (good) rc1 st' rc' where "executeJob sa je a (ds_CheckCmd st) rc = (Inr (ds_DesiredExitCode st), rc1)"
      "runFinalCheck sa je now a st rc = (st', rc')"
proof -
  obtain res rc1 where x: "executeJob sa je a (ds_CheckCmd st) rc = (res, rc1)" by fastforce
  obtain st' rc' where f: "runFinalCheck sa je now a st rc = (st', rc')" by fastforce
  show ?thesis
  proof (cases "res = Inr (ds_DesiredExitCode st)")
    case True
    show ?thesis by (rule good [OF _ f]) (simp add: x True)
  next
    case False
    have "ds_Status (fst (runFinalCheck sa je now a st rc)) = ''failed''"
      using False by (cases res) (simp_all add: runFinalCheck_def x Let_def)
    then show ?thesis by (intro bad [OF f]) (simp add: f)
  qed
qed

text \<open>A phase keeps the locks and sends its commands in order.\<close>

definition sends :: "string list \<Rightarrow> 's reconciler \<Rightarrow> 's reconciler \<Rightarrow> bool" where
  "sends cs rc rc' \<longleftrightarrow> locks_kept rc rc' \<and> map snd (dispatched rc') = map snd (dispatched rc) @ cs"

lemma sends_refl [simp]: "sends [] rc rc"
  by (simp add: sends_def)

lemma sends_trans: "sends cs a b \<Longrightarrow> sends ds b c \<Longrightarrow> sends (cs @ ds) a c"
  by (auto simp: sends_def intro: locks_kept_trans)

lemma sends_status:
  assumes "sends cs rc rc'" "updateStatus sa status err st rc' = (st', rc'')"
  shows "sends cs rc rc''"
proof -
  have "sends [] rc' (snd (updateStatus sa status err st rc'))"
    by (simp add: sends_def updateStatus_kept)
  then show ?thesis using sends_trans [OF assms(1)] assms(2) by fastforce
qed

lemma sends_job:
  assumes "executeJob sa je a command rc = (res, rc')"
  shows "\<exists>cs. sends cs rc rc' \<and> (cs = [command] \<or> cs = [] \<and> (\<exists>e. res = Inl e))"
  using executeJob_kept [where sa = sa and je = je and a = a and command = command and rc = rc] assms
  by (auto simp: sends_def)

lemma runCheck_sends:
  assumes "runCheck sa je now a st rc = (drift, st', rc')"
  shows "\<exists>cs. sends cs rc rc' \<and> (cs = [ds_CheckCmd st] \<or> cs = [] \<and> \<not> drift) \<and>
     ds_ApplyCmd st' = ds_ApplyCmd st \<and> ds_CheckCmd st' = ds_CheckCmd st \<and>
     ds_DesiredExitCode st' = ds_DesiredExitCode st"
proof -
  obtain res rc1 where x: "executeJob sa je a (ds_CheckCmd st) rc = (res, rc1)" by fastforce
  from sends_job [OF x] obtain cs where cs: "sends cs rc rc1"
      "cs = [ds_CheckCmd st] \<or> cs = [] \<and> (\<exists>e. res = Inl e)" by blast
  obtain status err now' where u: "updateStatus sa status err (st\<lparr>ds_LastChecked := now'\<rparr>) rc1 = (st', rc')"
      "(\<exists>e. res = Inl e) \<longrightarrow> \<not> drift"
  proof (cases rule: runCheck_cases [where sa = sa and je = je and now = now and a = a and st = st and rc = rc])
    case (error e rc1')
    then show ?thesis
      using assms x that [of "''failed''" "''check failed: '' @ e" "ds_LastChecked st"] by simp
  next
    case (compliant rc1')
    then show ?thesis using assms x that [of "''compliant''" "[]" now] by simp
  next
    case (drifted code rc1' msg)
    then show ?thesis using assms x that [of "''drifted''" msg now] by simp
  qed
  have "st' = st\<lparr>ds_LastChecked := now', ds_Status := status, ds_LastError := err\<rparr>"
    using arg_cong [OF u(1), of fst] by simp
  then show ?thesis using sends_status [OF cs(1) u(1)] cs(2) u(2) by auto
qed

lemma runApply_sends:
  assumes "runApply sa je a st rc = (ok, st', rc')"
  shows "\<exists>cs. sends cs rc rc' \<and>
     (cs = (if ShadowMode rc then [] else [ds_ApplyCmd st]) \<or> cs = [] \<and> \<not> ok) \<and>
     ds_CheckCmd st' = ds_CheckCmd st \<and> ds_DesiredExitCode st' = ds_DesiredExitCode st"
proof -
  obtain st1 rc1 where u: "updateStatus sa ''applying'' [] st rc = (st1, rc1)" by fastforce
  have s1: "sends [] rc rc1" using sends_status [OF sends_refl u] .
  have st1: "st1 = st\<lparr>ds_Status := ''applying'', ds_LastError := []\<rparr>"
    using arg_cong [OF u, of fst] by simp
  have sh: "ShadowMode rc1 = ShadowMode rc" using s1 by (simp add: sends_def locks_kept_def)
  obtain res rc2 where x: "executeJob sa je a (ds_ApplyCmd st1) rc1 = (res, rc2)" by fastforce
  from sends_job [OF x] obtain cs where cs: "sends cs rc1 rc2"
      "cs = [ds_ApplyCmd st1] \<or> cs = [] \<and> (\<exists>e. res = Inl e)" by blast
  have cs': "sends cs rc rc2" using sends_trans [OF s1 cs(1)] by simp
  show ?thesis
  proof (cases "ShadowMode rc")
    case True
    then have "st' = st1" "rc' = rc1" using assms sh by (simp_all add: runApply_def u)
    then show ?thesis using s1 st1 True by auto
  next
    case False
    show ?thesis
    proof (cases res)
      case (Inl e)
      then have "(ok, (st', rc')) = (False, updateStatus sa ''failed'' (''apply failed: '' @ e) st1 rc2)"
        using assms sh False by (simp add: runApply_def u x)
      then have ok: "\<not> ok" and upd: "updateStatus sa ''failed'' (''apply failed: '' @ e) st1 rc2 = (st', rc')"
        by simp_all
      have "st' = st1\<lparr>ds_Status := ''failed'', ds_LastError := ''apply failed: '' @ e\<rparr>"
        using arg_cong [OF upd, of fst] by simp
      then have "ds_CheckCmd st' = ds_CheckCmd st \<and> ds_DesiredExitCode st' = ds_DesiredExitCode st"
        by (simp add: st1)
      moreover have "cs = [ds_ApplyCmd st] \<or> cs = [] \<and> \<not> ok" using cs(2) ok by (auto simp: st1)
      ultimately show ?thesis using sends_status [OF cs' upd] False by auto
    next
      case (Inr code)
      then have "st' = st1" "rc' = rc2" using assms sh False by (simp_all add: runApply_def u x)
      then show ?thesis using cs' cs(2) st1 Inr False by auto
    qed
  qed
qed

lemma runFinalCheck_sends:
  assumes "runFinalCheck sa je now a st rc = (st', rc')"
  shows "\<exists>cs. sends cs rc rc' \<and> (cs = [ds_CheckCmd st] \<or> cs = [])"
proof -
  obtain res rc1 where x: "executeJob sa je a (ds_CheckCmd st) rc = (res, rc1)" by fastforce
  from sends_job [OF x] obtain cs where cs: "sends cs rc rc1" "cs = [ds_CheckCmd st] \<or> cs = []" by blast
  have "\<exists>status err st1. updateStatus sa status err st1 rc1 = (st', rc')"
    using assms by (cases res) (auto simp: runFinalCheck_def x Let_def split: if_splits)
  then show ?thesis using sends_status [OF cs(1)] cs(2) by blast
qed

text \<open>The codes behind a detected drift and behind a final check that did not fail.\<close>

lemma runCheck_drift:
  assumes "runCheck sa je now a st rc = (True, st', rc')"
  shows "\<exists>code rc1. executeJob sa je a (ds_CheckCmd st) rc = (Inr code, rc1) \<and> code \<noteq> ds_DesiredExitCode st"
  by (cases rule: runCheck_cases [where sa = sa and je = je and now = now and a = a and st = st and rc = rc])
    (use assms in auto)

lemma runFinalCheck_success:
  assumes "runFinalCheck sa je now a st rc = (st', rc')" "ds_Status st' \<noteq> ''failed''"
  shows "(\<exists>rcf. executeJob sa je a (ds_CheckCmd st) rc = (Inr (ds_DesiredExitCode st), rcf)) \<and>
     sends [ds_CheckCmd st] rc rc'"
proof (cases rule: runFinalCheck_cases [where sa = sa and je = je and now = now and a = a and st = st and rc = rc])
  case (bad st'' rc'')
  then show ?thesis using assms by simp
next
  case (good rcf st'' rc'')
  have "updateStatus sa ''compliant'' [] (st\<lparr>ds_LastChecked := now\<rparr>) rcf = (st', rc')"
    using assms(1) good(1) by (simp add: runFinalCheck_def Let_def)
  moreover from sends_job [OF good(1)] have "sends [ds_CheckCmd st] rc rcf" by auto
  ultimately show ?thesis using sends_status good(1) by blast
qed

section \<open>The whole reconciliation\<close>

definition planned :: "bool \<Rightarrow> desired_state \<Rightarrow> string list" where
  "planned shadow st = [ds_CheckCmd st] @ (if shadow then [] else [ds_ApplyCmd st]) @ [ds_CheckCmd st]"

text \<open>What success means: the first check returned another code than the desired one, the last check
  returned the desired one.\<close>

definition verified :: "'s store_api \<Rightarrow> 's rec_env \<Rightarrow> desired_state \<Rightarrow> bool" where
  "verified sa re st \<longleftrightarrow>
     (\<exists>a code rc0 rc1 rc2 rc3.
        executeJob sa (re_check re) a (ds_CheckCmd st) rc0 = (Inr code, rc1) \<and>
        code \<noteq> ds_DesiredExitCode st \<and>
        executeJob sa (re_final re) a (ds_CheckCmd st) rc2 = (Inr (ds_DesiredExitCode st), rc3))"

lemma reconcile_locked_cases:
  obtains (early) "dispatched (snd (reconcile_locked sa re st rc)) = dispatched rc"
      "locks_kept rc (snd (reconcile_locked sa re st rc))" "fst (reconcile_locked sa re st rc) \<noteq> None"
  | (agent) a where "reconcile_locked sa re st rc =
       (let (drift, st1, rc1) = runCheck sa (re_check re) (re_checked re) a st rc in
        if \<not> drift then (Some ''check phase failed'', rc1)
        else case re_ctx2 re of
            Some e \<Rightarrow> (Some (''reconciliation cancelled: '' @ e), rc1)
          | None \<Rightarrow>
              (let (ok, st2, rc2) = runApply sa (re_apply re) a st1 rc1 in
               if \<not> ok then (Some ''apply phase failed'', rc2)
               else
                 let (st3, rc3) = runFinalCheck sa (re_final re) (re_verified re) a st2 rc2 in
                 if ds_Status st3 = ''failed'' then (Some ''final check failed'', rc3)
                 else (None, rc3)))"
       "re_ctx1 re = None" "st_GetAgent sa (ds_TenantID st) (ds_NodeID st) (rc_store rc) = Inr (Some a)"
proof -
  let ?get = "st_GetAgent sa (ds_TenantID st) (ds_NodeID st) (rc_store rc)"
  show ?thesis
  proof (cases "re_ctx1 re = None \<and> (\<exists>a. ?get = Inr (Some a))")
    case True
    then obtain a where "re_ctx1 re = None" "?get = Inr (Some a)" by blast
    then show ?thesis by (intro agent [of a]) (simp_all add: reconcile_locked_def)
  next
    case False
    show ?thesis
      by (rule early; cases "re_ctx1 re"; cases ?get)
        (use False in \<open>auto simp: reconcile_locked_def updateStatus_kept split: option.split\<close>)
  qed
qed

lemma reconcile_locked_sends:
  assumes "reconcile_locked sa re st rc = (res, rc')"
  shows "\<exists>cs. sends cs rc rc' \<and> prefix cs (planned (ShadowMode rc) st) \<and>
     (res = None \<longrightarrow> cs = planned (ShadowMode rc) st \<and> verified sa re st)"
proof (cases rule: reconcile_locked_cases [where sa = sa and re = re and st = st and rc = rc])
  case early
  then show ?thesis using assms by (intro exI [of _ "[]"]) (auto simp: sends_def)
next
  case (agent a)
  obtain drift st1 rc1 where c: "runCheck sa (re_check re) (re_checked re) a st rc = (drift, st1, rc1)"
    by (metis prod_cases3)
  from runCheck_sends [OF c] obtain cs1 where cs1: "sends cs1 rc rc1" "cs1 = [ds_CheckCmd st] \<or> cs1 = [] \<and> \<not> drift"
    and st1: "ds_ApplyCmd st1 = ds_ApplyCmd st" "ds_CheckCmd st1 = ds_CheckCmd st"
      "ds_DesiredExitCode st1 = ds_DesiredExitCode st" by blast
  have sh: "ShadowMode rc1 = ShadowMode rc" using cs1(1) by (simp add: sends_def locks_kept_def)
  have pre1: "prefix cs1 (planned (ShadowMode rc) st)" using cs1(2) by (auto simp: planned_def)
  show ?thesis
  proof (cases "drift \<and> re_ctx2 re = None")
    case False
    then have "res \<noteq> None" "rc' = rc1"
      using assms by (auto simp: agent(1) c split: option.splits if_splits)
    then show ?thesis using cs1(1) pre1 by blast
  next
    case True
    obtain ok st2 rc2 where ap: "runApply sa (re_apply re) a st1 rc1 = (ok, st2, rc2)" by (metis prod_cases3)
    from runApply_sends [OF ap] obtain cs2 where cs2: "sends cs2 rc1 rc2"
        "cs2 = (if ShadowMode rc then [] else [ds_ApplyCmd st]) \<or> cs2 = [] \<and> \<not> ok"
      and st2: "ds_CheckCmd st2 = ds_CheckCmd st" "ds_DesiredExitCode st2 = ds_DesiredExitCode st"
      using sh st1 by auto
    have to2: "sends ([ds_CheckCmd st] @ cs2) rc rc2"
      using sends_trans [OF cs1(1) cs2(1)] cs1(2) True by auto
    show ?thesis
    proof (cases ok)
      case False
      then have "res \<noteq> None" "rc' = rc2" using assms True by (auto simp: agent(1) c ap)
      moreover have "prefix ([ds_CheckCmd st] @ cs2) (planned (ShadowMode rc) st)"
        using cs2(2) by (auto simp: planned_def)
      ultimately show ?thesis using to2 by blast
    next
      case ok: True
      obtain st3 rc3 where fc: "runFinalCheck sa (re_final re) (re_verified re) a st2 rc2 = (st3, rc3)" by fastforce
      from runFinalCheck_sends [OF fc] obtain cs3 where cs3: "sends cs3 rc2 rc3"
          "cs3 = [ds_CheckCmd st] \<or> cs3 = []" unfolding st2 by blast
      have rc3: "rc' = rc3" "res = None \<longleftrightarrow> ds_Status st3 \<noteq> ''failed''"
        using assms True ok by (auto simp: agent(1) c ap fc split: if_splits)
      have to3: "sends (([ds_CheckCmd st] @ cs2) @ cs3) rc rc3" by (rule sends_trans [OF to2 cs3(1)])
      have pre: "prefix (([ds_CheckCmd st] @ cs2) @ cs3) (planned (ShadowMode rc) st)"
        using cs2(2) cs3(2) ok by (auto simp: planned_def)
      have "cs3 = [ds_CheckCmd st] \<and> verified sa re st" if none: "res = None"
      proof -
        from runFinalCheck_success [OF fc] none rc3 st2 cs3(1)
        have "cs3 = [ds_CheckCmd st]"
            "\<exists>rcf. executeJob sa (re_final re) a (ds_CheckCmd st) rc2 = (Inr (ds_DesiredExitCode st), rcf)"
          by (auto simp: sends_def)
        moreover have "runCheck sa (re_check re) (re_checked re) a st rc = (True, st1, rc1)" using c True by simp
        ultimately show ?thesis using runCheck_drift unfolding verified_def by blast
      qed
      then show ?thesis using to3 pre rc3 cs2(2) ok by (intro exI [of _ "([ds_CheckCmd st] @ cs2) @ cs3"]) (auto simp: planned_def)
    qed
  qed
qed

lemma IsAgentBusy_acquire [simp]:
  "fst (acquireLock n rc) \<longleftrightarrow> \<not> IsAgentBusy n rc"
  "IsAgentBusy n rc \<Longrightarrow> snd (acquireLock n rc) = rc"
  by (simp_all add: acquireLock_def IsAgentBusy_def)

text \<open>Everything a call of \<open>Reconcile\<close> can do, by what it reads first.\<close>

lemma Reconcile_cases:
  obtains (idle) "snd (Reconcile sa re t i rc) = rc"
      "fst (Reconcile sa re t i rc) = None \<longrightarrow>
         (\<exists>st. st_GetState sa t i (rc_store rc) = Inr (Some st) \<and> IsAgentBusy (ds_NodeID st) rc)"
  | (started) st rc1 res rc2 where "st_GetState sa t i (rc_store rc) = Inr (Some st)"
      "\<not> IsAgentBusy (ds_NodeID st) rc" "rc1 = rc\<lparr>activeReconciles := (activeReconciles rc)(ds_NodeID st \<mapsto> True)\<rparr>"
      "reconcile_locked sa re st rc1 = (res, rc2)" "Reconcile sa re t i rc = (res, releaseLock (ds_NodeID st) rc2)"
proof -
  let ?get = "st_GetState sa t i (rc_store rc)"
  show ?thesis
  proof (cases "re_ctx0 re = None \<and> (\<exists>st. ?get = Inr (Some st) \<and> \<not> IsAgentBusy (ds_NodeID st) rc)")
    case True
    then obtain st where st: "re_ctx0 re = None" "?get = Inr (Some st)" "\<not> IsAgentBusy (ds_NodeID st) rc" by blast
    let ?rc1 = "rc\<lparr>activeReconciles := (activeReconciles rc)(ds_NodeID st \<mapsto> True)\<rparr>"
    obtain res rc2 where l: "reconcile_locked sa re st ?rc1 = (res, rc2)" by fastforce
    have "acquireLock (ds_NodeID st) rc = (True, ?rc1)" using st(3) by (simp add: acquireLock_def IsAgentBusy_def)
    then show ?thesis
      using st l by (intro started [OF st(2,3) refl l]) (simp add: Reconcile_def reconcileWithContext_def)
  next
    case False
    have "snd (Reconcile sa re t i rc) = rc \<and> (fst (Reconcile sa re t i rc) = None \<longrightarrow>
         (\<exists>st. ?get = Inr (Some st) \<and> IsAgentBusy (ds_NodeID st) rc))"
      using False by (cases "re_ctx0 re"; cases ?get)
        (auto simp: Reconcile_def reconcileWithContext_def acquireLock_def IsAgentBusy_def split: option.split)
    then show ?thesis by (elim conjE) (rule idle)
  qed
qed

section \<open>The memory store behind the reconciler\<close>

definition error_of :: "(go_error + unit) \<times> 's \<Rightarrow> go_error option \<times> 's" where
  "error_of r = (case fst r of Inl e \<Rightarrow> Some e | Inr _ \<Rightarrow> None, snd r)"

definition memory_api :: "memory_store store_api" where
  "memory_api =
     \<lparr>st_GetState = (\<lambda>t i s. Inr (ms_GetState t i s)),
      st_GetAgent = (\<lambda>t n s. Inr (ms_GetAgent t n s)),
      st_GetJob = (\<lambda>t i s. Inr (ms_GetJob t i s)),
      st_CreateJob = (\<lambda>t j s. (None, ms_CreateJob t j s)),
      st_UpdateJobStatus = (\<lambda>now t i status code out err s. error_of (ms_UpdateJobStatus now t i status code out err s)),
      st_UpdateStateStatus = (\<lambda>t i status err now v s. error_of (ms_UpdateStateStatus t i status err now v s))\<rparr>"

section \<open>Waiting for a job\<close>

text \<open>The store at the poll of round \<open>n\<close>, and what that poll finds.\<close>

definition poll_state :: "(nat \<Rightarrow> 's \<Rightarrow> 's) \<Rightarrow> nat \<Rightarrow> nat \<Rightarrow> 's \<Rightarrow> 's" where
  "poll_state world k n s = fold world [k..<Suc n] s"

definition poll :: "'s store_api \<Rightarrow> (nat \<Rightarrow> 's \<Rightarrow> 's) \<Rightarrow> string \<Rightarrow> string \<Rightarrow> nat \<Rightarrow> nat \<Rightarrow> 's \<Rightarrow>
  (go_error + job option)" where
  "poll sa world t i k n s = st_GetJob sa t i (poll_state world k n s)"

definition still_open :: "go_error + job option \<Rightarrow> bool" where
  "still_open r \<longleftrightarrow> (\<exists>j. r = Inr (Some j) \<and> j_Status j \<notin> {''completed'', ''failed''})"

lemma poll_start [simp]: "poll sa world t i k k s = st_GetJob sa t i (world k s)"
  by (simp add: poll_def poll_state_def)

lemma poll_later: "k < n \<Longrightarrow> poll sa world t i k n s = poll sa world t i (Suc k) n (world k s)"
  by (simp add: poll_def poll_state_def upt_conv_Cons)

lemma waitForJob_decided:
  assumes "\<not> still_open (poll sa world t i k k s)"
  shows "fst (waitForJob sa world t i k (Suc polls) s) = Inr c \<longleftrightarrow>
     (\<exists>j. poll sa world t i k k s = Inr (Some j) \<and> j_Status j = ''completed'' \<and> j_ExitCode j = c)"
  using assms by (auto simp: still_open_def Let_def split: sum.split option.split)

lemma waitForJob_open:
  assumes "still_open (poll sa world t i k k s)"
  shows "waitForJob sa world t i k (Suc polls) s = waitForJob sa world t i (Suc k) polls (world k s)"
  using assms by (auto simp: still_open_def Let_def)

lemma waitForJob_result:
  "fst (waitForJob sa world t i k polls s) = Inr c \<longleftrightarrow>
   (\<exists>n. k \<le> n \<and> n < k + polls \<and> (\<forall>m. k \<le> m \<and> m < n \<longrightarrow> still_open (poll sa world t i k m s)) \<and>
      (\<exists>j. poll sa world t i k n s = Inr (Some j) \<and> j_Status j = ''completed'' \<and> j_ExitCode j = c))"
proof (induction polls arbitrary: k s)
  case (Suc polls)
  let ?p = "\<lambda>n. poll sa world t i k n s"
  show ?case
  proof (cases "still_open (?p k)")
    case False
    then have "(k \<le> n \<and> n < k + Suc polls \<and> (\<forall>m. k \<le> m \<and> m < n \<longrightarrow> still_open (?p m))) \<longleftrightarrow> n = k" for n
      by (metis add_Suc_right le_add1 le_eq_less_or_eq less_Suc_eq_le linorder_not_less)
    then show ?thesis unfolding waitForJob_decided [OF False] conj_assoc [symmetric] by auto
  next
    case True
    have first: "\<not> (\<exists>j. ?p k = Inr (Some j) \<and> j_Status j = ''completed'' \<and> j_ExitCode j = c)"
      using True by (auto simp: still_open_def)
    have later: "(\<forall>m. k \<le> m \<and> m < n \<longrightarrow> still_open (?p m)) \<longleftrightarrow>
        (\<forall>m. Suc k \<le> m \<and> m < n \<longrightarrow> still_open (poll sa world t i (Suc k) m (world k s)))" for n
      by (metis True Suc_le_eq le_eq_less_or_eq poll_later)
    show ?thesis unfolding waitForJob_open [OF True] Suc.IH later
      by (metis Suc_le_eq add_Suc add_Suc_right first le_eq_less_or_eq less_imp_le poll_later)
  qed
qed simp

section \<open>The agent locks\<close>

text \<open>Reconciliations as their calls of \<open>acquireLock\<close> and \<open>releaseLock\<close>, in any interleaving: the
  second component lists the agents of the reconciliations that hold a lock, and only such a
  reconciliation releases it.\<close>

inductive lock_run :: "'s reconciler \<Rightarrow> string list \<Rightarrow> bool" where
  start: "lock_run (NewReconciler s pub) []"
| won: "lock_run rc hs \<Longrightarrow> acquireLock n rc = (True, rc') \<Longrightarrow> lock_run rc' (n # hs)"
| lost: "lock_run rc hs \<Longrightarrow> acquireLock n rc = (False, rc') \<Longrightarrow> lock_run rc' hs"
| released: "lock_run rc hs \<Longrightarrow> n \<in> set hs \<Longrightarrow> lock_run (releaseLock n rc) (remove1 n hs)"
| other: "lock_run rc hs \<Longrightarrow> locks_kept rc rc' \<Longrightarrow> lock_run rc' hs"

lemma lock_run_holders:
  "lock_run rc hs \<Longrightarrow> distinct hs \<and> (\<forall>n. IsAgentBusy n rc \<longleftrightarrow> n \<in> set hs)"
proof (induction rule: lock_run.induct)
  case (won rc hs n rc')
  have "IsAgentBusy m (snd (acquireLock n rc)) \<longleftrightarrow> m = n \<or> IsAgentBusy m rc" for m
    by (simp add: acquireLock_def IsAgentBusy_def map_read_def)
  moreover have "\<not> IsAgentBusy n rc" using IsAgentBusy_acquire(1) [of n rc] won.hyps(2) by simp
  ultimately show ?case using won.IH by (simp add: won.hyps(2))
next
  case (released rc hs n)
  then show ?case by (auto simp: releaseLock_def IsAgentBusy_def map_read_def)
next
  case (other rc hs rc')
  then show ?case by (simp add: IsAgentBusy_def locks_kept_def)
next
  case (lost rc hs n rc')
  then have "rc' = rc" by (simp add: acquireLock_def split: if_splits)
  then show ?case using lost by simp
next
  case (start s pub)
  then show ?case by (simp add: NewReconciler_def IsAgentBusy_def map_read_def)
qed

section \<open>Properties\<close>

text \<open>
  C11. A reconciliation follows the protocol check, apply, check, whatever the store, the agents and the
  clock do: the commands it sends are an initial part of that sequence (in shadow mode: of check, check,
  so the apply command is never sent); if another reconciliation holds the agent it sends nothing; and
  it leaves every agent as busy or free as it found it, on every path.
\<close>

theorem commands_in_order:
  "let rc' = snd (Reconcile sa re t i rc) in
     (\<forall>n. IsAgentBusy n rc' = IsAgentBusy n rc) \<and>
     (\<exists>cs. map snd (dispatched rc') = map snd (dispatched rc) @ cs \<and>
        (case st_GetState sa t i (rc_store rc) of
           Inr (Some st) \<Rightarrow>
             if IsAgentBusy (ds_NodeID st) rc then cs = []
             else if ShadowMode rc then prefix cs [ds_CheckCmd st, ds_CheckCmd st]
             else prefix cs [ds_CheckCmd st, ds_ApplyCmd st, ds_CheckCmd st]
         | _ \<Rightarrow> cs = []))"
proof (cases rule: Reconcile_cases [where sa = sa and re = re and t = t and i = i and rc = rc])
  case idle
  then show ?thesis by (auto simp: Let_def split: sum.split option.split intro!: exI [of _ "[]"])
next
  case (started st rc1 res' rc2)
  from reconcile_locked_sends [OF started(4)] obtain cs where
    cs: "sends cs rc1 rc2" "prefix cs (planned (ShadowMode rc1) st)" by blast
  show ?thesis
    using cs started(1,2,3,5)
    by (auto simp: Let_def sends_def locks_kept_def releaseLock_def IsAgentBusy_def map_read_def planned_def intro!: exI [of _ cs])
qed

lemma reconcile_success:
  assumes "Reconcile sa re t i rc = (None, rc')" "st_GetState sa t i (rc_store rc) = Inr (Some st)"
    and "\<not> IsAgentBusy (ds_NodeID st) rc"
  shows "map snd (dispatched rc') = map snd (dispatched rc) @ planned (ShadowMode rc) st \<and> verified sa re st"
proof (cases rule: Reconcile_cases [where sa = sa and re = re and t = t and i = i and rc = rc])
  case idle
  then show ?thesis using assms by simp
next
  case (started st' rc1 res' rc2)
  then have st: "st' = st" "res' = None" "rc' = releaseLock (ds_NodeID st) rc2" using assms by simp_all
  from reconcile_locked_sends [OF started(4)] show ?thesis
    using started(3) by (auto simp: st sends_def releaseLock_def)
qed


text \<open>
  An agent is reconciled by one goroutine at a time: in every interleaving of lock calls each agent
  has at most one holder, and \<open>IsAgentBusy\<close> reports exactly the agents that have one.
\<close>

theorem agents_exclusive:
  assumes "lock_run rc hs"
  shows "count_list hs n = (if IsAgentBusy n rc then 1 else 0)"
  using lock_run_holders [OF assms] distinct_count_atmost_1 [of hs] by (simp add: count_mset)

text \<open>
  C37. \<open>waitForJob\<close> returns a code exactly when the job is completed with that code at a poll before the
  timeout and every earlier poll found it neither completed nor failed; so a job that completes in time
  is always seen.
\<close>

theorem job_result_is_seen:
  "fst (waitForJob sa world t i 0 polls s) = Inr c \<longleftrightarrow>
   (\<exists>n < polls. (\<forall>m < n. still_open (poll sa world t i 0 m s)) \<and>
      (\<exists>j. poll sa world t i 0 n s = Inr (Some j) \<and> j_Status j = ''completed'' \<and> j_ExitCode j = c))"
  by (simp add: waitForJob_result)

text \<open>
  A compliant state is reported as an error: when the first check returns the desired code,
  \<open>Reconcile\<close> stores the status compliant and returns the error "check phase failed".
\<close>

theorem compliant_is_an_error:
  assumes "re_ctx0 re = None" "re_ctx1 re = None"
    and "st_GetState sa t i (rc_store rc) = Inr (Some st)" "\<not> IsAgentBusy (ds_NodeID st) rc"
    and "st_GetAgent sa (ds_TenantID st) (ds_NodeID st) (rc_store rc) = Inr (Some a)"
    and "executeJob sa (re_check re) a (ds_CheckCmd st) (snd (acquireLock (ds_NodeID st) rc)) =
         (Inr (ds_DesiredExitCode st), rc1)"
  shows "Reconcile sa re t i rc = (Some ''check phase failed'', releaseLock (ds_NodeID st)
     (snd (updateStatus sa ''compliant'' [] (st\<lparr>ds_LastChecked := re_checked re\<rparr>) rc1)))"
proof -
  have lock: "acquireLock (ds_NodeID st) rc = (True, snd (acquireLock (ds_NodeID st) rc))"
    using assms(4) by (simp add: prod_eq_iff)
  have same: "rc_store (snd (acquireLock n rc)) = rc_store rc" for n by (simp add: acquireLock_def)
  have "runCheck sa (re_check re) (re_checked re) a st (snd (acquireLock (ds_NodeID st) rc)) =
      (False, updateStatus sa ''compliant'' [] (st\<lparr>ds_LastChecked := re_checked re\<rparr>) rc1)"
    by (simp add: runCheck_def assms(6) Let_def)
  then have "reconcile_locked sa re st (snd (acquireLock (ds_NodeID st) rc)) = (Some ''check phase failed'',
      snd (updateStatus sa ''compliant'' [] (st\<lparr>ds_LastChecked := re_checked re\<rparr>) rc1))"
    using assms(2,5) by (simp add: reconcile_locked_def same split_beta)
  then show ?thesis using assms(1,3) by (simp add: Reconcile_def reconcileWithContext_def, subst lock, simp)
qed

text \<open>
  A fast agent loses its result: if the agent's "completed" report reaches the memory store between
  the acceptance of the job and the dispatcher's own update to "running", the reconciler waits until the
  timeout however long it polls.
\<close>

theorem fast_result_is_lost:
  assumes "je_ctx je = None" "je_reply je = StatusCode 202" "je_world je = (\<lambda>_ s. s)"
    and "je_before_update je =
         (\<lambda>s. snd (ms_UpdateJobStatus now (a_TenantID a) (je_JobID je) ''completed'' code out [] s))"
  shows "fst (executeJob memory_api je a command rc) = Inl (''timeout waiting for job '' @ je_JobID je)"
proof -
  define s where "s = DispatchJob memory_api je (new_job je a command)
      (ms_CreateJob (a_TenantID a) (new_job je a command) (rc_store rc))"
  obtain j where j: "ms_GetJob (a_TenantID a) (je_JobID je) s = Some j" "j_Status j = ''running''"
    by (auto simp: s_def DispatchJob_def dispatch_outcome_def assms memory_api_def error_of_def StatusAccepted_def
        ms_UpdateJobStatus_def ms_CreateJob_def ms_GetJob_def new_job_def Let_def job_status_update_def)
  have "fst (waitForJob memory_api (\<lambda>_ s. s) (a_TenantID a) (je_JobID je) k n s) =
      Inl (''timeout waiting for job '' @ je_JobID je)" for k n
    using j by (induction n arbitrary: k) (simp_all add: memory_api_def Let_def)
  moreover have "executeJob memory_api je a command rc = (let (res, s') = waitForJob memory_api (je_world je)
      (a_TenantID a) (je_JobID je) 0 (je_polls je) s
      in (res, rc\<lparr>rc_store := s', dispatched := dispatched rc @ [(a_NodeID a, command)]\<rparr>))"
  proof -
    have "st_CreateJob memory_api t j s = (None, ms_CreateJob t j s)" for t j s by (simp add: memory_api_def)
    moreover have "j_JobID (new_job je a command) = je_JobID je" by (simp add: new_job_def)
    ultimately show ?thesis unfolding executeJob_def s_def by (simp add: Let_def)
  qed
  ultimately show ?thesis by (simp add: assms(3) split_beta Let_def)
qed

section \<open>Witnesses\<close>

text \<open>A reconciler over a memory store with agent \<open>n\<close> and desired state \<open>s\<close> of tenant \<open>a\<close>; the agent
  completes a job with the given code before the first poll.\<close>

definition one_state :: memory_store where
  "one_state = ms_UpsertState ''a'' (zero_state\<lparr>ds_StateID := ''s'', ds_NodeID := ''n'', ds_CheckCmd := ''c'',
     ds_ApplyCmd := ''x'', ds_DesiredExitCode := 0\<rparr>)
     (ms_UpsertAgent ''a'' (zero_agent\<lparr>a_NodeID := ''n''\<rparr>) NewMemoryStore)"

definition answers :: "string \<Rightarrow> int \<Rightarrow> memory_store job_env" where
  "answers jobID code =
     \<lparr>je_JobID = jobID, je_created = 0, je_ctx = None, je_reply = StatusCode 202, je_before_update = (\<lambda>s. s),
      je_updated = 1, je_polls = 60,
      je_world = (\<lambda>k s. snd (ms_UpdateJobStatus 2 ''a'' jobID ''completed'' code [] [] s))\<rparr>"

definition answers3 :: "int \<Rightarrow> memory_store rec_env" where
  "answers3 code = \<lparr>re_ctx0 = None, re_ctx1 = None, re_ctx2 = None, re_check = answers ''j1'' code,
     re_apply = answers ''j2'' 0, re_final = answers ''j3'' 0, re_checked = 3, re_verified = 4\<rparr>"

definition run1 :: "go_error option \<times> memory_store reconciler" where
  "run1 = Reconcile memory_api (answers3 1) ''a'' ''s'' (NewReconciler one_state True)"

lemma run1_result: "fst run1 = None" "map e_new_status (published (snd run1)) = [''drifted'', ''applying'', ''compliant'']"
  by code_simp+

lemma one_state_found:
  "st_GetState memory_api ''a'' ''s'' one_state = Inr (Some (zero_state\<lparr>ds_StateID := ''s'', ds_NodeID := ''n'',
     ds_CheckCmd := ''c'', ds_ApplyCmd := ''x'', ds_DesiredExitCode := 0, ds_TenantID := ''a''\<rparr>))"
  by (simp add: memory_api_def one_state_def ms_GetState_def ms_UpsertState_def ms_UpsertAgent_def Let_def zero_state_def)


theorem agents_exclusive_witness:
  "count_list [''n''] ''n'' = (if IsAgentBusy ''n'' (snd (acquireLock ''n'' (NewReconciler one_state True))) then 1 else (0::nat))"
proof -
  have "lock_run (snd (acquireLock ''n'' (NewReconciler one_state True))) [''n'']"
    by (rule lock_run.won [OF lock_run.start, of "''n''"]) (simp add: acquireLock_def NewReconciler_def map_read_def)
  then show ?thesis by (rule agents_exclusive)
qed

definition third_poll :: "nat \<Rightarrow> memory_store \<Rightarrow> memory_store" where
  "third_poll n s = (if n = 2 then snd (ms_UpdateJobStatus 5 ''a'' ''j1'' ''completed'' 7 ''out'' [] s) else s)"

definition queued_store :: memory_store where
  "queued_store = ms_CreateJob ''a'' (zero_job\<lparr>j_JobID := ''j1'', j_NodeID := ''n'', j_TenantID := ''a'', j_Status := ''queued''\<rparr>)
     NewMemoryStore"

lemma third_poll_seen:
  "map (\<lambda>n. case poll memory_api third_poll ''a'' ''j1'' 0 n queued_store of
      Inr (Some j) \<Rightarrow> (j_Status j, j_ExitCode j) | _ \<Rightarrow> ([], 0)) [0, 1, 2] =
   [(''queued'', 0), (''queued'', 0), (''completed'', 7)]"
  by code_simp

theorem job_result_is_seen_witness:
  "fst (waitForJob memory_api third_poll ''a'' ''j1'' 0 60 queued_store) = Inr 7"
proof -
  let ?p = "\<lambda>n. poll memory_api third_poll ''a'' ''j1'' 0 n queued_store"
  have "still_open (?p 0)" "still_open (?p 1)"
    and last: "\<exists>j. ?p 2 = Inr (Some j) \<and> j_Status j = ''completed'' \<and> j_ExitCode j = 7"
    using third_poll_seen by (auto simp: still_open_def split: sum.splits option.splits)
  then have "\<forall>m < 2. still_open (?p m)" by (auto simp: less_Suc_eq numeral_2_eq_2)
  then show ?thesis using last by (intro iffD2 [OF job_result_is_seen] exI [of _ 2]) simp
qed

theorem fast_result_is_lost_witness:
  "fst (executeJob memory_api ((answers ''j1'' 0)\<lparr>je_world := \<lambda>_ s. s, je_before_update :=
      \<lambda>s. snd (ms_UpdateJobStatus 2 ''a'' ''j1'' ''completed'' 0 ''ok'' [] s)\<rparr>)
      (zero_agent\<lparr>a_NodeID := ''n'', a_TenantID := ''a''\<rparr>) ''c'' (NewReconciler one_state True)) =
   Inl ''timeout waiting for job j1''"
  by (subst fast_result_is_lost [of _ 2 _ 0 "''ok''"]) (simp_all add: answers_def)

theorem compliant_is_an_error_witness:
  "fst (Reconcile memory_api (answers3 0) ''a'' ''s'' (NewReconciler one_state True)) = Some ''check phase failed''"
proof -
  let ?rc = "NewReconciler one_state True"
  let ?st = "zero_state\<lparr>ds_StateID := ''s'', ds_NodeID := ''n'', ds_CheckCmd := ''c'', ds_ApplyCmd := ''x'',
      ds_DesiredExitCode := 0, ds_TenantID := ''a''\<rparr>"
  let ?a = "zero_agent\<lparr>a_NodeID := ''n'', a_TenantID := ''a''\<rparr>"
  have "fst (executeJob memory_api (answers ''j1'' 0) (zero_agent\<lparr>a_NodeID := ''n'', a_TenantID := ''a''\<rparr>) ''c''
      (snd (acquireLock ''n'' (NewReconciler one_state True)))) = Inr 0" by code_simp
  then have job: "executeJob memory_api (re_check (answers3 0)) ?a (ds_CheckCmd ?st) (snd (acquireLock (ds_NodeID ?st) ?rc)) =
      (Inr (ds_DesiredExitCode ?st), snd (executeJob memory_api (answers ''j1'' 0) ?a ''c'' (snd (acquireLock ''n'' ?rc))))"
    by (simp add: prod_eq_iff answers3_def)
  have agent: "st_GetAgent memory_api (ds_TenantID ?st) (ds_NodeID ?st) one_state = Inr (Some ?a)"
    by (simp add: memory_api_def one_state_def ms_GetAgent_def ms_UpsertState_def ms_UpsertAgent_def Let_def)
  have "rc_store ?rc = one_state" "\<not> IsAgentBusy n ?rc" for n
    by (simp_all add: NewReconciler_def IsAgentBusy_def map_read_def)
  then show ?thesis
    using compliant_is_an_error [where sa = memory_api and rc = ?rc, OF _ _ _ _ _ job] agent one_state_found
    by (simp add: answers3_def)
qed

end
