(* ===== verification/RedisStates.thy ===== *)
theory RedisStates
  imports RedisVersioned Reconciliation
begin

text \<open>
  The store half of \<open>store/redis.go\<close>: agents and jobs as JSON text under tenant keys, desired states as
  versioned values. \<open>main.go\<close> uses this store as the primary one.

  JSON is a parameter, one \<open>codec\<close> per record type, with \<open>cd_quote\<close> for \<open>json.Marshal\<close> of a Go string;
  a scan is given by what its iterator yields (an error or not, and the keys). Every request has its own
  \<open>fault\<close>, and \<open>now\<close> the server's clock; a method whose requests are several takes them from functions.
\<close>

section \<open>JSON\<close>

record 'v codec =
  cd_marshal :: "'v \<Rightarrow> string"
  cd_unmarshal :: "string \<Rightarrow> go_error + 'v"
  cd_quote :: "string \<Rightarrow> string"

section \<open>Agents\<close>

definition rs_UpsertAgent ::
  "'r redis \<Rightarrow> agent codec \<Rightarrow> fault \<Rightarrow> gotime \<Rightarrow> string \<Rightarrow> agent \<Rightarrow> 'r \<Rightarrow> (go_error + unit) \<times> 'r" where
  "rs_UpsertAgent rd cd net now tenantID a r =
     (let a' = a\<lparr>a_TenantID := tenantID\<rparr>; key = TenantKey tenantID ResourceAgent (a_NodeID a')
      in call net (\<lambda>r. ((), rd_set rd now key (cd_marshal cd a') 0 r)) r)"

definition rs_GetAgent ::
  "'r redis \<Rightarrow> agent codec \<Rightarrow> fault \<Rightarrow> gotime \<Rightarrow> string \<Rightarrow> string \<Rightarrow> 'r \<Rightarrow> go_error + agent option" where
  "rs_GetAgent rd cd net now tenantID nodeID r =
     (case ask net (rd_get rd now (TenantKey tenantID ResourceAgent nodeID)) r of
        Inl e \<Rightarrow> Inl e
      | Inr None \<Rightarrow> Inr None
      | Inr (Some data) \<Rightarrow>
          (case cd_unmarshal cd data of
             Inl e \<Rightarrow> Inl (''failed to unmarshal agent: '' @ e)
           | Inr a \<Rightarrow> Inr (Some a)))"

text \<open>The records under the keys of a scan; what cannot be read or decoded is skipped.\<close>

fun read_keys :: "'r redis \<Rightarrow> 'v codec \<Rightarrow> (nat \<Rightarrow> fault) \<Rightarrow> gotime \<Rightarrow> nat \<Rightarrow> string list \<Rightarrow> 'r \<Rightarrow> 'v list" where
  "read_keys rd cd net now i [] r = []"
| "read_keys rd cd net now i (key # keys) r =
     (case ask (net i) (rd_get rd now key) r of
        Inr (Some data) \<Rightarrow>
          (case cd_unmarshal cd data of
             Inl e \<Rightarrow> read_keys rd cd net now (Suc i) keys r
           | Inr a \<Rightarrow> a # read_keys rd cd net now (Suc i) keys r)
      | _ \<Rightarrow> read_keys rd cd net now (Suc i) keys r)"

text \<open>The pattern of the scan, and the listing with the error of the iterator.\<close>

definition agent_pattern :: "string \<Rightarrow> string" where
  "agent_pattern tenantID =
     (if tenantID = [] then TenantWildcardPrefix ResourceAgent
      else TenantPrefix tenantID ResourceAgent @ ''*'')"

definition rs_ListAgents ::
  "'r redis \<Rightarrow> agent codec \<Rightarrow> (nat \<Rightarrow> fault) \<Rightarrow> gotime \<Rightarrow> (string \<Rightarrow> go_error option \<times> string list) \<Rightarrow> string \<Rightarrow> 'r \<Rightarrow>
   agent list \<times> go_error option"
where
  "rs_ListAgents rd cd net now scan tenantID r =
     (let (err, keys) = scan (agent_pattern tenantID) in (read_keys rd cd net now 0 keys r, err))"

definition rs_UpdateAgentHeartbeat ::
  "'r redis \<Rightarrow> agent codec \<Rightarrow> fault \<Rightarrow> fault \<Rightarrow> gotime \<Rightarrow> gotime \<Rightarrow> ('r \<Rightarrow> 'r) \<Rightarrow> string \<Rightarrow> string \<Rightarrow> gotime \<Rightarrow> 'r \<Rightarrow>
   (go_error + unit) \<times> 'r"
where
  "rs_UpdateAgentHeartbeat rd cd net1 net2 now1 now2 between tenantID nodeID t r =
     (case rs_GetAgent rd cd net1 now1 tenantID nodeID r of
        Inl e \<Rightarrow> (Inl e, r)
      | Inr None \<Rightarrow> (Inl (''agent not found: '' @ nodeID), r)
      | Inr (Some a) \<Rightarrow>
          rs_UpsertAgent rd cd net2 now2 tenantID (a\<lparr>a_LastHeartbeat := t, a_Status := ''active''\<rparr>) (between r))"

section \<open>Jobs\<close>

definition rs_CreateJob ::
  "'r redis \<Rightarrow> job codec \<Rightarrow> fault \<Rightarrow> gotime \<Rightarrow> string \<Rightarrow> job \<Rightarrow> 'r \<Rightarrow> (go_error + unit) \<times> 'r" where
  "rs_CreateJob rd cd net now tenantID j r =
     (let j' = j\<lparr>j_TenantID := tenantID\<rparr>; key = TenantKey tenantID ResourceJob (j_JobID j')
      in call net (\<lambda>r. ((), rd_set rd now key (cd_marshal cd j') 0 r)) r)"

definition rs_GetJob ::
  "'r redis \<Rightarrow> job codec \<Rightarrow> fault \<Rightarrow> gotime \<Rightarrow> string \<Rightarrow> string \<Rightarrow> 'r \<Rightarrow> go_error + job option" where
  "rs_GetJob rd cd net now tenantID jobID r =
     (case ask net (rd_get rd now (TenantKey tenantID ResourceJob jobID)) r of
        Inl e \<Rightarrow> Inl e
      | Inr None \<Rightarrow> Inr None
      | Inr (Some data) \<Rightarrow>
          (case cd_unmarshal cd data of
             Inl e \<Rightarrow> Inl (''failed to unmarshal job: '' @ e)
           | Inr j \<Rightarrow> Inr (Some j)))"

definition rs_UpdateJobStatus ::
  "'r redis \<Rightarrow> job codec \<Rightarrow> fault \<Rightarrow> fault \<Rightarrow> gotime \<Rightarrow> gotime \<Rightarrow> ('r \<Rightarrow> 'r) \<Rightarrow> string \<Rightarrow> string \<Rightarrow> string \<Rightarrow> int \<Rightarrow>
   string \<Rightarrow> string \<Rightarrow> 'r \<Rightarrow> (go_error + unit) \<times> 'r"
where
  "rs_UpdateJobStatus rd cd net1 net2 now1 now2 between tenantID jobID status exitCode out err r =
     (case rs_GetJob rd cd net1 now1 tenantID jobID r of
        Inl e \<Rightarrow> (Inl e, r)
      | Inr None \<Rightarrow> (Inl (''job not found: '' @ jobID), r)
      | Inr (Some j) \<Rightarrow>
          rs_CreateJob rd cd net2 now2 tenantID
            (j\<lparr>j_Status := status, j_ExitCode := exitCode, j_Stdout := out, j_Stderr := err\<rparr>) (between r))"

text \<open>The listing loops: \<open>n\<close> jobs found so far. The limit is tested after every key that could be read.\<close>

fun read_jobs :: "'r redis \<Rightarrow> job codec \<Rightarrow> (nat \<Rightarrow> fault) \<Rightarrow> gotime \<Rightarrow> (job \<Rightarrow> bool) \<Rightarrow> int \<Rightarrow> nat \<Rightarrow> int \<Rightarrow>
  string list \<Rightarrow> 'r \<Rightarrow> job list"
where
  "read_jobs rd cd net now P limit i n [] r = []"
| "read_jobs rd cd net now P limit i n (key # keys) r =
     (case ask (net i) (rd_get rd now key) r of
        Inr (Some data) \<Rightarrow>
          (let found = (case cd_unmarshal cd data of Inl e \<Rightarrow> [] | Inr j \<Rightarrow> if P j then [j] else []);
               n' = n + int (length found)
           in found @ (if 0 < limit \<and> limit \<le> n' then [] else read_jobs rd cd net now P limit (Suc i) n' keys r))
      | _ \<Rightarrow> read_jobs rd cd net now P limit (Suc i) n keys r)"

definition rs_ListJobs ::
  "'r redis \<Rightarrow> job codec \<Rightarrow> (nat \<Rightarrow> fault) \<Rightarrow> gotime \<Rightarrow> (string \<Rightarrow> go_error option \<times> string list) \<Rightarrow> string \<Rightarrow> string \<Rightarrow>
   int \<Rightarrow> 'r \<Rightarrow> job list \<times> go_error option"
where
  "rs_ListJobs rd cd net now scan tenantID nodeID limit r =
     (let (err, keys) = scan (TenantPrefix tenantID ResourceJob @ ''*'')
      in (read_jobs rd cd net now (\<lambda>j. j_NodeID j = nodeID) limit 0 0 keys r, err))"

definition rs_ListJobsByTenant ::
  "'r redis \<Rightarrow> job codec \<Rightarrow> (nat \<Rightarrow> fault) \<Rightarrow> gotime \<Rightarrow> (string \<Rightarrow> go_error option \<times> string list) \<Rightarrow> string \<Rightarrow> int \<Rightarrow>
   'r \<Rightarrow> job list \<times> go_error option"
where
  "rs_ListJobsByTenant rd cd net now scan tenantID limit r =
     (let (err, keys) = scan (TenantPrefix tenantID ResourceJob @ ''*'')
      in (read_jobs rd cd net now (\<lambda>j. True) limit 0 0 keys r, err))"

section \<open>Desired states\<close>

text \<open>The text of a versioned value is a Go string by the time it is read; it is marshalled again, which
  quotes it, and that is decoded as a state.\<close>

definition decode_state :: "desired_state codec \<Rightarrow> string versioned_value \<Rightarrow> go_error + desired_state" where
  "decode_state cd x = cd_unmarshal cd (cd_quote cd (vv_Value x))"

definition rs_GetState ::
  "'r redis_hash \<Rightarrow> desired_state codec \<Rightarrow> fault \<Rightarrow> fault \<Rightarrow> gotime \<Rightarrow> string \<Rightarrow> string \<Rightarrow> 'r \<Rightarrow>
   go_error + desired_state option"
where
  "rs_GetState rh cd net1 net2 now tenantID stateID r =
     (case rs_GetVersioned rh net1 net2 now (TenantKey tenantID ResourceState stateID) r of
        Inl e \<Rightarrow> if e = ''not found'' then Inr None else Inl e
      | Inr x \<Rightarrow> (case decode_state cd x of Inl e \<Rightarrow> Inl e | Inr st \<Rightarrow> Inr (Some st)))"

record state_env =
  se_net :: "nat \<Rightarrow> fault"
  se_time :: "nat \<Rightarrow> gotime"
  se_now :: gotime
  se_stamp :: gotime

definition rs_UpsertState ::
  "'r redis_hash \<Rightarrow> desired_state codec \<Rightarrow> state_env \<Rightarrow> ('r \<Rightarrow> 'r) \<Rightarrow> string \<Rightarrow> desired_state \<Rightarrow> 'r \<Rightarrow>
   go_error option \<times> 'r"
where
  "rs_UpsertState rh cd se between tenantID st r =
     (let st1 = st\<lparr>ds_TenantID := tenantID\<rparr>; key = TenantKey tenantID ResourceState (ds_StateID st1) in
      case (case rs_GetVersioned rh (se_net se 0) (se_net se 1) (se_time se 0) key r of
              Inr current \<Rightarrow> Inr (wrap64 (vv_Version current + 1))
            | Inl e \<Rightarrow> if e \<noteq> ''not found'' then Inl e else Inr 1)
      of Inl e \<Rightarrow> (Some e, r)
       | Inr newVersion \<Rightarrow>
           (let st2 = st1\<lparr>ds_Version := newVersion, ds_UpdatedAt := se_now se\<rparr>
            in rs_SetVersioned rh (se_net se 2) (se_net se 3) (se_time se 1) key
                 \<lparr>vv_Value = cd_marshal cd st2, vv_Version = newVersion, vv_Timestamp = to_unix (se_stamp se)\<rparr> 0
                 (between r)))"

definition rs_UpdateStateStatus ::
  "'r redis_hash \<Rightarrow> desired_state codec \<Rightarrow> state_env \<Rightarrow> ('r \<Rightarrow> 'r) \<Rightarrow> string \<Rightarrow> string \<Rightarrow> string \<Rightarrow> string \<Rightarrow> gotime \<Rightarrow>
   int \<Rightarrow> 'r \<Rightarrow> go_error option \<times> 'r"
where
  "rs_UpdateStateStatus rh cd se between tenantID stateID status lastError lastChecked expectedVersion r =
     (case rs_GetState rh cd (se_net se 0) (se_net se 1) (se_time se 0) tenantID stateID r of
        Inl e \<Rightarrow> (Some e, r)
      | Inr None \<Rightarrow> (Some ''state not found'', r)
      | Inr (Some current) \<Rightarrow>
          if 0 < expectedVersion \<and> ds_Version current \<noteq> expectedVersion then (Some ''version mismatch'', r)
          else
            let st = current\<lparr>ds_Status := status, ds_LastError := lastError, ds_LastChecked := lastChecked,
                       ds_Version := wrap64 (ds_Version current + 1), ds_UpdatedAt := se_now se\<rparr>
            in case rs_CompareAndSetVersioned rh (se_net se 2) (se_time se 1)
                      (TenantKey tenantID ResourceState stateID) (wrap64 (ds_Version st - 1))
                      \<lparr>vv_Value = cd_marshal cd st, vv_Version = ds_Version st, vv_Timestamp = to_unix (se_stamp se)\<rparr> 0
                      (between r)
               of (Inl e, r') \<Rightarrow> (Some e, r')
                | (Inr ok, r') \<Rightarrow> if ok then (None, r') else (Some ''concurrent modification'', r'))"

fun read_states :: "'r redis_hash \<Rightarrow> desired_state codec \<Rightarrow> (nat \<Rightarrow> fault) \<Rightarrow> (nat \<Rightarrow> fault) \<Rightarrow> gotime \<Rightarrow> nat \<Rightarrow>
  string list \<Rightarrow> 'r \<Rightarrow> desired_state list"
where
  "read_states rh cd net1 net2 now i [] r = []"
| "read_states rh cd net1 net2 now i (key # keys) r =
     (case rs_GetVersioned rh (net1 i) (net2 i) now key r of
        Inl e \<Rightarrow> read_states rh cd net1 net2 now (Suc i) keys r
      | Inr x \<Rightarrow>
          (case decode_state cd x of
             Inl e \<Rightarrow> read_states rh cd net1 net2 now (Suc i) keys r
           | Inr st \<Rightarrow> st # read_states rh cd net1 net2 now (Suc i) keys r))"

definition rs_ListStates ::
  "'r redis_hash \<Rightarrow> desired_state codec \<Rightarrow> (nat \<Rightarrow> fault) \<Rightarrow> (nat \<Rightarrow> fault) \<Rightarrow> gotime \<Rightarrow>
   (string \<Rightarrow> go_error option \<times> string list) \<Rightarrow> string \<Rightarrow> 'r \<Rightarrow> desired_state list \<times> go_error option"
where
  "rs_ListStates rh cd net1 net2 now scan tenantID r =
     (let (err, keys) = scan (TenantPrefix tenantID ResourceState @ ''*'')
      in (read_states rh cd net1 net2 now 0 keys r, err))"

definition rs_GetStateByNode ::
  "'r redis_hash \<Rightarrow> desired_state codec \<Rightarrow> (nat \<Rightarrow> fault) \<Rightarrow> (nat \<Rightarrow> fault) \<Rightarrow> gotime \<Rightarrow>
   (string \<Rightarrow> go_error option \<times> string list) \<Rightarrow> string \<Rightarrow> string \<Rightarrow> 'r \<Rightarrow> go_error + desired_state option"
where
  "rs_GetStateByNode rh cd net1 net2 now scan tenantID nodeID r =
     (case rs_ListStates rh cd net1 net2 now scan tenantID r of
        (_, Some e) \<Rightarrow> Inl e
      | (states, None) \<Rightarrow> Inr (List.find (\<lambda>st. ds_NodeID st = nodeID) states))"

text \<open>\<open>strings.Split(key, ":")\<close>, and \<open>fnv.New32a\<close>.\<close>

fun split_colon :: "string \<Rightarrow> string list" where
  "split_colon [] = [[]]"
| "split_colon (c # cs) =
     (if c = CHR '':'' then [] # split_colon cs
      else (c # hd (split_colon cs)) # tl (split_colon cs))"

definition fnv32a :: "string \<Rightarrow> 32 word" where
  "fnv32a s = fold (\<lambda>c h. xor h (of_char c) * 16777619) s 2166136261"

definition in_shard :: "int \<Rightarrow> int \<Rightarrow> string \<Rightarrow> bool" where
  "in_shard shardIndex shardCount key \<longleftrightarrow>
     (let parts = split_colon key in
      5 \<le> length parts \<and> uint (fnv32a (parts ! 4)) mod shardCount = shardIndex)"

definition rs_ListStatesByStatus ::
  "'r redis_hash \<Rightarrow> desired_state codec \<Rightarrow> (nat \<Rightarrow> fault) \<Rightarrow> (nat \<Rightarrow> fault) \<Rightarrow> gotime \<Rightarrow>
   (string \<Rightarrow> go_error option \<times> string list) \<Rightarrow> string \<Rightarrow> int \<Rightarrow> int \<Rightarrow> 'r \<Rightarrow> go_error + desired_state list"
where
  "rs_ListStatesByStatus rh cd net1 net2 now scan status shardIndex shardCount r =
     (if shardCount \<le> 0 then Inl ''shardCount must be > 0''
      else
        let (err, keys) = scan (TenantWildcardPrefix ResourceState);
            states = filter (\<lambda>st. ds_Status st = status)
              (read_states rh cd net1 net2 now 0 (filter (in_shard shardIndex shardCount) keys) r)
        in case err of Some e \<Rightarrow> Inl (''failed to scan states: '' @ e) | None \<Rightarrow> Inr states)"

definition rs_CountStatesByStatus ::
  "'r redis_hash \<Rightarrow> desired_state codec \<Rightarrow> (nat \<Rightarrow> fault) \<Rightarrow> (nat \<Rightarrow> fault) \<Rightarrow> gotime \<Rightarrow>
   (string \<Rightarrow> go_error option \<times> string list) \<Rightarrow> string \<Rightarrow> string \<Rightarrow> 'r \<Rightarrow> go_error + int"
where
  "rs_CountStatesByStatus rh cd net1 net2 now scan tenantID status r =
     (let (err, keys) = scan (TenantPrefix tenantID ResourceState @ ''*'');
          count = length (filter (\<lambda>st. ds_Status st = status) (read_states rh cd net1 net2 now 0 keys r))
      in case err of Some e \<Rightarrow> Inl e | None \<Rightarrow> Inr (int count))"

section \<open>The reconciler over Redis\<close>

definition redis_api ::
  "'r redis \<Rightarrow> 'r redis_hash \<Rightarrow> agent codec \<Rightarrow> job codec \<Rightarrow> desired_state codec \<Rightarrow> state_env \<Rightarrow> fault \<Rightarrow> gotime \<Rightarrow>
   'r store_api"
where
  "redis_api rd rh ca cj cs se net now =
     \<lparr>st_GetState = rs_GetState rh cs (se_net se 0) (se_net se 1) now,
      st_GetAgent = rs_GetAgent rd ca net now,
      st_GetJob = rs_GetJob rd cj net now,
      st_CreateJob = (\<lambda>t j r. error_of (rs_CreateJob rd cj net now t j r)),
      st_UpdateJobStatus = (\<lambda>lc t i status code out err r.
         error_of (rs_UpdateJobStatus rd cj net net now now (\<lambda>r. r) t i status code out err r)),
      st_UpdateStateStatus = (\<lambda>t i status err lc v r.
         rs_UpdateStateStatus rh cs se (\<lambda>r. r) t i status err lc v r)\<rparr>"

section \<open>Lemmas\<close>

text \<open>\<open>encoding/json\<close> refuses to decode a JSON string into a struct.\<close>

definition strings_are_no_structs :: "'v codec \<Rightarrow> bool" where
  "strings_are_no_structs cd \<longleftrightarrow> (\<forall>x. \<exists>e. cd_unmarshal cd (cd_quote cd x) = Inl e)"

lemma decode_state_fails: "strings_are_no_structs cd \<Longrightarrow> \<exists>e. decode_state cd x = Inl e"
  by (simp add: strings_are_no_structs_def decode_state_def)

lemma GetState_never:
  assumes "strings_are_no_structs cd"
  shows "rs_GetState rh cd net1 net2 now t i r \<noteq> Inr (Some st)"
proof (cases "rs_GetVersioned rh net1 net2 now (TenantKey t ResourceState i) r")
  case (Inr x)
  then show ?thesis using decode_state_fails [OF assms, of x] by (auto simp: rs_GetState_def)
qed (simp add: rs_GetState_def)

lemma read_states_empty: "strings_are_no_structs cd \<Longrightarrow> read_states rh cd net1 net2 now i keys r = []"
proof (induction keys arbitrary: i)
  case (Cons key keys)
  show ?case
  proof (cases "rs_GetVersioned rh (net1 i) (net2 i) now key r")
    case (Inr x)
    obtain e where "decode_state cd x = Inl e" using decode_state_fails [OF Cons.prems] by blast
    then show ?thesis using Cons Inr by simp
  qed (use Cons in simp)
qed simp

text \<open>One write of an agent in both stores.\<close>

context redis_server
begin

lemma upsert_agent_get:
  assumes "t \<le> u"
  shows "rd_get rd u k (snd (rs_UpsertAgent rd cd Delivered t tenant a r)) =
    (if k = TenantKey tenant ResourceAgent (a_NodeID a) then Some (cd_marshal cd (a\<lparr>a_TenantID := tenant\<rparr>))
     else rd_get rd u k r)"
  using set_law [of 0 t "TenantKey tenant ResourceAgent (a_NodeID a)" "cd_marshal cd (a\<lparr>a_TenantID := tenant\<rparr>)" r] assms
  by (simp add: rs_UpsertAgent_def Let_def stored_def expiry_def unexpired_def)

end

section \<open>Properties\<close>

text \<open>
  Desired states cannot be read back from Redis: the get script returns the stored JSON text as a
  JSON string, and decoding a JSON string into a state is an error; so whatever the server holds,
  \<open>GetState\<close> never returns a state, \<open>UpdateStateStatus\<close> never succeeds and changes nothing, and every
  listing is empty.
\<close>

theorem redis_states_unreadable:
  assumes "strings_are_no_structs cd"
  shows "rs_GetState rh cd net1 net2 now t i r \<noteq> Inr (Some st) \<and>
     (\<exists>e. rs_UpdateStateStatus rh cd se between t i status err lc v r = (Some e, r)) \<and>
     fst (rs_ListStates rh cd nets1 nets2 now scan t r) = [] \<and>
     rs_ListStatesByStatus rh cd nets1 nets2 now scan status idx cnt r \<in> range Inl \<union> {Inr []}"
proof -
  have "\<exists>e. rs_UpdateStateStatus rh cd se between t i status err lc v r = (Some e, r)"
  proof (cases "rs_GetState rh cd (se_net se 0) (se_net se 1) (se_time se 0) t i r")
    case (Inr found)
    have "found \<noteq> Some a" for a using Inr GetState_never [OF assms] by metis
    then have "found = None" by (cases found) blast+
    then show ?thesis using Inr by (simp add: rs_UpdateStateStatus_def)
  qed (simp add: rs_UpdateStateStatus_def)
  then show ?thesis
    by (auto simp: GetState_never [OF assms] read_states_empty [OF assms] rs_ListStates_def rs_ListStatesByStatus_def
        Let_def split: prod.split option.split)
qed

text \<open>
  C16. Nothing is ever reconciled over the primary store: with the reconciler on \<open>RedisStore\<close>, as \<open>main\<close>
  sets it up, every call of \<open>Reconcile\<close> returns an error and sends no command to any agent.
\<close>

theorem redis_never_reconciles:
  assumes "strings_are_no_structs cs"
  shows "fst (Reconcile (redis_api rd rh ca cj cs se net now) re t i rc) \<noteq> None \<and>
     snd (Reconcile (redis_api rd rh ca cj cs se net now) re t i rc) = rc"
proof -
  have never: "st_GetState (redis_api rd rh ca cj cs se net now) t i s \<noteq> Inr (Some st)" for s st
    using GetState_never [OF assms] by (simp add: redis_api_def)
  show ?thesis
  proof (cases rule: Reconcile_cases [where sa = "redis_api rd rh ca cj cs se net now" and re = re and t = t and i = i and rc = rc])
    case idle
    then show ?thesis using never by auto
  next
    case (started st rc1 res rc2)
    then show ?thesis using never by simp
  qed
qed

text \<open>
  An outage reads as absence: when the request for a state fails in the network, \<open>GetState\<close> reports
  that there is no such state, and \<open>UpsertState\<close> goes on as if the state were new.
\<close>

theorem outage_reads_as_absence:
  assumes "e \<noteq> noscript"
  shows "rs_GetState rh cd (Refused e) net2 now t i r = Inr None \<and>
     (se_net se 0 = Refused e \<longrightarrow>
        rs_UpsertState rh cd se between t st r =
        rs_SetVersioned rh (se_net se 2) (se_net se 3) (se_time se 1) (TenantKey t ResourceState (ds_StateID st))
          \<lparr>vv_Value = cd_marshal cd (st\<lparr>ds_TenantID := t, ds_Version := 1, ds_UpdatedAt := se_now se\<rparr>),
           vv_Version = 1, vv_Timestamp = to_unix (se_stamp se)\<rparr> 0 (between r))"
  using assms by (simp add: rs_GetState_def rs_GetVersioned_def rs_UpsertState_def eval_sha_def run_script_def Let_def)

text \<open>
  Upserts of a state serialise: if \<open>UpsertState\<close> reports success over a reachable Redis, then nobody
  wrote the state between its read and its write, the version it stored is the successor of the one it
  read, and its value is what Redis holds.
\<close>

theorem redis_upserts_serialise:
  assumes "redis_hashes rh" "\<forall>q. hash_ok rh t q (between r)" "\<forall>n. se_net se n = Delivered" "\<forall>n. se_time se n = t"
    and "rs_UpsertState rh cd se between tenant st r = (None, r')"
    and "k = TenantKey tenant ResourceState (ds_StateID st)"
    and "v = (case get_script rh t k r of None \<Rightarrow> 0 | Some x \<Rightarrow> vv_Version x)" "0 \<le> v" "v < max_int64"
    and "min_int64 \<le> to_unix (se_stamp se) \<and> to_unix (se_stamp se) \<le> max_int64"
  shows "(\<forall>y. get_script rh t k (between r) = Some y \<longrightarrow> vv_Version y \<le> v) \<and>
     get_script rh t k r' =
       Some \<lparr>vv_Value = cd_marshal cd (st\<lparr>ds_TenantID := tenant, ds_Version := v + 1, ds_UpdatedAt := se_now se\<rparr>),
             vv_Version = v + 1, vv_Timestamp = to_unix (se_stamp se)\<rparr>"
proof -
  let ?x = "\<lparr>vv_Value = cd_marshal cd (st\<lparr>ds_TenantID := tenant, ds_Version := v + 1, ds_UpdatedAt := se_now se\<rparr>),
             vv_Version = v + 1, vv_Timestamp = to_unix (se_stamp se)\<rparr>"
  have w: "wrap64 (v + 1) = v + 1" using assms(8,9) by (simp add: int64_defs)
  have "rs_SetVersioned rh Delivered Delivered t k ?x 0 (between r) = (None, r')"
    using assms(3,4,5,7) w
    by (cases "get_script rh t k r")
      (simp_all add: rs_UpsertState_def Let_def rs_GetVersioned_def eval_sha_def run_script_def assms(6))
  moreover have "ints_ok ?x" using assms(8-10) by (simp add: ints_ok_def int64_defs)
  ultimately show ?thesis
    using redis_hashes.set_versioned [OF assms(1,2)] by fastforce
qed

text \<open>
  C36. The two stores agree on agents: after the same upserts, by any tenants and in any order,
  \<open>GetAgent\<close> of \<open>RedisStore\<close> returns for every tenant and node what \<open>GetAgent\<close> of \<open>MemoryStore\<close> returns,
  for a JSON codec that decodes the written agents to themselves.
\<close>

theorem stores_agree_on_agents:
  assumes "redis_server rd" "\<forall>k. rd_get rd t k r0 = None"
    and "\<forall>(u, a) \<in> set puts. cd_unmarshal cd (cd_marshal cd (a\<lparr>a_TenantID := u\<rparr>)) = Inr (a\<lparr>a_TenantID := u\<rparr>)"
  shows "rs_GetAgent rd cd Delivered t u n
       (fold (\<lambda>(u, a) r. snd (rs_UpsertAgent rd cd Delivered t u a r)) puts r0) =
     Inr (ms_GetAgent u n (fold (\<lambda>(u, a). ms_UpsertAgent u a) puts NewMemoryStore))"
proof -
  define same where "same r s \<longleftrightarrow> (\<forall>u n. rd_get rd t (TenantKey u ResourceAgent n) r =
      map_option (cd_marshal cd) (ms_GetAgent u n s)) \<and>
      (\<forall>u n a. ms_GetAgent u n s = Some a \<longrightarrow> cd_unmarshal cd (cd_marshal cd a) = Inr a)" for r s
  have step: "same (snd (rs_UpsertAgent rd cd Delivered t u a r)) (ms_UpsertAgent u a s)"
    if "same r s" "cd_unmarshal cd (cd_marshal cd (a\<lparr>a_TenantID := u\<rparr>)) = Inr (a\<lparr>a_TenantID := u\<rparr>)" for r s u a
    using that by (auto simp: same_def redis_server.upsert_agent_get [OF assms(1)] ms_GetAgent_def ms_UpsertAgent_def Let_def)
  have "same r s \<Longrightarrow> \<forall>(u, a) \<in> set puts. cd_unmarshal cd (cd_marshal cd (a\<lparr>a_TenantID := u\<rparr>)) = Inr (a\<lparr>a_TenantID := u\<rparr>) \<Longrightarrow>
      same (fold (\<lambda>(u, a) r. snd (rs_UpsertAgent rd cd Delivered t u a r)) puts r) (fold (\<lambda>(u, a). ms_UpsertAgent u a) puts s)"
    for r s
    by (induction puts arbitrary: r s) (auto simp: step)
  moreover have "same r0 NewMemoryStore" using assms(2) by (simp add: same_def ms_GetAgent_def NewMemoryStore_def)
  ultimately have "same (fold (\<lambda>(u, a) r. snd (rs_UpsertAgent rd cd Delivered t u a r)) puts r0)
      (fold (\<lambda>(u, a). ms_UpsertAgent u a) puts NewMemoryStore)" using assms(3) by blast
  then show ?thesis by (auto simp: same_def rs_GetAgent_def split: option.split)
qed

section \<open>Witnesses\<close>

definition quote :: "string \<Rightarrow> string" where
  "quote x = [CHR 0x22] @ x @ [CHR 0x22]"

text \<open>A codec of one record, with its text.\<close>

definition codec_of :: "'v \<Rightarrow> 'v codec" where
  "codec_of v = \<lparr>cd_marshal = (\<lambda>_. ''{}''),
     cd_unmarshal = (\<lambda>x. if x = ''{}'' then Inr v else Inl ''json: cannot unmarshal''), cd_quote = quote\<rparr>"

lemma codec_of_strings: "strings_are_no_structs (codec_of v)"
  by (simp add: strings_are_no_structs_def codec_of_def quote_def)

definition reachable_redis :: state_env where
  "reachable_redis = \<lparr>se_net = (\<lambda>_. Delivered), se_time = (\<lambda>_. 0), se_now = 0, se_stamp = of_unix 7\<rparr>"

definition no_hashes :: hash_map where "no_hashes = (\<lambda>_. Map.empty)"

definition upserted :: hash_map where
  "upserted = snd (rs_UpsertState map_hashes (codec_of zero_state) reachable_redis (\<lambda>r. r) ''a'' zero_state no_hashes)"

theorem redis_states_unreadable_witness:
  "get_script map_hashes 0 (TenantKey ''a'' ResourceState []) upserted =
     Some \<lparr>vv_Value = ''{}'', vv_Version = 1, vv_Timestamp = 7\<rparr> \<and>
   rs_GetState map_hashes (codec_of zero_state) Delivered Delivered 0 ''a'' [] upserted \<noteq> Inr (Some zero_state)"
proof -
  have "get_script map_hashes 0 (TenantKey ''a'' ResourceState []) upserted =
     Some \<lparr>vv_Value = ''{}'', vv_Version = 1, vv_Timestamp = 7\<rparr>" by code_simp
  then show ?thesis by (rule conjI [OF _ redis_states_unreadable [OF codec_of_strings, THEN conjunct1]])
qed

theorem redis_never_reconciles_witness:
  "\<forall>rd re. dispatched (snd (Reconcile (redis_api rd map_hashes (codec_of zero_agent) (codec_of zero_job)
      (codec_of zero_state) reachable_redis Delivered 0) re ''a'' [] (NewReconciler upserted True))) = []"
proof (intro allI)
  fix rd re
  show "dispatched (snd (Reconcile (redis_api rd map_hashes (codec_of zero_agent) (codec_of zero_job)
      (codec_of zero_state) reachable_redis Delivered 0) re ''a'' [] (NewReconciler upserted True))) = []"
    by (simp add: redis_never_reconciles [OF codec_of_strings] NewReconciler_def)
qed

theorem outage_reads_as_absence_witness:
  "rs_GetState map_hashes (codec_of zero_state) (Refused ''dial tcp: connection refused'') Delivered 0 ''a'' [] upserted = Inr None"
proof -
  have "''dial tcp: connection refused'' \<noteq> noscript" by (simp add: noscript_def)
  then show ?thesis by (rule outage_reads_as_absence [THEN conjunct1])
qed

theorem redis_upserts_serialise_witness:
  "get_script map_hashes 0 (TenantKey ''a'' ResourceState [])
     (snd (rs_UpsertState map_hashes (codec_of zero_state) reachable_redis (\<lambda>r. r) ''a'' zero_state upserted)) =
   Some \<lparr>vv_Value = ''{}'', vv_Version = 2, vv_Timestamp = 7\<rparr>"
proof -
  let ?k = "TenantKey ''a'' ResourceState []"
  obtain err r' where u: "rs_UpsertState map_hashes (codec_of zero_state) reachable_redis (\<lambda>r. r) ''a'' zero_state upserted = (err, r')"
    by fastforce
  have "fst (rs_UpsertState map_hashes (codec_of zero_state) reachable_redis (\<lambda>r. r) ''a'' zero_state upserted) = None" by code_simp
  then have ok: "rs_UpsertState map_hashes (codec_of zero_state) reachable_redis (\<lambda>r. r) ''a'' zero_state upserted = (None, r')"
    using u by simp
  have g: "get_script map_hashes 0 ?k upserted = Some \<lparr>vv_Value = ''{}'', vv_Version = 1, vv_Timestamp = 7\<rparr>" by code_simp
  have empty: "\<forall>q. hash_ok map_hashes 0 q no_hashes" by (simp add: hash_ok_def map_hashes_def no_hashes_def)
  have first: "rs_SetVersioned map_hashes Delivered Delivered 0 ?k \<lparr>vv_Value = ''{}'', vv_Version = 1, vv_Timestamp = 7\<rparr> 0 no_hashes =
      (None, upserted)"
    by (simp add: upserted_def rs_UpsertState_def Let_def rs_GetVersioned_def eval_sha_def run_script_def get_script_def
        map_hashes_def no_hashes_def reachable_redis_def codec_of_def zero_state_def rs_SetVersioned_def set_script_def)
  have "\<forall>q. hash_ok map_hashes 0 q upserted"
    using map_hashes.set_versioned [OF empty _ first] by (simp add: ints_ok_def int64_defs)
  then have "get_script map_hashes 0 ?k r' = Some \<lparr>vv_Value = ''{}'', vv_Version = 2, vv_Timestamp = 7\<rparr>"
    using redis_upserts_serialise [OF map_hashes.redis_hashes_axioms _ _ _ ok refl refl] g
    by (simp add: reachable_redis_def zero_state_def int64_defs codec_of_def)
  then show ?thesis by (simp only: ok snd_conv)
qed

theorem stores_agree_on_agents_witness:
  "rs_GetAgent map_redis (codec_of (zero_agent\<lparr>a_NodeID := ''n'', a_TenantID := ''a''\<rparr>)) Delivered 0 ''a'' ''n''
     (snd (rs_UpsertAgent map_redis (codec_of (zero_agent\<lparr>a_NodeID := ''n'', a_TenantID := ''a''\<rparr>)) Delivered 0 ''a''
        (zero_agent\<lparr>a_NodeID := ''n''\<rparr>) Map.empty)) =
   Inr (ms_GetAgent ''a'' ''n'' (ms_UpsertAgent ''a'' (zero_agent\<lparr>a_NodeID := ''n''\<rparr>) NewMemoryStore))"
  using stores_agree_on_agents [OF map_redis.redis_server_axioms, of 0 Map.empty "[(''a'', zero_agent\<lparr>a_NodeID := ''n''\<rparr>)]"
      "codec_of (zero_agent\<lparr>a_NodeID := ''n'', a_TenantID := ''a''\<rparr>)" "''a''" "''n''"]
  by (simp add: codec_of_def map_redis_def map_get_def)

end
