(* ===== verification/RedisLocks.thy ===== *)
theory RedisLocks
  imports RedisServer StoreInterface
begin

text \<open>
  The coordination half of \<open>store/redis.go\<close>: locks, leases, epochs and idempotency records of
  \<open>RedisStore\<close>, the provider of \<open>store/coordinator.go\<close>.

  The two Lua scripts are translated over the command record; a script runs atomically on the server,
  so it is one call. \<open>lease_service\<close> is what the clients of the coordinator rely on: what a lease call
  does to the owner a key is seen to have. \<open>RedisStore\<close> keeps it over every server with the documented
  behaviour, also when requests or replies are lost. Latency metrics are left out.
\<close>

section \<open>Locks\<close>

definition rs_AcquireLock ::
  "'r redis \<Rightarrow> fault \<Rightarrow> gotime \<Rightarrow> string \<Rightarrow> string \<Rightarrow> duration \<Rightarrow> 'r \<Rightarrow> (go_error + bool) \<times> 'r" where
  "rs_AcquireLock rd net now key owner ttl r = call net (rd_setnx rd now key owner ttl) r"

definition renew_script :: "'r redis \<Rightarrow> gotime \<Rightarrow> string \<Rightarrow> string \<Rightarrow> int \<Rightarrow> 'r \<Rightarrow> int \<times> 'r" where
  "renew_script rd now key owner ms r =
     (case rd_get rd now key r of
        None \<Rightarrow> (-1, r)
      | Some v \<Rightarrow> if v = owner then rd_pexpire rd now key ms r else (-2, r))"

text \<open>Go's integer division truncates towards zero.\<close>

definition go_div :: "int \<Rightarrow> int \<Rightarrow> int" where
  "go_div a b = sgn a * sgn b * (\<bar>a\<bar> div \<bar>b\<bar>)"

definition rs_RenewLock ::
  "'r redis \<Rightarrow> fault \<Rightarrow> gotime \<Rightarrow> string \<Rightarrow> string \<Rightarrow> duration \<Rightarrow> 'r \<Rightarrow> (go_error + bool) \<times> 'r" where
  "rs_RenewLock rd net now key owner ttl r =
     (case call net (renew_script rd now key owner (go_div ttl millisecond)) r of
        (Inl e, r') \<Rightarrow> (Inl e, r')
      | (Inr val, r') \<Rightarrow>
          if val = 1 then (Inr True, r')
          else if val = 0 then (Inr False, r')
          else if val = -1 then (Inr False, r')
          else if val = -2 then (Inr False, r')
          else (Inl ''unexpected return type from lua script'', r'))"

definition release_script :: "'r redis \<Rightarrow> gotime \<Rightarrow> string \<Rightarrow> string \<Rightarrow> 'r \<Rightarrow> int \<times> 'r" where
  "release_script rd now key owner r =
     (if rd_get rd now key r = Some owner then rd_del rd now key r else (0, r))"

definition rs_ReleaseLock ::
  "'r redis \<Rightarrow> fault \<Rightarrow> gotime \<Rightarrow> string \<Rightarrow> string \<Rightarrow> 'r \<Rightarrow> (go_error + unit) \<times> 'r" where
  "rs_ReleaseLock rd net now key owner r =
     (case call net (release_script rd now key owner) r of
        (Inl e, r') \<Rightarrow> (Inl e, r')
      | (Inr _, r') \<Rightarrow> (Inr (), r'))"

definition rs_GetLockOwner :: "'r redis \<Rightarrow> fault \<Rightarrow> gotime \<Rightarrow> string \<Rightarrow> 'r \<Rightarrow> go_error + string" where
  "rs_GetLockOwner rd net now key r =
     (case ask net (rd_get rd now key) r of
        Inl e \<Rightarrow> Inl e
      | Inr None \<Rightarrow> Inr []
      | Inr (Some v) \<Rightarrow> Inr v)"

section \<open>Leases\<close>

definition rs_AcquireLease ::
  "'r redis \<Rightarrow> fault \<Rightarrow> gotime \<Rightarrow> string \<Rightarrow> string \<Rightarrow> duration \<Rightarrow> 'r \<Rightarrow> (go_error + bool) \<times> 'r" where
  "rs_AcquireLease rd net now key value ttl r = rs_AcquireLock rd net now key value ttl r"

definition rs_RenewLease ::
  "'r redis \<Rightarrow> fault \<Rightarrow> gotime \<Rightarrow> string \<Rightarrow> string \<Rightarrow> duration \<Rightarrow> 'r \<Rightarrow> (go_error + bool) \<times> 'r" where
  "rs_RenewLease rd net now key value ttl r = rs_RenewLock rd net now key value ttl r"

definition rs_ReleaseLease ::
  "'r redis \<Rightarrow> fault \<Rightarrow> gotime \<Rightarrow> string \<Rightarrow> string \<Rightarrow> 'r \<Rightarrow> (go_error + unit) \<times> 'r" where
  "rs_ReleaseLease rd net now key value r = rs_ReleaseLock rd net now key value r"

definition rs_IsLeaseOwner :: "'r redis \<Rightarrow> fault \<Rightarrow> gotime \<Rightarrow> string \<Rightarrow> string \<Rightarrow> 'r \<Rightarrow> go_error + bool" where
  "rs_IsLeaseOwner rd net now key value r =
     (case rs_GetLockOwner rd net now key r of Inl e \<Rightarrow> Inl e | Inr v \<Rightarrow> Inr (v = value))"

section \<open>Epochs\<close>

definition epoch_key :: "string \<Rightarrow> string" where
  "epoch_key key = key @ '':epoch''"

definition rs_IncrementEpoch :: "'r redis \<Rightarrow> fault \<Rightarrow> gotime \<Rightarrow> string \<Rightarrow> 'r \<Rightarrow> (go_error + int) \<times> 'r" where
  "rs_IncrementEpoch rd net now key r =
     (case call net (rd_incr rd now (epoch_key key)) r of
        (Inl e, r') \<Rightarrow> (Inl e, r')
      | (Inr x, r') \<Rightarrow> (x, r'))"

definition rs_IncrementDurableEpoch :: "'r redis \<Rightarrow> fault \<Rightarrow> gotime \<Rightarrow> string \<Rightarrow> 'r \<Rightarrow> (go_error + int) \<times> 'r" where
  "rs_IncrementDurableEpoch rd net now resourceID r = rs_IncrementEpoch rd net now resourceID r"

definition rs_GetDurableEpoch :: "'r redis \<Rightarrow> fault \<Rightarrow> gotime \<Rightarrow> string \<Rightarrow> 'r \<Rightarrow> go_error + int" where
  "rs_GetDurableEpoch rd net now resourceID r =
     (case ask net (rd_get rd now (epoch_key resourceID)) r of
        Inl e \<Rightarrow> Inl e
      | Inr None \<Rightarrow> Inr 0
      | Inr (Some v) \<Rightarrow> (case parse_int v of None \<Rightarrow> Inl ''strconv.ParseInt: invalid syntax'' | Some n \<Rightarrow> Inr n))"

section \<open>Values and idempotency records\<close>

definition rs_Set :: "'r redis \<Rightarrow> fault \<Rightarrow> gotime \<Rightarrow> string \<Rightarrow> string \<Rightarrow> duration \<Rightarrow> 'r \<Rightarrow> (go_error + unit) \<times> 'r" where
  "rs_Set rd net now key value ttl r = call net (\<lambda>r. ((), rd_set rd now key value ttl r)) r"

definition rs_Get :: "'r redis \<Rightarrow> fault \<Rightarrow> gotime \<Rightarrow> string \<Rightarrow> 'r \<Rightarrow> go_error + string" where
  "rs_Get rd net now key r =
     (case ask net (rd_get rd now key) r of
        Inl e \<Rightarrow> Inl e
      | Inr None \<Rightarrow> Inr []
      | Inr (Some v) \<Rightarrow> Inr v)"

definition rs_GetIdempotencyRecord :: "'r redis \<Rightarrow> fault \<Rightarrow> gotime \<Rightarrow> string \<Rightarrow> 'r \<Rightarrow> go_error + string" where
  "rs_GetIdempotencyRecord rd net now key r =
     (case ask net (rd_get rd now (''idempotency:'' @ key)) r of
        Inl e \<Rightarrow> Inl e
      | Inr None \<Rightarrow> Inl ''not found''
      | Inr (Some v) \<Rightarrow> Inr v)"

definition rs_SetIdempotencyRecord ::
  "'r redis \<Rightarrow> fault \<Rightarrow> gotime \<Rightarrow> string \<Rightarrow> string \<Rightarrow> duration \<Rightarrow> 'r \<Rightarrow> (go_error + unit) \<times> 'r" where
  "rs_SetIdempotencyRecord rd net now key value ttl r =
     call net (\<lambda>r. ((), rd_set rd now (''idempotency:'' @ key) value ttl r)) r"

definition rs_SetIdempotencyRecordNX ::
  "'r redis \<Rightarrow> fault \<Rightarrow> gotime \<Rightarrow> string \<Rightarrow> string \<Rightarrow> duration \<Rightarrow> 'r \<Rightarrow> (go_error + unit) \<times> 'r" where
  "rs_SetIdempotencyRecordNX rd net now key value ttl r =
     (case call net (rd_setnx rd now (''idempotency:'' @ key) value ttl) r of
        (Inl e, r') \<Rightarrow> (Inl e, r')
      | (Inr ok, r') \<Rightarrow> if ok then (Inr (), r') else (Inl ''key exists'', r'))"

section \<open>The coordinator interface\<close>

record 'c coord_api =
  ca_Acquire :: "fault \<Rightarrow> gotime \<Rightarrow> string \<Rightarrow> string \<Rightarrow> duration \<Rightarrow> 'c \<Rightarrow> (go_error + bool) \<times> 'c"
  ca_Renew :: "fault \<Rightarrow> gotime \<Rightarrow> string \<Rightarrow> string \<Rightarrow> duration \<Rightarrow> 'c \<Rightarrow> (go_error + bool) \<times> 'c"
  ca_Release :: "fault \<Rightarrow> gotime \<Rightarrow> string \<Rightarrow> string \<Rightarrow> 'c \<Rightarrow> (go_error + unit) \<times> 'c"
  ca_Owner :: "fault \<Rightarrow> gotime \<Rightarrow> string \<Rightarrow> 'c \<Rightarrow> go_error + string"

definition redis_coord :: "'r redis \<Rightarrow> 'r coord_api" where
  "redis_coord rd = \<lparr>ca_Acquire = rs_AcquireLease rd, ca_Renew = rs_RenewLease rd,
     ca_Release = rs_ReleaseLease rd, ca_Owner = rs_GetLockOwner rd\<rparr>"

text \<open>\<open>owner t k c\<close> is the value a key holds at \<open>t\<close>. \<open>held\<close> says that a value holds a key until \<open>u\<close>.\<close>

definition held :: "(gotime \<Rightarrow> string \<Rightarrow> 'c \<Rightarrow> string option) \<Rightarrow> string \<Rightarrow> string \<Rightarrow> gotime \<Rightarrow> gotime \<Rightarrow> 'c \<Rightarrow> bool" where
  "held owner k v t u c \<longleftrightarrow> (\<forall>x. t \<le> x \<and> x < u \<longrightarrow> owner x k c = Some v)"

lemma held_now: "held owner k v t u c \<Longrightarrow> t < u \<Longrightarrow> owner t k c = Some v"
  by (simp add: held_def)

lemma held_later: "held owner k v t u c \<Longrightarrow> t \<le> t' \<Longrightarrow> held owner k v t' u c"
  by (simp add: held_def)

text \<open>Calls of the coordinator by its clients, each at its time.\<close>

datatype lease_call =
    AcquireC (c_time: gotime) (c_net: fault) (c_key: string) (c_value: string) (c_ttl: duration)
  | RenewC (c_time: gotime) (c_net: fault) (c_key: string) (c_value: string) (c_ttl: duration)
  | ReleaseC (c_time: gotime) (c_net: fault) (c_key: string) (c_value: string)

fun do_call :: "'c coord_api \<Rightarrow> lease_call \<Rightarrow> 'c \<Rightarrow> bool \<times> 'c" where
  "do_call api (AcquireC t net k v ttl) c = (case ca_Acquire api net t k v ttl c of (res, c') \<Rightarrow> (res = Inr True, c'))"
| "do_call api (RenewC t net k v ttl) c = (case ca_Renew api net t k v ttl c of (res, c') \<Rightarrow> (res = Inr True, c'))"
| "do_call api (ReleaseC t net k v) c = (case ca_Release api net t k v c of (res, c') \<Rightarrow> (res = Inr (), c'))"

fun do_calls :: "'c coord_api \<Rightarrow> lease_call list \<Rightarrow> 'c \<Rightarrow> bool list \<times> 'c" where
  "do_calls api [] c = ([], c)"
| "do_calls api (x # xs) c =
     (let (b, c') = do_call api x c; (bs, c'') = do_calls api xs c' in (b # bs, c''))"

text \<open>Calls of other clients, in time order, all before \<open>u\<close>.\<close>

definition rivals :: "string \<Rightarrow> string \<Rightarrow> gotime \<Rightarrow> gotime \<Rightarrow> lease_call list \<Rightarrow> bool" where
  "rivals k v t u xs \<longleftrightarrow> sorted (t # map c_time xs) \<and> list_all (\<lambda>x. c_time x < u) xs \<and>
     list_all (\<lambda>x. is_ReleaseC x \<or> valid_ttl (c_ttl x)) xs \<and>
     list_all (\<lambda>x. c_key x = k \<longrightarrow> c_value x \<noteq> v) xs"

locale lease_service =
  fixes owner :: "gotime \<Rightarrow> string \<Rightarrow> 'c \<Rightarrow> string option" and api :: "'c coord_api"
  assumes owner_reading: "ca_Owner api net t k c = Inr v \<Longrightarrow> v = (case owner t k c of None \<Rightarrow> [] | Some v \<Rightarrow> v)"
    and owner_read: "ca_Owner api Delivered t k c = Inr (case owner t k c of None \<Rightarrow> [] | Some v \<Rightarrow> v)"
    and acquire_held: "owner t k c \<noteq> None \<Longrightarrow> valid_ttl ttl \<Longrightarrow> ca_Acquire api net t k v ttl c = (res, c') \<Longrightarrow>
      c' = c \<and> res \<noteq> Inr True"
    and acquire_won: "valid_ttl ttl \<Longrightarrow> ca_Acquire api net t k v ttl c = (Inr True, c') \<Longrightarrow>
      held owner k v t (t + ttl) c' \<and> (\<forall>x \<ge> t + ttl. owner x k c' = None)"
    and acquire_free: "owner t k c = None \<Longrightarrow> valid_ttl ttl \<Longrightarrow> fst (ca_Acquire api Delivered t k v ttl c) = Inr True"
    and acquire_other: "valid_ttl ttl \<Longrightarrow> ca_Acquire api net t q v ttl c = (res, c') \<Longrightarrow> q \<noteq> k \<Longrightarrow> t \<le> x \<Longrightarrow>
      owner x k c' = owner x k c"
    and renew_alien: "owner t k c \<noteq> Some v \<Longrightarrow> ca_Renew api net t k v ttl c = (res, c') \<Longrightarrow>
      c' = c \<and> res \<noteq> Inr True"
    and renew_refused: "owner t k c \<noteq> Some v \<Longrightarrow> fst (ca_Renew api Delivered t k v ttl c) = Inr False"
    and renew_own: "valid_ttl ttl \<Longrightarrow> ca_Renew api net t k v ttl c = (Inr True, c') \<Longrightarrow>
      held owner k v t (t + ttl) c' \<and> (\<forall>x \<ge> t + ttl. owner x k c' = None)"
    and renew_other: "valid_ttl ttl \<Longrightarrow> ca_Renew api net t q v ttl c = (res, c') \<Longrightarrow> q \<noteq> k \<Longrightarrow> t \<le> x \<Longrightarrow>
      owner x k c' = owner x k c"
    and release_alien: "owner t k c \<noteq> Some v \<Longrightarrow> ca_Release api net t k v c = (res', c') \<Longrightarrow> c' = c"
    and release_answer: "fst (ca_Release api Delivered t k v c) = Inr ()"
    and release_own: "ca_Release api net t k v c = (Inr (), c') \<Longrightarrow> owner t k c = Some v \<Longrightarrow> t \<le> x \<Longrightarrow>
      owner x k c' = None"
    and release_other: "ca_Release api net t q v c = (res', c') \<Longrightarrow> q \<noteq> k \<Longrightarrow> t \<le> x \<Longrightarrow> owner x k c' = owner x k c"

begin

lemma do_call_held:
  assumes "held owner k v t u c" "t \<le> c_time x" "c_time x < u" "is_ReleaseC x \<or> valid_ttl (c_ttl x)"
    and "c_key x = k \<longrightarrow> c_value x \<noteq> v" "do_call api x c = (b, c')"
  shows "held owner k v (c_time x) u c' \<and> (c_key x = k \<and> \<not> is_ReleaseC x \<longrightarrow> \<not> b)"
proof -
  have h: "held owner k v (c_time x) u c" by (rule held_later [OF assms(1,2)])
  then have now: "owner (c_time x) k c = Some v" using assms(3) by (rule held_now)
  show ?thesis
  proof (cases x)
    case (AcquireC t' net q w ttl)
    obtain res where r: "ca_Acquire api net t' q w ttl c = (res, c')" "b \<longleftrightarrow> res = Inr True"
      using assms(6) AcquireC by (auto split: prod.splits)
    show ?thesis
    proof (cases "q = k")
      case True
      then have "c' = c \<and> res \<noteq> Inr True" using acquire_held [OF _ _ r(1)] assms(4) now AcquireC by simp
      then show ?thesis using h r(2) by simp
    next
      case False
      then show ?thesis using acquire_other [OF _ r(1) False] assms(4) h AcquireC by (simp add: held_def)
    qed
  next
    case (RenewC t' net q w ttl)
    obtain res where r: "ca_Renew api net t' q w ttl c = (res, c')" "b \<longleftrightarrow> res = Inr True"
      using assms(6) RenewC by (auto split: prod.splits)
    show ?thesis
    proof (cases "q = k")
      case True
      then have "c' = c \<and> res \<noteq> Inr True" using renew_alien [OF _ r(1)] assms(5) now RenewC by simp
      then show ?thesis using h r(2) by simp
    next
      case False
      then show ?thesis using renew_other [OF _ r(1) False] assms(4) h RenewC by (simp add: held_def)
    qed
  next
    case (ReleaseC t' net q w)
    obtain res where r: "ca_Release api net t' q w c = (res, c')"
      using assms(6) ReleaseC by (auto split: prod.splits)
    show ?thesis
    proof (cases "q = k")
      case True
      then have "c' = c" using release_alien [OF _ r(1)] assms(5) now ReleaseC by simp
      then show ?thesis using h ReleaseC by simp
    next
      case False
      then show ?thesis using release_other [OF r(1) False] h ReleaseC by (simp add: held_def)
    qed
  qed
qed

text \<open>While a lease runs, the calls of others leave it alone and win nothing.\<close>

lemma lease_excludes:
  assumes "held owner k v t u c" "rivals k v t u xs"
  shows "held owner k v (last (t # map c_time xs)) u (snd (do_calls api xs c)) \<and>
     list_all2 (\<lambda>x b. c_key x = k \<and> \<not> is_ReleaseC x \<longrightarrow> \<not> b) xs (fst (do_calls api xs c))"
  using assms
proof (induction xs arbitrary: t c)
  case (Cons x xs)
  obtain b c' where x: "do_call api x c = (b, c')" by fastforce
  have one: "held owner k v (c_time x) u c' \<and> (c_key x = k \<and> \<not> is_ReleaseC x \<longrightarrow> \<not> b)"
    by (rule do_call_held [OF Cons.prems(1) _ _ _ _ x]) (use Cons.prems(2) in \<open>auto simp: rivals_def\<close>)
  moreover have "rivals k v (c_time x) u xs" using Cons.prems(2) by (auto simp: rivals_def)
  ultimately have "held owner k v (last (c_time x # map c_time xs)) u (snd (do_calls api xs c')) \<and>
     list_all2 (\<lambda>x b. c_key x = k \<and> \<not> is_ReleaseC x \<longrightarrow> \<not> b) xs (fst (do_calls api xs c'))"
    by (intro Cons.IH) simp_all
  then show ?case using one by (simp add: x split_beta Let_def)
qed simp

end

text \<open>\<open>RedisStore\<close> keeps the contract.\<close>

lemma go_div_valid: "valid_ttl ttl \<Longrightarrow> 0 < go_div ttl millisecond \<and> go_div ttl millisecond * millisecond = ttl"
  by (auto simp: valid_ttl_def go_div_def)

context redis_server
begin

lemma stored_held: "stored rd t k v (Some u) r r' \<Longrightarrow> held (rd_get rd) k v t u r' \<and> (\<forall>x \<ge> u. t \<le> u \<longrightarrow> rd_get rd x k r' = None)"
  by (auto simp: stored_def held_def unexpired_def)

lemma acquire_cases:
  assumes "valid_ttl ttl" "rs_AcquireLease rd net t k v ttl r = (res, r')"
  obtains (kept) "r' = r" "rd_get rd t k r \<noteq> None \<or> (\<exists>e. res = Inl e)" "res \<noteq> Inr True"
  | (taken) "rd_get rd t k r = None" "stored rd t k v (Some (t + ttl)) r r'"
proof (cases "rd_get rd t k r")
  case (Some w)
  then have "rd_setnx rd t k v ttl r = (False, r)" by (intro setnx_held) simp
  then show ?thesis
    using kept assms(2) Some by (cases net) (auto simp: rs_AcquireLease_def rs_AcquireLock_def)
next
  case None
  have s: "stored rd t k v (Some (t + ttl)) r (snd (rd_setnx rd t k v ttl r))"
    using setnx_free [of ttl t k r v] assms(1) None by (auto simp: expiry_def valid_ttl_def)
  show ?thesis
    using kept taken [OF None] s assms(2)
    by (cases net) (auto simp: rs_AcquireLease_def rs_AcquireLock_def)
qed

lemma renew_cases:
  assumes "rs_RenewLease rd net t k v ttl r = (res, r')"
  obtains (kept) "r' = r" "res \<noteq> Inr True"
  | (renewed) "rd_get rd t k r = Some v"
      "r' = snd (rd_pexpire rd t k (go_div ttl millisecond) r)"
proof -
  let ?script = "renew_script rd t k v (go_div ttl millisecond)"
  obtain res1 r1 where c: "call net ?script r = (res1, r1)" by fastforce
  have r1: "r' = r1" using assms c
    by (auto simp: rs_RenewLease_def rs_RenewLock_def split: sum.splits if_splits)
  show ?thesis
  proof (cases "rd_get rd t k r = Some v")
    case True
    then have "?script r = rd_pexpire rd t k (go_div ttl millisecond) r" by (simp add: renew_script_def)
    then show ?thesis
      using c r1 assms kept renewed [OF True] by (cases net) (auto simp: rs_RenewLease_def rs_RenewLock_def)
  next
    case False
    then have "?script r = (-1, r) \<or> ?script r = (-2, r)" by (simp add: renew_script_def split: option.split)
    then show ?thesis
      using c r1 assms kept by (cases net) (auto simp: rs_RenewLease_def rs_RenewLock_def)
  qed
qed

lemma release_cases:
  assumes "rs_ReleaseLease rd net t k v r = (res, r')"
  obtains (kept) "r' = r" "rd_get rd t k r \<noteq> Some v \<or> (\<exists>e. res = Inl e)"
  | (released) "rd_get rd t k r = Some v" "removed rd t k r r'"
proof -
  obtain res1 r1 where c: "call net (release_script rd t k v) r = (res1, r1)" by fastforce
  have r1: "r' = r1" "(\<exists>e. res1 = Inl e) \<longleftrightarrow> (\<exists>e. res = Inl e)" using assms c
    by (auto simp: rs_ReleaseLease_def rs_ReleaseLock_def split: sum.splits)
  show ?thesis
  proof (cases "rd_get rd t k r = Some v")
    case True
    then have "removed rd t k r (snd (release_script rd t k v r))"
      using del_present [of t k r] by (simp add: release_script_def)
    then show ?thesis using c r1 kept released [OF True] by (cases net) auto
  next
    case False
    then show ?thesis using c r1 kept by (cases net) (auto simp: release_script_def)
  qed
qed

end

sublocale redis_server \<subseteq> lease_service "rd_get rd" "redis_coord rd"
proof
  fix net t k r v
  assume "ca_Owner (redis_coord rd) net t k r = Inr v"
  then show "v = (case rd_get rd t k r of None \<Rightarrow> [] | Some v \<Rightarrow> v)"
    by (cases net) (auto simp: redis_coord_def rs_GetLockOwner_def split: option.splits)
next
  fix t k r
  show "ca_Owner (redis_coord rd) Delivered t k r = Inr (case rd_get rd t k r of None \<Rightarrow> [] | Some v \<Rightarrow> v)"
    by (simp add: redis_coord_def rs_GetLockOwner_def split: option.split)
next
  fix t k r ttl net v res r'
  assume "rd_get rd t k r \<noteq> None" and ttl: "valid_ttl ttl" and "ca_Acquire (redis_coord rd) net t k v ttl r = (res, r')"
  then have "rs_AcquireLease rd net t k v ttl r = (res, r')" by (simp add: redis_coord_def)
  with ttl show "r' = r \<and> res \<noteq> Inr True"
    by (rule acquire_cases) (use \<open>rd_get rd t k r \<noteq> None\<close> in auto)
next
  fix ttl net t k v r r'
  assume ttl: "valid_ttl ttl" and "ca_Acquire (redis_coord rd) net t k v ttl r = (Inr True, r')"
  then have "rs_AcquireLease rd net t k v ttl r = (Inr True, r')" by (simp add: redis_coord_def)
  with ttl show "held (rd_get rd) k v t (t + ttl) r' \<and> (\<forall>x \<ge> t + ttl. rd_get rd x k r' = None)"
    by (rule acquire_cases) (use stored_held ttl in \<open>auto simp: valid_ttl_def\<close>)
next
  fix t k r ttl v
  assume "rd_get rd t k r = None" "valid_ttl ttl"
  then show "fst (ca_Acquire (redis_coord rd) Delivered t k v ttl r) = Inr True"
    using setnx_result [of ttl t k v r] by (simp add: redis_coord_def rs_AcquireLease_def rs_AcquireLock_def)
next
  fix ttl net t q v r res r' k x
  assume ttl: "valid_ttl ttl" and "ca_Acquire (redis_coord rd) net t q v ttl r = (res, r')" and q: "q \<noteq> k" "t \<le> x"
  then have "rs_AcquireLease rd net t q v ttl r = (res, r')" by (simp add: redis_coord_def)
  with ttl show "rd_get rd x k r' = rd_get rd x k r"
    by (rule acquire_cases) (use q in \<open>auto simp: stored_def\<close>)
next
  fix t k r v net ttl res r'
  assume "rd_get rd t k r \<noteq> Some v" and "ca_Renew (redis_coord rd) net t k v ttl r = (res, r')"
  then have "rs_RenewLease rd net t k v ttl r = (res, r')" by (simp add: redis_coord_def)
  then show "r' = r \<and> res \<noteq> Inr True"
    by (rule renew_cases) (use \<open>rd_get rd t k r \<noteq> Some v\<close> in auto)
next
  fix t k r v ttl
  assume "rd_get rd t k r \<noteq> Some v"
  then show "fst (ca_Renew (redis_coord rd) Delivered t k v ttl r) = Inr False"
    by (auto simp: redis_coord_def rs_RenewLease_def rs_RenewLock_def renew_script_def split: option.split)
next
  fix ttl net t k v r r'
  assume ttl: "valid_ttl ttl" and "ca_Renew (redis_coord rd) net t k v ttl r = (Inr True, r')"
  then have "rs_RenewLease rd net t k v ttl r = (Inr True, r')" by (simp add: redis_coord_def)
  then show "held (rd_get rd) k v t (t + ttl) r' \<and> (\<forall>x \<ge> t + ttl. rd_get rd x k r' = None)"
  proof (rule renew_cases)
    assume "rd_get rd t k r = Some v" "r' = snd (rd_pexpire rd t k (go_div ttl millisecond) r)"
    then have "stored rd t k v (Some (t + ttl)) r r'"
      using pexpire_present [of "go_div ttl millisecond" t k r v] go_div_valid [OF ttl] by simp
    then show ?thesis using stored_held ttl by (auto simp: valid_ttl_def)
  qed simp
next
  fix ttl net t q v r res r' k x
  assume ttl: "valid_ttl ttl" and "ca_Renew (redis_coord rd) net t q v ttl r = (res, r')" and q: "q \<noteq> k" "t \<le> x"
  then have "rs_RenewLease rd net t q v ttl r = (res, r')" by (simp add: redis_coord_def)
  then show "rd_get rd x k r' = rd_get rd x k r"
  proof (rule renew_cases)
    assume "rd_get rd t q r = Some v" "r' = snd (rd_pexpire rd t q (go_div ttl millisecond) r)"
    then have "stored rd t q v (Some (t + ttl)) r r'"
      using pexpire_present [of "go_div ttl millisecond" t q r v] go_div_valid [OF ttl] by simp
    then show ?thesis using q by (auto simp: stored_def)
  qed simp
next
  fix t k r v net res r'
  assume "rd_get rd t k r \<noteq> Some v" "ca_Release (redis_coord rd) net t k v r = (res, r')"
  then have "rs_ReleaseLease rd net t k v r = (res, r')" by (simp add: redis_coord_def)
  then show "r' = r" by (rule release_cases) (use \<open>rd_get rd t k r \<noteq> Some v\<close> in auto)
next
  fix t k v r
  show "fst (ca_Release (redis_coord rd) Delivered t k v r) = Inr ()"
    by (simp add: redis_coord_def rs_ReleaseLease_def rs_ReleaseLock_def)
next
  fix t k r v net x r'
  assume "ca_Release (redis_coord rd) net t k v r = (Inr (), r')" "rd_get rd t k r = Some v" and x: "t \<le> x"
  then have "rs_ReleaseLease rd net t k v r = (Inr (), r')" by (simp add: redis_coord_def)
  then show "rd_get rd x k r' = None"
    by (rule release_cases) (use x \<open>rd_get rd t k r = Some v\<close> in \<open>auto simp: removed_def\<close>)
next
  fix t q r v net res r' k x
  assume "ca_Release (redis_coord rd) net t q v r = (res, r')" and q: "q \<noteq> k" "t \<le> x"
  then have "rs_ReleaseLease rd net t q v r = (res, r')" by (simp add: redis_coord_def)
  then show "rd_get rd x k r' = rd_get rd x k r"
    by (rule release_cases) (use q in \<open>auto simp: removed_def\<close>)
qed

context redis_server
begin

lemma is_lease_service: "lease_service (rd_get rd) (redis_coord rd)"
  by (rule lease_service_axioms)

lemma epoch_step:
  assumes "rs_GetDurableEpoch rd Delivered t q r = Inr m" "m < max_int64"
  shows "fst (rs_IncrementDurableEpoch rd Delivered t q r) = Inr (m + 1) \<and>
     rd_get rd t (epoch_key q) (snd (rs_IncrementDurableEpoch rd Delivered t q r)) = Some (itoa (m + 1))"
proof (cases "rd_get rd t (epoch_key q) r")
  case None
  then have "m = 0" using assms(1) by (simp add: rs_GetDurableEpoch_def)
  then show ?thesis using incr_absent [OF None]
    by (simp add: rs_IncrementDurableEpoch_def rs_IncrementEpoch_def stored_def unexpired_def)
next
  case (Some v)
  then have "parse_int v = Some m" using assms(1) by (simp add: rs_GetDurableEpoch_def split: option.splits)
  from incr_present [OF Some this assms(2)] obtain e where
    "fst (rd_incr rd t (epoch_key q) r) = Inr (m + 1)"
    "stored rd t (epoch_key q) (itoa (m + 1)) e r (snd (rd_incr rd t (epoch_key q) r))"
    "rd_get rd t (epoch_key q) r = (if unexpired t e then Some v else None)" by auto
  then show ?thesis using Some
    by (simp add: rs_IncrementDurableEpoch_def rs_IncrementEpoch_def stored_def split: if_splits)
qed

end

lemma parse_int_range: "parse_int s = Some n \<Longrightarrow> min_int64 \<le> n \<and> n \<le> max_int64"
  by (auto simp: parse_int_def Let_def split: if_splits option.splits)

section \<open>Properties\<close>

text \<open>
  C7. A lease excludes: once \<open>AcquireLease\<close> has returned true, then until the time to live is over, and
  over every Redis with the documented behaviour, no call of the other clients wins the key, whatever
  requests and replies are lost, and the key keeps the owner's value. The clients know each other only
  by the values they use.
\<close>

theorem redis_lease_excludes:
  assumes "redis_server rd" "valid_ttl ttl" "rs_AcquireLease rd net t k v ttl r = (Inr True, r1)"
    and "rivals k v t (t + ttl) xs" "do_calls (redis_coord rd) xs r1 = (bs, r2)"
  shows "list_all2 (\<lambda>x b. c_key x = k \<and> \<not> is_ReleaseC x \<longrightarrow> \<not> b) xs bs \<and>
     rs_GetLockOwner rd Delivered (last (t # map c_time xs)) k r2 = Inr v"
proof -
  note lease = redis_server.is_lease_service [OF assms(1)]
  have "ca_Acquire (redis_coord rd) net t k v ttl r = (Inr True, r1)" using assms(3) by (simp add: redis_coord_def)
  then have held: "held (rd_get rd) k v t (t + ttl) r1" using lease_service.acquire_won [OF lease assms(2)] by blast
  have last: "last (t # map c_time xs) < t + ttl"
  proof (cases xs)
    case Nil
    then show ?thesis using assms(2) by (simp add: valid_ttl_def)
  next
    case (Cons x ys)
    then have "last xs \<in> set xs" by simp
    then show ?thesis using assms(4) Cons by (auto simp: rivals_def list_all_iff last_map)
  qed
  have "held (rd_get rd) k v (last (t # map c_time xs)) (t + ttl) r2 \<and>
      list_all2 (\<lambda>x b. c_key x = k \<and> \<not> is_ReleaseC x \<longrightarrow> \<not> b) xs bs"
    using lease_service.lease_excludes [OF lease held assms(4)] assms(5) by simp
  then show ?thesis using held_now last by (fastforce simp: rs_GetLockOwner_def)
qed

text \<open>
  An epoch survives its way through Redis as decimal text: an increment returns the successor of
  the epoch read before, and that is what is read afterwards.
\<close>

theorem redis_epoch_roundtrip:
  assumes "redis_server rd" "rs_GetDurableEpoch rd Delivered t q r = Inr m" "m < max_int64"
  shows "fst (rs_IncrementDurableEpoch rd Delivered t q r) = Inr (m + 1) \<and>
     rs_GetDurableEpoch rd Delivered t q (snd (rs_IncrementDurableEpoch rd Delivered t q r)) = Inr (m + 1)"
proof -
  have "min_int64 \<le> m" using assms(2) parse_int_range
    by (auto simp: rs_GetDurableEpoch_def int64_defs split: option.splits)
  then show ?thesis
    using redis_server.epoch_step [OF assms] assms(3) by (simp add: rs_GetDurableEpoch_def)
qed

section \<open>Witnesses\<close>

theorem redis_lease_excludes_witness:
  "fst (do_calls (redis_coord map_redis)
     [AcquireC 5 Delivered ''k'' ''b'' second, RenewC 6 (ReplyLost ''eof'') ''k'' ''b'' second,
      ReleaseC 7 Delivered ''k'' ''b''] [''k'' \<mapsto> (''a'', Some (second + 1))]) ! 0 = False"
proof -
  let ?xs = "[AcquireC 5 Delivered ''k'' ''b'' second, RenewC 6 (ReplyLost ''eof'') ''k'' ''b'' second,
      ReleaseC 7 Delivered ''k'' ''b'']"
  have a: "rs_AcquireLease map_redis Delivered 1 ''k'' ''a'' second Map.empty = (Inr True, [''k'' \<mapsto> (''a'', Some (second + 1))])"
    by (simp add: rs_AcquireLease_def rs_AcquireLock_def map_redis_def map_get_def expiry_def)
  obtain bs r2 where d: "do_calls (redis_coord map_redis) ?xs [''k'' \<mapsto> (''a'', Some (second + 1))] = (bs, r2)" by fastforce
  have "valid_ttl second" "rivals ''k'' ''a'' 1 (1 + second) ?xs" by (simp_all add: rivals_def valid_ttl_def)
  from redis_lease_excludes [OF map_redis.redis_server_axioms this(1) a this(2) d]
  have "\<not> hd bs" by (auto simp: list_all2_Cons1)
  moreover have "bs \<noteq> []" using d by (auto simp: Let_def split: prod.splits)
  ultimately show ?thesis using d by (cases bs) auto
qed

theorem redis_epoch_roundtrip_witness:
  "rs_GetDurableEpoch map_redis Delivered 3 ''leader_election''
     (snd (rs_IncrementDurableEpoch map_redis Delivered 3 ''leader_election'' [''leader_election:epoch'' \<mapsto> (''41'', None)])) = Inr 42"
proof -
  have "rs_GetDurableEpoch map_redis Delivered 3 ''leader_election'' [''leader_election:epoch'' \<mapsto> (''41'', None)] = Inr 41"
    by code_simp
  then show ?thesis
    using redis_epoch_roundtrip [OF map_redis.redis_server_axioms] by (fastforce simp: int64_defs)
qed

end
