(* ===== verification/TwoPhase.thy ===== *)
theory TwoPhase
  imports RedisLocks
begin

text \<open>
  \<open>store/redis_idempotency.go\<close>: the two-phase idempotency protocol, lock - execute - result. The JSON text
  of a result is a parameter. Requests are numbered in the order of the code: the \<open>k\<close>-th one is sent at
  \<open>xe_time k\<close> and meets the fault \<open>xe_net k\<close>. What is executed works on a state of its own, \<open>'w\<close>.

  The waiting loop is total: a round lasts at least its pause, which is never zero. \<open>we_delay k\<close> is how much
  longer round \<open>k\<close> lasts, \<open>we_world k\<close> what other clients do to the server before it.
\<close>

section \<open>Operations\<close>

definition IdempotencyStateLocked :: string where "IdempotencyStateLocked = ''LOCKED''"
definition IdempotencyStateResult :: string where "IdempotencyStateResult = ''RESULT''"

record idempotency_result =
  ix_State :: string
  ix_StatusCode :: int
  ix_Body :: string
  ix_Headers :: "string \<rightharpoonup> string"
  ix_CreatedAt :: gotime

record result_codec =
  result_json :: "idempotency_result \<Rightarrow> go_error + string"
  parse_result :: "string \<Rightarrow> go_error + idempotency_result"

definition maxExpectedExecutionTime :: duration where "maxExpectedExecutionTime = 300 * second"
definition lockTTL :: duration where "lockTTL = 2 * maxExpectedExecutionTime"
definition resultTTL :: duration where "resultTTL = 24 * hour"

definition result_key :: "string \<Rightarrow> string" where "result_key key = ''idempotency:result:'' @ key"
definition lock_key :: "string \<Rightarrow> string" where "lock_key key = ''idempotency:lock:'' @ key"

definition GetIdempotencyState ::
  "'r redis \<Rightarrow> result_codec \<Rightarrow> fault \<Rightarrow> fault \<Rightarrow> gotime \<Rightarrow> gotime \<Rightarrow> string \<Rightarrow> 'r \<Rightarrow> go_error + idempotency_result option"
where
  "GetIdempotencyState rd cd net1 net2 t1 t2 key r =
     (case ask net1 (rd_get rd t1 (result_key key)) r of
        Inl err \<Rightarrow> Inl err
      | Inr (Some resultData) \<Rightarrow> map_sum id Some (parse_result cd resultData)
      | Inr None \<Rightarrow>
          (case ask net2 (rd_get rd t2 (lock_key key)) r of
             Inl err \<Rightarrow> Inl err
           | Inr None \<Rightarrow> Inr None
           | Inr (Some lockData) \<Rightarrow> map_sum id Some (parse_result cd lockData)))"

text \<open>The error, the result as the call leaves it in the caller's hands, and the server.\<close>

definition StoreIdempotencyResult ::
  "'r redis \<Rightarrow> result_codec \<Rightarrow> fault \<Rightarrow> fault \<Rightarrow> gotime \<Rightarrow> gotime \<Rightarrow> string \<Rightarrow> idempotency_result \<Rightarrow> duration \<Rightarrow> 'r \<Rightarrow>
   go_error option \<times> idempotency_result \<times> 'r"
where
  "StoreIdempotencyResult rd cd net1 net2 t1 t2 key result ttl r =
     (let result' = result\<lparr>ix_State := IdempotencyStateResult, ix_CreatedAt := t1\<rparr> in
      case result_json cd result' of
        Inl err \<Rightarrow> (Some err, result', r)
      | Inr data \<Rightarrow>
          (case rs_Set rd net1 t1 (result_key key) data ttl r of
             (Inl err, r') \<Rightarrow> (Some err, result', r')
           | (Inr _, r') \<Rightarrow>
               (case rs_ReleaseLock rd net2 t2 (lock_key key) key r' of
                  (Inl err, r'') \<Rightarrow> (Some err, result', r'')
                | (Inr _, r'') \<Rightarrow> (None, result', r''))))"

definition maxBackoff :: duration where "maxBackoff = 2 * second"

fun wait_backoff :: "nat \<Rightarrow> duration" where
  "wait_backoff 0 = 100 * millisecond"
| "wait_backoff (Suc k) =
     (let b = 2 * wait_backoff k in if b > maxBackoff then maxBackoff else b)"

record 'r wait_env =
  we_net :: "nat \<Rightarrow> fault \<times> fault"
  we_world :: "nat \<Rightarrow> 'r \<Rightarrow> 'r"
  we_delay :: "nat \<Rightarrow> nat"

lemma wait_backoff_pos: "0 < wait_backoff k"
  by (induction k) (simp_all add: Let_def maxBackoff_def)

lemma round_shrinks: "- wait_backoff k < int n"
  using wait_backoff_pos [of k] by linarith

text \<open>Round \<open>k\<close> of the loop begins at \<open>now\<close>. The result comes with the number of polls made.\<close>

function wait_loop ::
  "'r redis \<Rightarrow> result_codec \<Rightarrow> 'r wait_env \<Rightarrow> gotime \<Rightarrow> string \<Rightarrow> gotime \<Rightarrow> nat \<Rightarrow> 'r \<Rightarrow>
   (go_error + idempotency_result) \<times> nat \<times> 'r"
where
  "wait_loop rd cd we deadline key now k r =
     (if \<not> now < deadline then (Inl ''timeout waiting for idempotent request to complete'', k, r)
      else
        (let r' = we_world we k r in
         case GetIdempotencyState rd cd (fst (we_net we k)) (snd (we_net we k)) now now key r' of
           Inl err \<Rightarrow> (Inl err, Suc k, r')
         | Inr None \<Rightarrow> (Inl ''idempotency lock expired without result'', Suc k, r')
         | Inr (Some state) \<Rightarrow>
             if ix_State state = IdempotencyStateResult then (Inr state, Suc k, r')
             else wait_loop rd cd we deadline key (now + wait_backoff k + int (we_delay we k)) (Suc k) r'))"
  by pat_completeness auto
termination
  by (relation "measure (\<lambda>(rd, cd, we, deadline, key, now, k, r). nat (deadline - now))") (simp_all add: round_shrinks)

declare wait_loop.simps [simp del]

definition WaitForIdempotencyResult ::
  "'r redis \<Rightarrow> result_codec \<Rightarrow> 'r wait_env \<Rightarrow> gotime \<Rightarrow> string \<Rightarrow> duration \<Rightarrow> 'r \<Rightarrow>
   (go_error + idempotency_result) \<times> nat \<times> 'r"
where
  "WaitForIdempotencyResult rd cd we now key timeout r = wait_loop rd cd we (now + timeout) key now 0 r"

record 'r exec_env =
  xe_net :: "nat \<Rightarrow> fault"
  xe_time :: "nat \<Rightarrow> gotime"
  xe_wait :: "'r wait_env"

definition ExecuteIdempotent ::
  "'r redis \<Rightarrow> result_codec \<Rightarrow> 'r exec_env \<Rightarrow> string \<Rightarrow> ('w \<Rightarrow> (go_error + idempotency_result) \<times> 'w) \<Rightarrow> 'r \<times> 'w \<Rightarrow>
   (go_error + idempotency_result) \<times> 'r \<times> 'w"
where
  "ExecuteIdempotent rd cd xe key execute = (\<lambda>(r, w).
     let wait = (\<lambda>r. let (res, polls, r') = WaitForIdempotencyResult rd cd (xe_wait xe) (xe_time xe 3) key (30 * second) r
                   in (res, r', w));
         release = (\<lambda>k r. snd (rs_ReleaseLock rd (xe_net xe k) (xe_time xe k) (lock_key key) key r));
         acquire = (case rs_AcquireLock rd (xe_net xe 2) (xe_time xe 2) (lock_key key) key lockTTL r of
             (Inl err, r1) \<Rightarrow> (Inl err, r1, w)
           | (Inr False, r1) \<Rightarrow> wait r1
           | (Inr True, r1) \<Rightarrow>
               (case GetIdempotencyState rd cd (xe_net xe 3) (xe_net xe 4) (xe_time xe 3) (xe_time xe 4) key r1 of
                  Inl err \<Rightarrow> (Inl err, release 5 r1, w)
                | Inr existing \<Rightarrow>
                    if existing \<noteq> None \<and> ix_State (the existing) = IdempotencyStateResult
                    then (Inr (the existing), release 5 r1, w)
                    else (case execute w of
                        (Inl err, w') \<Rightarrow> (Inl err, release 5 r1, w')
                      | (Inr result, w') \<Rightarrow>
                          (let (err, result', r2) = StoreIdempotencyResult rd cd (xe_net xe 5) (xe_net xe 6)
                                 (xe_time xe 5) (xe_time xe 6) key result resultTTL r1
                           in (Inr result', r2, w')))))
     in case GetIdempotencyState rd cd (xe_net xe 0) (xe_net xe 1) (xe_time xe 0) (xe_time xe 1) key r of
          Inl err \<Rightarrow> (Inl err, r, w)
        | Inr None \<Rightarrow> acquire
        | Inr (Some existing) \<Rightarrow>
            if ix_State existing = IdempotencyStateResult then (Inr existing, r, w)
            else if ix_State existing = IdempotencyStateLocked then wait r
            else acquire)"

section \<open>The waiting loop\<close>

lemma backoff_max: "5 \<le> k \<Longrightarrow> wait_backoff k = 2 * second"
proof (induction k rule: nat_induct_at_least)
  case base
  then show ?case by (simp add: eval_nat_numeral Let_def maxBackoff_def)
qed (simp add: Let_def maxBackoff_def)

text \<open>The pauses before round \<open>k\<close> together.\<close>

fun paused :: "nat \<Rightarrow> duration" where
  "paused 0 = 0"
| "paused (Suc k) = paused k + wait_backoff k"

lemma paused_long: "paused (5 + k) = 3100 * millisecond + int k * (2 * second)"
proof (induction k)
  case 0
  show ?case by (simp add: eval_nat_numeral Let_def maxBackoff_def)
next
  case (Suc k)
  have "paused (5 + Suc k) = paused (5 + k) + wait_backoff (5 + k)" by (metis add_Suc_right paused.simps(2))
  then show ?case using Suc by (simp add: backoff_max del: wait_backoff.simps)
qed

lemma paused_mono: "k \<le> n \<Longrightarrow> paused k \<le> paused n"
proof (induction n rule: dec_induct)
  case (step n)
  then show ?case using wait_backoff_pos [of n] by simp
qed simp

lemma wait_polls:
  assumes "start + paused k \<le> now" "now < deadline \<Longrightarrow> paused k < deadline - start"
    and "res = wait_loop rd cd we deadline key now k r" "fst (snd res) = n" "k < n"
  shows "paused (n - 1) < deadline - start"
  using assms
proof (induction rd cd we deadline key now k r arbitrary: res rule: wait_loop.induct)
  case (1 rd cd we deadline key now k r)
  show ?case
  proof (cases "now < deadline")
    case False
    then show ?thesis using 1 by (simp add: wait_loop.simps)
  next
    case True
    let ?g = "GetIdempotencyState rd cd (fst (we_net we k)) (snd (we_net we k)) now now key (we_world we k r)"
    show ?thesis
    proof (cases "\<exists>st. ?g = Inr (Some st) \<and> ix_State st \<noteq> IdempotencyStateResult")
      case False
      then have "n = Suc k" using 1 True
        by (auto simp: wait_loop.simps [of rd cd we deadline key now k r] Let_def split: sum.splits option.splits)
      then show ?thesis using 1 True by simp
    next
      case again: True
      let ?now' = "now + wait_backoff k + int (we_delay we k)"
      have eq: "res = wait_loop rd cd we deadline key ?now' (Suc k) (we_world we k r)"
        using 1 True again by (auto simp: wait_loop.simps [of rd cd we deadline key now k r] Let_def)
      show ?thesis
      proof (cases "n = Suc k")
        case True
        then show ?thesis using 1 \<open>now < deadline\<close> by simp
      next
        case False
        show ?thesis using again
        proof (elim exE conjE)
          fix st
          assume g: "?g = Inr (Some st)" "ix_State st \<noteq> IdempotencyStateResult"
          have s: "start + paused (Suc k) \<le> ?now'" using "1.prems"(1) by simp
          then have "?now' < deadline \<Longrightarrow> paused (Suc k) < deadline - start" by linarith
          moreover have "Suc k < n" using False "1.prems"(5) by simp
          ultimately show ?thesis
            using "1.IH" [of "we_world we k r" "Some st" st, OF _ refl g(1) refl g(2) s _ eq] True "1.prems"(4) by auto
        qed
      qed
    qed
  qed
qed

section \<open>Nothing is ever executed\<close>

text \<open>No request fails, the clock of the server does not go back, and the attempt is over within \<open>lockTTL\<close>.\<close>

definition calm :: "'r exec_env \<Rightarrow> bool" where
  "calm xe \<longleftrightarrow> (\<forall>k. xe_net xe k = Delivered) \<and> mono (xe_time xe) \<and> xe_time xe 5 < xe_time xe 2 + lockTTL"

lemma calm_time: "calm xe \<Longrightarrow> i \<le> j \<Longrightarrow> xe_time xe i \<le> xe_time xe j"
  by (simp add: calm_def mono_def)

lemma keys_differ [simp]: "result_key k \<noteq> lock_key k'" "lock_key k' \<noteq> result_key k"
  by (simp_all add: result_key_def lock_key_def)

lemma lockTTL_valid: "valid_ttl lockTTL" "lockTTL = 600 * second"
  by (simp_all add: valid_ttl_def lockTTL_def maxExpectedExecutionTime_def)

context redis_server
begin

lemma execute_never:
  assumes calm: "calm xe" and bad: "parse_result cd key = Inl e"
    and none: "rd_get rd (xe_time xe 0) (result_key key) r = None"
    and lock: "\<forall>v. rd_get rd (xe_time xe 0) (lock_key key) r = Some v \<longrightarrow> v = key"
  shows "\<exists>e' r'. ExecuteIdempotent rd cd xe key execute (r, w) = (Inl e', r', w) \<and>
     rd_get rd (xe_time xe 5) (result_key key) r' = None \<and>
     (\<forall>v. rd_get rd (xe_time xe 5) (lock_key key) r' = Some v \<longrightarrow> v = key)"
proof -
  let ?t = "xe_time xe"
  note time = calm_time [OF calm]
  have net: "xe_net xe k = Delivered" for k using calm by (simp add: calm_def)
  have later: "rd_get rd (?t k) (result_key key) r = None" for k
    using get_none_later [OF none] time [of 0 k] by blast
  have lock_later: "rd_get rd (?t k) (lock_key key) r = rd_get rd (?t 0) (lock_key key) r \<or>
      rd_get rd (?t k) (lock_key key) r = None" for k
    by (rule get_later) (rule time, simp)
  show ?thesis
  proof (cases "rd_get rd (?t 1) (lock_key key) r")
    case (Some v)
    then have "v = key" using lock lock_later [of 1] by auto
    then show ?thesis using Some later lock lock_later [of 5] bad net
      by (auto simp: ExecuteIdempotent_def GetIdempotencyState_def)
  next
    case None
    have free: "rd_get rd (?t 2) (lock_key key) r = None" using get_none_later [OF None] time [of 1 2] by simp
    define r1 where "r1 = snd (rd_setnx rd (?t 2) (lock_key key) key lockTTL r)"
    have won: "rs_AcquireLock rd Delivered (?t 2) (lock_key key) key lockTTL r = (Inr True, r1)"
      and s: "stored rd (?t 2) (lock_key key) key (Some (?t 2 + lockTTL)) r r1"
      using setnx_free [OF _ free, of lockTTL key] lockTTL_valid
      by (auto simp: rs_AcquireLock_def r1_def expiry_def)
    have near: "?t k < ?t 2 + lockTTL" if "k \<le> 5" for k
      using time [OF that] calm by (auto simp: calm_def)
    have held: "rd_get rd (?t k) (lock_key key) r1 = Some key" if "2 \<le> k" "k \<le> 5" for k
      using s near [OF that(2)] time [OF that(1)] by (simp add: stored_def unexpired_def)
    have none1: "rd_get rd (?t k) (result_key key) r1 = None" if "2 \<le> k" for k
      using s later time [OF that] by (simp add: stored_def)
    define r2 where "r2 = snd (rd_del rd (?t 5) (lock_key key) r1)"
    have rem: "removed rd (?t 5) (lock_key key) r1 r2"
      using del_present [of "?t 5" "lock_key key" r1] held by (simp add: r2_def)
    have "ExecuteIdempotent rd cd xe key execute (r, w) = (Inl e, r2, w)"
      using None later none1 held bad net won
      by (simp add: ExecuteIdempotent_def GetIdempotencyState_def rs_ReleaseLock_def release_script_def r2_def)
    then show ?thesis using rem none1 by (auto simp: removed_def)
  qed
qed

end

text \<open>Attempts one after the other, each with its environment.\<close>

fun attempts ::
  "'r redis \<Rightarrow> result_codec \<Rightarrow> string \<Rightarrow> ('w \<Rightarrow> (go_error + idempotency_result) \<times> 'w) \<Rightarrow> 'r exec_env list \<Rightarrow> 'r \<times> 'w \<Rightarrow>
   (go_error + idempotency_result) list \<times> 'r \<times> 'w"
where
  "attempts rd cd key execute [] rw = ([], rw)"
| "attempts rd cd key execute (xe # xes) rw =
     (let (res, rw') = ExecuteIdempotent rd cd xe key execute rw;
          (ress, rw'') = attempts rd cd key execute xes rw'
      in (res # ress, rw''))"

fun in_turn :: "gotime \<Rightarrow> 'r exec_env list \<Rightarrow> bool" where
  "in_turn t [] = True"
| "in_turn t (xe # xes) \<longleftrightarrow> t \<le> xe_time xe 0 \<and> calm xe \<and> in_turn (xe_time xe 5) xes"

section \<open>Properties\<close>


text \<open>
  \<open>ExecuteIdempotent\<close> never executes: the lock holds the bare key, which the second look at the state reads as
  the JSON text of a result. With a key that is not such a text, every attempt, however often it is repeated
  and with no fault at all, ends in an error with nothing executed.
\<close>

theorem idempotent_never_executes:
  assumes "redis_server rd" "parse_result cd key = Inl e"
    and "rd_get rd t (result_key key) r = None" "rd_get rd t (lock_key key) r = None" "in_turn t xes"
  shows "snd (snd (attempts rd cd key execute xes (r, w))) = w \<and>
     list_all (\<lambda>res. \<exists>e. res = Inl e) (fst (attempts rd cd key execute xes (r, w)))"
proof -
  have "\<forall>v. rd_get rd t (lock_key key) r = Some v \<longrightarrow> v = key" using assms(4) by simp
  then show ?thesis using assms(3,5)
  proof (induction xes arbitrary: t r)
    case (Cons xe xes)
    have t: "t \<le> xe_time xe 0" and calm: "calm xe" and rest: "in_turn (xe_time xe 5) xes" using Cons.prems(3) by simp_all
    have "rd_get rd (xe_time xe 0) (result_key key) r = None"
      using redis_server.get_none_later [OF assms(1) Cons.prems(2) t] .
    moreover have "\<forall>v. rd_get rd (xe_time xe 0) (lock_key key) r = Some v \<longrightarrow> v = key"
      using redis_server.get_later [OF assms(1) t, of "lock_key key" r] Cons.prems(1) by auto
    ultimately have "\<exists>e' r'. ExecuteIdempotent rd cd xe key execute (r, w) = (Inl e', r', w) \<and>
       rd_get rd (xe_time xe 5) (result_key key) r' = None \<and>
       (\<forall>v. rd_get rd (xe_time xe 5) (lock_key key) r' = Some v \<longrightarrow> v = key)"
      by (rule redis_server.execute_never [OF assms(1) calm assms(2)])
    then obtain e' r' where step: "ExecuteIdempotent rd cd xe key execute (r, w) = (Inl e', r', w)"
      "rd_get rd (xe_time xe 5) (result_key key) r' = None"
      "\<forall>v. rd_get rd (xe_time xe 5) (lock_key key) r' = Some v \<longrightarrow> v = key"
      by (elim exE conjE)
    from Cons.IH [OF step(3,2) rest] step(1) show ?case by (simp add: split_beta Let_def)
  qed simp
qed

section \<open>Witnesses\<close>

text \<open>A codec that reads JSON objects only, and two attempts a second apart.\<close>

definition object_codec :: result_codec where
  "object_codec =
     \<lparr>result_json = (\<lambda>x. Inr ''{}''),
      parse_result = (\<lambda>s. case s of CHR ''{'' # _ \<Rightarrow>
           Inr \<lparr>ix_State = [], ix_StatusCode = 0, ix_Body = [], ix_Headers = Map.empty, ix_CreatedAt = 0\<rparr>
         | _ \<Rightarrow> Inl ''invalid character'')\<rparr>"

definition prompt_env :: "gotime \<Rightarrow> redis_map exec_env" where
  "prompt_env t = \<lparr>xe_net = (\<lambda>_. Delivered), xe_time = (\<lambda>k. t + int k),
     xe_wait = \<lparr>we_net = (\<lambda>_. (Delivered, Delivered)), we_world = (\<lambda>_ r. r), we_delay = (\<lambda>_. 0)\<rparr>\<rparr>"

theorem idempotent_never_executes_witness:
  "snd (snd (attempts map_redis object_codec ''order-1'' (\<lambda>w. (Inl ''boom'', Suc w))
     [prompt_env 5, prompt_env (second + 5)] (Map.empty, 0))) = 0"
proof -
  have bad: "parse_result object_codec ''order-1'' = Inl ''invalid character''" by (simp add: object_codec_def)
  have "calm (prompt_env t)" for t
    by (simp add: calm_def prompt_env_def mono_def lockTTL_valid)
  then have turn: "in_turn 0 [prompt_env 5, prompt_env (second + 5)]" by (simp add: prompt_env_def)
  have none: "rd_get map_redis 0 k Map.empty = None" for k by (simp add: map_redis_def map_get_def)
  show ?thesis
    by (rule idempotent_never_executes [OF map_redis.redis_server_axioms bad none none turn, THEN conjunct1])
qed

end
