(* ===== verification/PostgresStore.thy ===== *)
theory PostgresStore
  imports RedisServer MemoryStore Admission
begin

text \<open>
  \<open>store/postgres.go\<close>: the store over PostgreSQL, its SQL statements translated to the tables they read and
  write. A table is a map from its primary key to the row, a row the Go record with the zero value for a
  field that has no column. A statement is refused when it names a column its table does not have;
  \<open>columns\<close> is the schema. \<open>NOW()\<close> is the server's clock, \<open>hashtext\<close> and the order of the rows of a query
  are parameters, and requests and replies can be lost (\<open>fault\<close>). Constraints on single values are not
  modelled; a refused value is a refused request. No value is NULL except the two time stamps of a job.

  \<open>repository_schema\<close> is \<open>schema.sql\<close>, the only schema in the repository.
\<close>

section \<open>Tables\<close>

record postgres =
  columns :: "string \<Rightarrow> string list"
  pg_agents :: "string \<rightharpoonup> agent"
  pg_states :: "string \<rightharpoonup> desired_state"
  pg_jobs :: "string \<rightharpoonup> job"
  pg_epochs :: "string \<rightharpoonup> int"

definition statement ::
  "string \<Rightarrow> string list \<Rightarrow> fault \<Rightarrow> (postgres \<Rightarrow> (go_error + 'a) \<times> postgres) \<Rightarrow> postgres \<Rightarrow> (go_error + 'a) \<times> postgres"
where
  "statement table cols net f db =
     (if set cols \<subseteq> set (columns db table) then
        (case call net f db of (Inl e, db') \<Rightarrow> (Inl e, db') | (Inr res, db') \<Rightarrow> (res, db'))
      else (Inl ''ERROR: column does not exist (SQLSTATE 42703)'', db))"

definition query :: "string \<Rightarrow> string list \<Rightarrow> fault \<Rightarrow> (postgres \<Rightarrow> 'a) \<Rightarrow> postgres \<Rightarrow> go_error + 'a" where
  "query table cols net f db = fst (statement table cols net (\<lambda>db. (Inr (f db), db)) db)"

section \<open>Agents\<close>

definition agent_columns :: "string list" where
  "agent_columns = [''node_id'', ''tenant_id'', ''hostname'', ''ip_address'', ''port'', ''version'', ''status'',
     ''last_heartbeat_at'', ''created_at'', ''updated_at'', ''metadata'']"

definition inserted_agent :: "gotime \<Rightarrow> agent \<Rightarrow> agent" where
  "inserted_agent now a = a\<lparr>a_CreatedAt := now, a_UpdatedAt := now, a_Tier := []\<rparr>"

text \<open>\<open>ON CONFLICT (node_id) DO UPDATE\<close>: the row keeps its tenant and its creation time.\<close>

definition updated_agent :: "gotime \<Rightarrow> agent \<Rightarrow> agent \<Rightarrow> agent" where
  "updated_agent now a row =
     row\<lparr>a_Hostname := a_Hostname a, a_IPAddress := a_IPAddress a, a_Port := a_Port a, a_Version := a_Version a,
         a_Status := a_Status a, a_LastHeartbeat := a_LastHeartbeat a, a_Metadata := a_Metadata a, a_UpdatedAt := now\<rparr>"

text \<open>
  The statement has ten placeholders, \<open>$8\<close> for the health score, and the call passes nine values; pgx refuses
  to bind them.
\<close>

datatype pg_value = PgText string | PgInt int | PgTime gotime | PgMap "string \<rightharpoonup> string"

definition upsert_agent_args :: "agent \<Rightarrow> pg_value list" where
  "upsert_agent_args a =
     [PgText (a_NodeID a), PgText (a_TenantID a), PgText (a_Hostname a), PgText (a_IPAddress a), PgInt (a_Port a),
      PgText (a_Version a), PgText (a_Status a), PgTime (a_LastHeartbeat a), PgMap (a_Metadata a)]"

definition bind_args :: "nat \<Rightarrow> pg_value list \<Rightarrow> (postgres \<Rightarrow> (go_error + 'a) \<times> postgres) \<Rightarrow> postgres \<Rightarrow> (go_error + 'a) \<times> postgres" where
  "bind_args placeholders args f db =
     (if length args \<noteq> placeholders
      then (Inl (''expected '' @ itoa (int placeholders) @ '' arguments, got '' @ itoa (int (length args))), db)
      else f db)"

definition pg_UpsertAgent :: "fault \<Rightarrow> gotime \<Rightarrow> string \<Rightarrow> agent \<Rightarrow> postgres \<Rightarrow> (go_error + unit) \<times> postgres" where
  "pg_UpsertAgent net now tenantID a db =
     (let a' = a\<lparr>a_TenantID := tenantID\<rparr> in
      statement ''agents'' (''health_score'' # agent_columns) net
        (bind_args 10 (upsert_agent_args a')
          (\<lambda>db. (Inr (), db\<lparr>pg_agents := (pg_agents db)(a_NodeID a' \<mapsto>
             (case pg_agents db (a_NodeID a') of None \<Rightarrow> inserted_agent now a' | Some row \<Rightarrow> updated_agent now a' row))\<rparr>))) db)"

definition pg_GetAgent :: "fault \<Rightarrow> string \<Rightarrow> string \<Rightarrow> postgres \<Rightarrow> go_error + agent option" where
  "pg_GetAgent net tenantID nodeID db =
     query ''agents'' agent_columns net
       (\<lambda>db. case pg_agents db nodeID of None \<Rightarrow> None
             | Some row \<Rightarrow> if a_TenantID row = tenantID then Some row else None) db"

definition pg_ListAgents :: "fault \<Rightarrow> string list \<Rightarrow> string \<Rightarrow> postgres \<Rightarrow> go_error + agent list" where
  "pg_ListAgents net ks tenantID db =
     query ''agents'' agent_columns net (\<lambda>db. filter (\<lambda>row. a_TenantID row = tenantID) (map_values (pg_agents db) ks)) db"

definition pg_UpdateAgentHeartbeat :: "fault \<Rightarrow> string \<Rightarrow> string \<Rightarrow> gotime \<Rightarrow> postgres \<Rightarrow> (go_error + unit) \<times> postgres" where
  "pg_UpdateAgentHeartbeat net tenantID nodeID t db =
     statement ''agents'' [''last_heartbeat_at'', ''node_id'', ''tenant_id''] net
       (\<lambda>db. case pg_agents db nodeID of
           None \<Rightarrow> (Inl ''agent not found'', db)
         | Some row \<Rightarrow>
             if a_TenantID row = tenantID
             then (Inr (), db\<lparr>pg_agents := (pg_agents db)(nodeID \<mapsto> row\<lparr>a_LastHeartbeat := t\<rparr>)\<rparr>)
             else (Inl ''agent not found'', db)) db"

section \<open>Desired states\<close>

definition inserted_state :: "gotime \<Rightarrow> desired_state \<Rightarrow> desired_state" where
  "inserted_state now st = st\<lparr>ds_CreatedAt := now, ds_UpdatedAt := now\<rparr>"

text \<open>\<open>ON CONFLICT (state_id) DO UPDATE\<close>: the row keeps its tenant, its node and its creation time.\<close>

definition updated_state :: "desired_state \<Rightarrow> desired_state \<Rightarrow> desired_state" where
  "updated_state st row =
     row\<lparr>ds_CheckCmd := ds_CheckCmd st, ds_ApplyCmd := ds_ApplyCmd st, ds_DesiredExitCode := ds_DesiredExitCode st,
         ds_Version := ds_Version st, ds_Status := ds_Status st, ds_LastChecked := ds_LastChecked st,
         ds_LastError := ds_LastError st\<rparr>"

definition pg_UpsertState :: "fault \<Rightarrow> gotime \<Rightarrow> string \<Rightarrow> desired_state \<Rightarrow> postgres \<Rightarrow> (go_error + unit) \<times> postgres" where
  "pg_UpsertState net now tenantID st db =
     (let st' = st\<lparr>ds_TenantID := tenantID\<rparr> in
      statement ''desired_states'' [''state_id'', ''node_id'', ''tenant_id'', ''check_cmd'', ''apply_cmd'',
          ''desired_exit_code'', ''version'', ''status'', ''last_checked'', ''last_error'', ''created_at''] net
        (\<lambda>db. (Inr (), db\<lparr>pg_states := (pg_states db)(ds_StateID st' \<mapsto>
           (case pg_states db (ds_StateID st') of None \<Rightarrow> inserted_state now st' | Some row \<Rightarrow> updated_state st' row))\<rparr>)) db)"

definition pg_UpdateStateStatus ::
  "fault \<Rightarrow> string \<Rightarrow> string \<Rightarrow> string \<Rightarrow> string \<Rightarrow> gotime \<Rightarrow> int \<Rightarrow> postgres \<Rightarrow> (go_error + unit) \<times> postgres"
where
  "pg_UpdateStateStatus net tenantID stateID status lastError lastChecked expectedVersion db =
     statement ''desired_states'' [''status'', ''last_error'', ''last_checked'', ''state_id'', ''version'', ''tenant_id''] net
       (\<lambda>db. case pg_states db stateID of
           None \<Rightarrow> (Inl ''optimistic lock failure: state version changed'', db)
         | Some row \<Rightarrow>
             if ds_Version row = expectedVersion \<and> ds_TenantID row = tenantID
             then (Inr (), db\<lparr>pg_states := (pg_states db)(stateID \<mapsto>
                     row\<lparr>ds_Status := status, ds_LastError := lastError, ds_LastChecked := lastChecked\<rparr>)\<rparr>)
             else (Inl ''optimistic lock failure: state version changed'', db)) db"

text \<open>The query has no condition on the tenant.\<close>

definition pg_GetState :: "fault \<Rightarrow> string \<Rightarrow> string \<Rightarrow> postgres \<Rightarrow> go_error + desired_state option" where
  "pg_GetState net tenantID stateID db =
     query ''desired_states'' [''state_id'', ''node_id'', ''tenant_id'', ''check_cmd'', ''apply_cmd'', ''desired_exit_code'',
         ''version'', ''status'', ''last_checked'', ''last_error'', ''created_at'', ''updated_at''] net
       (\<lambda>db. pg_states db stateID) db"

text \<open>What is left of a row by queries that do not select every column.\<close>

definition without_status :: "desired_state \<Rightarrow> desired_state" where
  "without_status row = row\<lparr>ds_Status := [], ds_LastChecked := 0, ds_LastError := []\<rparr>"

definition without_tenant :: "desired_state \<Rightarrow> desired_state" where
  "without_tenant row = row\<lparr>ds_TenantID := [], ds_Version := 0\<rparr>"

definition listed_columns :: "string list" where
  "listed_columns = [''state_id'', ''node_id'', ''tenant_id'', ''check_cmd'', ''apply_cmd'', ''desired_exit_code'',
     ''version'', ''created_at'', ''updated_at'']"

text \<open>\<open>ORDER BY created_at DESC LIMIT 1\<close>: the first row of the listing that none is newer than.\<close>

fun newest :: "desired_state list \<Rightarrow> desired_state option" where
  "newest [] = None"
| "newest (row # rows) =
     (case newest rows of
        None \<Rightarrow> Some row
      | Some r \<Rightarrow> Some (if ds_CreatedAt r \<le> ds_CreatedAt row then row else r))"

definition pg_GetStateByNode ::
  "fault \<Rightarrow> string list \<Rightarrow> string \<Rightarrow> string \<Rightarrow> postgres \<Rightarrow> go_error + desired_state option"
where
  "pg_GetStateByNode net ks tenantID nodeID db =
     query ''desired_states'' listed_columns net
       (\<lambda>db. map_option without_status
          (newest (filter (\<lambda>row. ds_NodeID row = nodeID) (map_values (pg_states db) ks)))) db"

definition pg_ListStates :: "fault \<Rightarrow> string list \<Rightarrow> string \<Rightarrow> postgres \<Rightarrow> go_error + desired_state list" where
  "pg_ListStates net ks tenantID db =
     query ''desired_states'' listed_columns net
       (\<lambda>db. map without_status (filter (\<lambda>row. ds_TenantID row = tenantID) (map_values (pg_states db) ks))) db"

text \<open>SQL's remainder takes the sign of the dividend.\<close>

definition sql_rem :: "int \<Rightarrow> int \<Rightarrow> int" where
  "sql_rem a b = sgn a * (\<bar>a\<bar> mod \<bar>b\<bar>)"

definition pg_ListStatesByStatus ::
  "(string \<Rightarrow> int) \<Rightarrow> fault \<Rightarrow> string list \<Rightarrow> string \<Rightarrow> int \<Rightarrow> int \<Rightarrow> postgres \<Rightarrow> go_error + desired_state list"
where
  "pg_ListStatesByStatus hashtext net ks status idx cnt db =
     query ''desired_states'' [''state_id'', ''node_id'', ''check_cmd'', ''apply_cmd'', ''desired_exit_code'', ''created_at'',
         ''updated_at'', ''last_checked'', ''status'', ''last_error''] net
       (\<lambda>db. map without_tenant (filter (\<lambda>row. ds_Status row = status \<and>
          (1 < cnt \<longrightarrow> \<bar>sql_rem (hashtext (ds_NodeID row)) cnt\<bar> = idx)) (map_values (pg_states db) ks))) db"

definition pg_CountStatesByStatus :: "fault \<Rightarrow> string list \<Rightarrow> string \<Rightarrow> string \<Rightarrow> postgres \<Rightarrow> go_error + nat" where
  "pg_CountStatesByStatus net ks tenantID status db =
     query ''desired_states'' [''tenant_id'', ''status''] net
       (\<lambda>db. length (filter (\<lambda>row. ds_TenantID row = tenantID \<and> ds_Status row = status) (map_values (pg_states db) ks))) db"

section \<open>Jobs\<close>

definition job_columns :: "string list" where
  "job_columns = [''job_id'', ''node_id'', ''tenant_id'', ''state_id'', ''command'', ''status'', ''exit_code'', ''stdout'',
     ''stderr'', ''trace_id'', ''created_at'']"

definition job_times :: "string list" where
  "job_times = [''started_at'', ''finished_at'']"

definition pg_CreateJob :: "fault \<Rightarrow> gotime \<Rightarrow> string \<Rightarrow> job \<Rightarrow> postgres \<Rightarrow> (go_error + unit) \<times> postgres" where
  "pg_CreateJob net now tenantID j db =
     (let j' = j\<lparr>j_TenantID := tenantID\<rparr> in
      statement ''jobs'' job_columns net
        (\<lambda>db. if pg_jobs db (j_JobID j') \<noteq> None
              then (Inl ''ERROR: duplicate key value violates unique constraint (SQLSTATE 23505)'', db)
              else (Inr (), db\<lparr>pg_jobs := (pg_jobs db)(j_JobID j' \<mapsto>
                     j'\<lparr>j_CreatedAt := now, j_StartedAt := None, j_FinishedAt := None\<rparr>)\<rparr>)) db)"

text \<open>The three updates; no row touched is no error.\<close>

definition pg_UpdateJobStatus ::
  "fault \<Rightarrow> gotime \<Rightarrow> string \<Rightarrow> string \<Rightarrow> string \<Rightarrow> int \<Rightarrow> string \<Rightarrow> string \<Rightarrow> postgres \<Rightarrow> (go_error + unit) \<times> postgres"
where
  "pg_UpdateJobStatus net now tenantID jobID status exitCode out err db =
     statement ''jobs''
       (if status = ''running'' then [''status'', ''started_at'', ''job_id'', ''tenant_id'']
        else if status = ''completed'' \<or> status = ''failed''
        then [''status'', ''exit_code'', ''stdout'', ''stderr'', ''finished_at'', ''job_id'', ''tenant_id'']
        else [''status'', ''job_id'', ''tenant_id'']) net
       (\<lambda>db. (Inr (), case pg_jobs db jobID of
           None \<Rightarrow> db
         | Some row \<Rightarrow>
             if j_TenantID row = tenantID
             then db\<lparr>pg_jobs := (pg_jobs db)(jobID \<mapsto> job_status_update now status exitCode out err row)\<rparr>
             else db)) db"

definition pg_GetJob :: "fault \<Rightarrow> string \<Rightarrow> string \<Rightarrow> postgres \<Rightarrow> go_error + job option" where
  "pg_GetJob net tenantID jobID db =
     query ''jobs'' (job_columns @ job_times) net
       (\<lambda>db. case pg_jobs db jobID of None \<Rightarrow> None
             | Some row \<Rightarrow> if j_TenantID row = tenantID then Some row else None) db"

text \<open>\<open>ORDER BY created_at DESC LIMIT n\<close>; a negative limit is an error.\<close>

definition newest_jobs :: "int \<Rightarrow> job list \<Rightarrow> go_error + job list" where
  "newest_jobs limit rows =
     (if limit < 0 then Inl ''ERROR: LIMIT must not be negative (SQLSTATE 2201W)''
      else Inr (take (nat limit) (sort_key (\<lambda>j. - j_CreatedAt j) rows)))"

definition pg_ListJobs :: "fault \<Rightarrow> string list \<Rightarrow> string \<Rightarrow> string \<Rightarrow> int \<Rightarrow> postgres \<Rightarrow> go_error + job list" where
  "pg_ListJobs net ks tenantID nodeID limit db =
     fst (statement ''jobs'' (job_columns @ job_times) net
       (\<lambda>db. (newest_jobs limit (filter (\<lambda>row. j_NodeID row = nodeID) (map_values (pg_jobs db) ks)), db)) db)"

definition pg_ListJobsByTenant :: "fault \<Rightarrow> string list \<Rightarrow> string \<Rightarrow> int \<Rightarrow> postgres \<Rightarrow> go_error + job list" where
  "pg_ListJobsByTenant net ks tenantID limit db =
     fst (statement ''jobs'' (job_columns @ job_times) net
       (\<lambda>db. (newest_jobs limit (filter (\<lambda>row. j_TenantID row = tenantID) (map_values (pg_jobs db) ks)), db)) db)"

section \<open>Epochs and idempotency\<close>

definition pg_IncrementDurableEpoch :: "fault \<Rightarrow> string \<Rightarrow> postgres \<Rightarrow> (go_error + int) \<times> postgres" where
  "pg_IncrementDurableEpoch net resourceID db =
     statement ''leader_epochs'' [''resource_id'', ''epoch''] net
       (\<lambda>db. let n = (case pg_epochs db resourceID of None \<Rightarrow> 1 | Some e \<Rightarrow> e + 1) in
          if max_int64 < n then (Inl ''ERROR: bigint out of range (SQLSTATE 22003)'', db)
          else (Inr n, db\<lparr>pg_epochs := (pg_epochs db)(resourceID \<mapsto> n)\<rparr>)) db"

definition pg_GetDurableEpoch :: "fault \<Rightarrow> string \<Rightarrow> postgres \<Rightarrow> go_error + int" where
  "pg_GetDurableEpoch net resourceID db =
     query ''leader_epochs'' [''resource_id'', ''epoch''] net (\<lambda>db. map_read 0 (pg_epochs db) resourceID) db"

text \<open>Stubs in the code too.\<close>

definition pg_GetIdempotencyRecord :: "string \<Rightarrow> go_error + string" where
  "pg_GetIdempotencyRecord key = Inl ''not found''"

definition pg_SetIdempotencyRecord :: "string \<Rightarrow> string \<Rightarrow> duration \<Rightarrow> go_error option" where
  "pg_SetIdempotencyRecord key val ttl = None"

section \<open>Schemas\<close>

definition repository_schema :: "string \<Rightarrow> string list" where
  "repository_schema table =
     (if table = ''agents'' then [''node_id'', ''hostname'', ''ip_address'', ''status'', ''last_heartbeat'', ''created_at'']
      else if table = ''jobs'' then [''job_id'', ''node_id'', ''command'', ''status'', ''exit_code'', ''created_at'', ''updated_at'']
      else if table = ''desired_states'' then [''state_id'', ''node_id'', ''spec'', ''status'', ''version'', ''created_at'']
      else [])"

text \<open>A schema with every column the statements name.\<close>

definition full_schema :: "string \<Rightarrow> string list" where
  "full_schema table =
     (if table = ''agents'' then ''health_score'' # agent_columns
      else if table = ''jobs'' then job_columns @ job_times
      else if table = ''desired_states'' then listed_columns @ [''status'', ''last_checked'', ''last_error'']
      else if table = ''leader_epochs'' then [''resource_id'', ''epoch'']
      else [])"

definition empty_db :: "(string \<Rightarrow> string list) \<Rightarrow> postgres" where
  "empty_db schema = \<lparr>columns = schema, pg_agents = Map.empty, pg_states = Map.empty, pg_jobs = Map.empty, pg_epochs = Map.empty\<rparr>"

section \<open>Statements\<close>

lemma statement_unknown: "\<not> set cols \<subseteq> set (columns db table) \<Longrightarrow>
    \<exists>e. statement table cols net f db = (Inl e, db)"
  by (simp add: statement_def)

lemma query_unknown: "\<not> set cols \<subseteq> set (columns db table) \<Longrightarrow> \<exists>e. query table cols net f db = Inl e"
  by (simp add: query_def statement_def)

lemma statement_delivered: "set cols \<subseteq> set (columns db table) \<Longrightarrow> statement table cols Delivered f db = f db"
  by (cases "f db") (simp add: statement_def split: sum.split)

lemma query_delivered: "set cols \<subseteq> set (columns db table) \<Longrightarrow> query table cols Delivered f db = Inr (f db)"
  by (simp add: query_def statement_delivered)

lemma statement_refused: "fst (f db) = Inl e \<Longrightarrow> snd (f db) = db \<Longrightarrow> \<exists>e. statement table cols net f db = (Inl e, db)"
  by (cases net; cases "f db") (simp_all add: statement_def)

section \<open>Epochs\<close>

definition pg_increment :: "string \<Rightarrow> postgres \<Rightarrow> int \<times> postgres" where
  "pg_increment r db =
     (case pg_IncrementDurableEpoch Delivered r db of (Inl e, db') \<Rightarrow> (0, db') | (Inr n, db') \<Rightarrow> (n, db'))"

definition epochs_ready :: "postgres \<Rightarrow> bool" where
  "epochs_ready db \<longleftrightarrow> {''resource_id'', ''epoch''} \<subseteq> set (columns db ''leader_epochs'')"

lemma pg_increment_eq: "epochs_ready db \<Longrightarrow> map_read 0 (pg_epochs db) r < max_int64 \<Longrightarrow>
    pg_increment r db = (map_read 0 (pg_epochs db) r + 1, db\<lparr>pg_epochs := (pg_epochs db)(r \<mapsto> map_read 0 (pg_epochs db) r + 1)\<rparr>)"
  by (simp add: pg_increment_def pg_IncrementDurableEpoch_def statement_delivered epochs_ready_def map_read_def
      int64_defs Let_def split: option.splits)

lemma pg_increment_cases: "snd (pg_increment r db) = db \<or> (\<exists>n. snd (pg_increment r db) = db\<lparr>pg_epochs := (pg_epochs db)(r \<mapsto> n)\<rparr>)"
  by (auto simp: pg_increment_def pg_IncrementDurableEpoch_def statement_def Let_def split: sum.split option.split)

interpretation pg_epoch: durable_epochs pg_increment "\<lambda>r db. map_read 0 (pg_epochs db) r" epochs_ready
proof
  fix db r n db'
  assume i: "pg_increment r db = (n, db')"
  show "epochs_ready db \<Longrightarrow> epochs_ready db'"
    using pg_increment_cases [of r db] i by (auto simp: epochs_ready_def)
  show "r' \<noteq> r \<Longrightarrow> map_read 0 (pg_epochs db') r' = map_read 0 (pg_epochs db) r'" for r'
    using pg_increment_cases [of r db] i by auto
  assume "epochs_ready db" "map_read 0 (pg_epochs db) r < max_int64"
  then show "n = map_read 0 (pg_epochs db) r + 1 \<and> map_read 0 (pg_epochs db') r = n"
    using i by (auto simp: pg_increment_eq)
qed

section \<open>Properties\<close>

text \<open>
  Over the repository's own schema every operation of the PostgreSQL store fails and writes nothing, whatever
  the tables hold: its statements name columns, and a table, that \<open>schema.sql\<close> does not create.
\<close>

theorem postgres_schema_mismatch:
  assumes "columns db = repository_schema"
  shows "(\<exists>e. pg_UpsertAgent net now t a db = (Inl e, db)) \<and> (\<exists>e. pg_GetAgent net t n db = Inl e) \<and>
    (\<exists>e. pg_ListAgents net ks t db = Inl e) \<and> (\<exists>e. pg_UpdateAgentHeartbeat net t n now db = (Inl e, db)) \<and>
    (\<exists>e. pg_UpsertState net now t st db = (Inl e, db)) \<and>
    (\<exists>e. pg_UpdateStateStatus net t i status err now v db = (Inl e, db)) \<and> (\<exists>e. pg_GetState net t i db = Inl e) \<and>
    (\<exists>e. pg_GetStateByNode net ks t n db = Inl e) \<and> (\<exists>e. pg_ListStates net ks t db = Inl e) \<and>
    (\<exists>e. pg_ListStatesByStatus ht net ks status idx cnt db = Inl e) \<and>
    (\<exists>e. pg_CountStatesByStatus net ks t status db = Inl e) \<and> (\<exists>e. pg_CreateJob net now t j db = (Inl e, db)) \<and>
    (\<exists>e. pg_UpdateJobStatus net now t i status code out err db = (Inl e, db)) \<and> (\<exists>e. pg_GetJob net t i db = Inl e) \<and>
    (\<exists>e. pg_ListJobs net ks t n limit db = Inl e) \<and> (\<exists>e. pg_ListJobsByTenant net ks t limit db = Inl e) \<and>
    (\<exists>e. pg_IncrementDurableEpoch net r db = (Inl e, db)) \<and> (\<exists>e. pg_GetDurableEpoch net r db = Inl e)"
  by (simp add: pg_UpsertAgent_def pg_GetAgent_def pg_ListAgents_def pg_UpdateAgentHeartbeat_def pg_UpsertState_def
      pg_UpdateStateStatus_def pg_GetState_def pg_GetStateByNode_def pg_ListStates_def pg_ListStatesByStatus_def
      pg_CountStatesByStatus_def pg_CreateJob_def pg_UpdateJobStatus_def pg_GetJob_def pg_ListJobs_def
      pg_ListJobsByTenant_def pg_IncrementDurableEpoch_def pg_GetDurableEpoch_def query_def statement_def assms
      repository_schema_def agent_columns_def listed_columns_def job_columns_def job_times_def Let_def)

text \<open>
  Over any schema the PostgreSQL store registers nobody: \<open>UpsertAgent\<close> passes nine values for ten placeholders,
  so every call fails and leaves the tables as they were.
\<close>

theorem postgres_registers_nobody: "\<exists>e. pg_UpsertAgent net now t a db = (Inl e, db)"
  unfolding pg_UpsertAgent_def Let_def
  by (rule statement_refused) (simp_all add: bind_args_def upsert_agent_args_def)

text \<open>
  The epochs of the PostgreSQL store are consecutive per resource, whatever other resources do, for any
  schema with the table.
\<close>

theorem postgres_epochs_consecutive:
  assumes "epochs_ready db" "map_read 0 (pg_epochs db) r + int (length rs) \<le> max_int64"
  shows "map snd (filter (\<lambda>(q, _). q = r) (issue pg_increment rs db)) =
    map (\<lambda>k. map_read 0 (pg_epochs db) r + 1 + int k) [0..<count_list rs r]"
  by (rule pg_epoch.issued_consecutive [OF assms])

text \<open>
  A tenant can replace another tenant's commands: over a schema with all columns, a state upserted under the
  identifier of another tenant's state succeeds, and the owner, and every other tenant, then reads the
  intruder's commands for the owner's node.
\<close>

theorem postgres_tenants_interfere:
  assumes "columns db = full_schema" "pg_states db (ds_StateID st) = Some row"
  shows "\<exists>db'. pg_UpsertState Delivered now u st db = (Inr (), db') \<and>
    (\<forall>t. \<exists>got. pg_GetState Delivered t (ds_StateID st) db' = Inr (Some got) \<and> ds_TenantID got = ds_TenantID row \<and>
       ds_NodeID got = ds_NodeID row \<and> ds_ApplyCmd got = ds_ApplyCmd st \<and> ds_CheckCmd got = ds_CheckCmd st)"
  using assms
  by (simp add: pg_UpsertState_def pg_GetState_def query_def statement_def full_schema_def listed_columns_def Let_def
      updated_state_def)

section \<open>Rehydration\<close>

lemma submit_queue: "q_items (queue (snd (Submit c t s))) = q_items (queue s) \<or>
    (\<exists>t'. q_items (queue (snd (Submit c t s))) = add_mset t' (q_items (queue s)) \<and> t_TenantID t' = t_TenantID t)"
  by (auto simp: Submit_def submit_checks_def submit_enqueue_def stamped_def Let_def split: prod.split sum.split option.split)

lemma rehydrated_tenants:
  assumes "\<forall>st \<in> set sts. ds_TenantID st = []" "t \<in># q_items (queue (rehydrate_states clk k sts s))"
  shows "t \<in># q_items (queue s) \<or> t_TenantID t = []"
  using assms
proof (induction sts arbitrary: k s)
  case (Cons st sts)
  let ?s = "snd (Submit (snd (clk k)) (rehydrate_task (fst (clk k)) st) s)"
  have "t \<in># q_items (queue ?s) \<or> t_TenantID t = []" using Cons by simp
  moreover have "t_TenantID (rehydrate_task now st) = []" for now using Cons.prems(1) by (simp add: rehydrate_task_def)
  ultimately show ?case using submit_queue [of "snd (clk k)" "rehydrate_task (fst (clk k)) st" s] by auto
qed simp

lemma rehydrated_without_tenant:
  assumes "t \<in># q_items (queue (snd (RehydrateQueue clk (\<lambda>status idx cnt. pg_ListStatesByStatus ht net ks status idx cnt db) s)))"
    and "t_TenantID t \<noteq> []"
  shows "t \<in># q_items (queue s)"
proof -
  have listed: "\<forall>st \<in> set sts. ds_TenantID st = []"
    if "pg_ListStatesByStatus ht net ks status idx cnt db = Inr sts" for status idx cnt sts
    using that by (cases net) (auto simp: pg_ListStatesByStatus_def query_def statement_def without_tenant_def split: if_splits)
  let ?ls = "\<lambda>status idx cnt. pg_ListStatesByStatus ht net ks status idx cnt db" and ?s = "s\<lparr>active := True\<rparr>"
  have keep: "t \<in># q_items (queue s')"
    if "?ls status idx cnt = Inr sts" "t \<in># q_items (queue (rehydrate_states clk k sts s'))" for status idx cnt sts k and s' :: "'b scheduler"
    using rehydrated_tenants [OF listed [OF that(1)] that(2)] assms(2) by simp
  show ?thesis
  proof (cases "?ls ''pending'' (shardIndex ?s) (shardCount ?s)")
    case (Inl e)
    then show ?thesis using assms(1) by (simp add: RehydrateQueue_def)
  next
    case (Inr sts)
    let ?s' = "rehydrate_states clk 0 sts ?s"
    have "t \<in># q_items (queue ?s')"
    proof (cases "?ls ''drifted'' (shardIndex ?s') (shardCount ?s')")
      case (Inl e)
      then show ?thesis using assms(1) Inr by (simp add: RehydrateQueue_def Let_def)
    next
      case second: (Inr sts')
      have "t \<in># q_items (queue (rehydrate_states clk (length sts) sts' ?s'))"
        using assms(1) Inr second by (simp add: RehydrateQueue_def Let_def)
      then show ?thesis by (rule keep [OF second])
    qed
    from keep [OF Inr this] show ?thesis by simp
  qed
qed

text \<open>
  A leader that rehydrates over PostgreSQL queues its work for nobody: the listing by status selects no
  tenant, so every task that \<open>RehydrateQueue\<close> adds to the queue has the empty tenant.
\<close>

theorem postgres_rehydration_loses_tenants:
  "{t. t \<in># q_items (queue (snd (RehydrateQueue clk (\<lambda>status idx cnt. pg_ListStatesByStatus ht net ks status idx cnt db) s))) \<and>
      t_TenantID t \<noteq> []} \<subseteq> set_mset (q_items (queue s))"
  using rehydrated_without_tenant by auto

section \<open>Witnesses\<close>

theorem postgres_schema_mismatch_witness:
  "\<exists>e. pg_UpsertState Delivered 5 ''a'' zero_state (empty_db repository_schema) = (Inl e, empty_db repository_schema)"
  using postgres_schema_mismatch [of "empty_db repository_schema"] by (simp add: empty_db_def)

theorem postgres_epochs_consecutive_witness:
  "map snd (filter (\<lambda>(q, _). q = ''leader'') (issue pg_increment [''leader'', ''x'', ''leader''] (empty_db full_schema))) = [1, 2]"
proof -
  have "epochs_ready (empty_db full_schema)" by (simp add: epochs_ready_def empty_db_def full_schema_def)
  moreover have "map_read 0 (pg_epochs (empty_db full_schema)) ''leader'' = 0" by (simp add: empty_db_def)
  ultimately show ?thesis
    using postgres_epochs_consecutive [of "empty_db full_schema" "''leader''" "[''leader'', ''x'', ''leader'']"]
    by (simp add: int64_defs)
qed

theorem postgres_tenants_interfere_witness:
  "\<exists>db'. pg_UpsertState Delivered 5 ''b'' (zero_state\<lparr>ds_StateID := ''s'', ds_ApplyCmd := ''evil''\<rparr>)
      ((empty_db full_schema)\<lparr>pg_states := [''s'' \<mapsto> zero_state\<lparr>ds_StateID := ''s'', ds_TenantID := ''a''\<rparr>]\<rparr>) = (Inr (), db') \<and>
    (\<exists>got. pg_GetState Delivered ''a'' ''s'' db' = Inr (Some got) \<and> ds_ApplyCmd got = ''evil'')"
  using postgres_tenants_interfere [of "(empty_db full_schema)\<lparr>pg_states := [''s'' \<mapsto> zero_state\<lparr>ds_StateID := ''s'', ds_TenantID := ''a''\<rparr>]\<rparr>"
      "zero_state\<lparr>ds_StateID := ''s'', ds_ApplyCmd := ''evil''\<rparr>"]
  by (fastforce simp: empty_db_def zero_state_def)

end
