(* ===== verification/Base64.thy ===== *)
theory Base64
  imports StoreTypes
begin

text \<open>
  Go's \<open>encoding/base64\<close> as far as the sources use it: padded encodings over an alphabet of 64 characters,
  with the decoder of the standard library. \<open>base64_alphabet\<close> is what an alphabet must satisfy for texts to
  be read back; \<open>StdEncoding\<close> and \<open>URLEncoding\<close> are its two instances.
\<close>

section \<open>Encoding and decoding\<close>

definition b64_char :: "string \<Rightarrow> nat \<Rightarrow> char" where
  "b64_char al n = al ! (n mod 64)"

fun index_of :: "char \<Rightarrow> char list \<Rightarrow> nat option" where
  "index_of c [] = None"
| "index_of c (x # xs) = (if x = c then Some 0 else map_option Suc (index_of c xs))"

definition b64_value :: "string \<Rightarrow> char \<Rightarrow> nat option" where
  "b64_value al c = index_of c al"

abbreviation byte :: "char \<Rightarrow> nat" where "byte \<equiv> of_char"

definition quantum :: "string \<Rightarrow> nat \<Rightarrow> string" where
  "quantum al v = [b64_char al (v div 262144), b64_char al (v div 4096), b64_char al (v div 64), b64_char al v]"

definition group3 :: "nat \<Rightarrow> nat \<Rightarrow> nat \<Rightarrow> nat" where
  "group3 x y z = 65536 * x + 256 * y + z"

fun b64_encode :: "string \<Rightarrow> string \<Rightarrow> string" where
  "b64_encode al (a # b # c # rest) = quantum al (group3 (byte a) (byte b) (byte c)) @ b64_encode al rest"
| "b64_encode al [a, b] = take 3 (quantum al (group3 (byte a) (byte b) 0)) @ ''=''"
| "b64_encode al [a] = take 2 (quantum al (group3 (byte a) 0 0)) @ ''==''"
| "b64_encode al [] = []"

definition bytes3 :: "nat \<Rightarrow> string" where
  "bytes3 v = [char_of (v div 65536), char_of (v div 256), char_of v]"

definition group_value :: "nat \<Rightarrow> nat \<Rightarrow> nat \<Rightarrow> nat \<Rightarrow> nat" where
  "group_value a b c d = 262144 * a + 4096 * b + 64 * c + d"

text \<open>
  Quanta of four characters; padding may only close the last one, and the bits it leaves over are
  ignored. \<open>None\<close> is a text that is not one of quanta; \<open>corrupt_byte\<close> below says where it goes wrong.
\<close>

fun b64_quanta :: "string \<Rightarrow> string \<Rightarrow> string option" where
  "b64_quanta al [] = Some []"
| "b64_quanta al (c1 # c2 # c3 # c4 # rest) =
     (case (b64_value al c1, b64_value al c2) of
        (Some a, Some b) \<Rightarrow>
          (case b64_value al c3 of
             None \<Rightarrow>
               if c3 = CHR ''='' \<and> c4 = CHR ''='' \<and> rest = [] then Some (take 1 (bytes3 (group_value a b 0 0)))
               else None
           | Some c \<Rightarrow>
               (case b64_value al c4 of
                  None \<Rightarrow>
                    if c4 = CHR ''='' \<and> rest = [] then Some (take 2 (bytes3 (group_value a b c 0))) else None
                | Some d \<Rightarrow> map_option (append (bytes3 (group_value a b c d))) (b64_quanta al rest)))
      | _ \<Rightarrow> None)"
| "b64_quanta al _ = None"

text \<open>Go's decoder skips line breaks wherever they are.\<close>

abbreviation line_break :: "char \<Rightarrow> bool" where
  "line_break c \<equiv> c = CHR 0x0A \<or> c = CHR 0x0D"

definition unbroken :: "string \<Rightarrow> string" where
  "unbroken s = filter (\<lambda>c. \<not> line_break c) s"

text \<open>
  The offset of the byte the decoder stops at, \<open>None\<close> for a text it accepts: \<open>si\<close> bytes are read, \<open>j\<close> of
  them in the quantum it is in. Padding is read by \<open>corrupt_pad\<close>, which expects \<open>n\<close> more pad characters
  and then the end; a text that is cut short is reported at the start of its quantum, or at its end when the
  second pad character is missing.
\<close>

fun corrupt_pad :: "nat \<Rightarrow> nat \<Rightarrow> string \<Rightarrow> nat option" where
  "corrupt_pad si n [] = (if n = 0 then None else Some si)"
| "corrupt_pad si n (c # s) =
     (if line_break c then corrupt_pad (si + 1) n s
      else if n = 0 then Some si
      else if c = CHR ''='' then corrupt_pad (si + 1) (n - 1) s
      else Some (si - 1))"

fun corrupt_byte :: "string \<Rightarrow> nat \<Rightarrow> nat \<Rightarrow> string \<Rightarrow> nat option" where
  "corrupt_byte al si j [] = (if j = 0 then None else Some (si - j))"
| "corrupt_byte al si j (c # s) =
     (if b64_value al c \<noteq> None then corrupt_byte al (si + 1) ((j + 1) mod 4) s
      else if line_break c then corrupt_byte al (si + 1) j s
      else if c \<noteq> CHR ''='' \<or> j < 2 then Some si
      else corrupt_pad (si + 1) (3 - j) s)"

definition CorruptInputError :: "nat \<Rightarrow> go_error" where
  "CorruptInputError n = ''illegal base64 data at input byte '' @ itoa (int n)"

definition b64_decode :: "string \<Rightarrow> string \<Rightarrow> go_error + string" where
  "b64_decode al s =
     (case corrupt_byte al 0 0 s of
        Some n \<Rightarrow> Inl (CorruptInputError n)
      | None \<Rightarrow> Inr (the (b64_quanta al (unbroken s))))"

definition TrimRight :: "char \<Rightarrow> string \<Rightarrow> string" where
  "TrimRight c s = rev (dropWhile (\<lambda>x. x = c) (rev s))"

definition StdEncoding :: string where
  "StdEncoding = ''ABCDEFGHIJKLMNOPQRSTUVWXYZabcdefghijklmnopqrstuvwxyz0123456789+/''"

definition URLEncoding :: string where
  "URLEncoding = ''ABCDEFGHIJKLMNOPQRSTUVWXYZabcdefghijklmnopqrstuvwxyz0123456789-_''"

section \<open>Bytes and groups of six bits\<close>

lemma index_of_nth: "distinct xs \<Longrightarrow> n < length xs \<Longrightarrow> index_of (xs ! n) xs = Some n"
  by (induction xs arbitrary: n) (auto simp: nth_Cons split: nat.split)

lemma triples_induct [case_names 1 2 3 4]:
  "(\<And>a b c rest. P rest \<Longrightarrow> P (a # b # c # rest)) \<Longrightarrow> (\<And>a b. P [a, b]) \<Longrightarrow> (\<And>a. P [a]) \<Longrightarrow> P [] \<Longrightarrow> P bs"
  by induction_schema (pat_completeness, lexicographic_order)

lemma quads_induct [case_names 1 2 3 4 5]:
  "(\<And>a b c d rest. P rest \<Longrightarrow> P (a # b # c # d # rest)) \<Longrightarrow> (\<And>a b c. P [a, b, c]) \<Longrightarrow> (\<And>a b. P [a, b]) \<Longrightarrow>
   (\<And>a. P [a]) \<Longrightarrow> P [] \<Longrightarrow> P s"
  by induction_schema (pat_completeness, lexicographic_order)

lemma index_of_None: "c \<notin> set xs \<Longrightarrow> index_of c xs = None"
  by (induction xs) auto

lemma group_of_quantum:
  assumes "v < 16777216"
  shows "group_value (v div 262144 mod 64) (v div 4096 mod 64) (v div 64 mod 64) (v mod 64) = v"
proof -
  have d: "v div 4096 = v div 64 div 64" "v div 262144 = v div 64 div 64 div 64"
    by (simp_all add: div_mult2_eq [symmetric])
  have "v div 262144 < 64" using assms by (simp add: less_mult_imp_div_less)
  then have "v div 64 div 64 div 64 mod 64 = v div 64 div 64 div 64" by (simp add: d)
  moreover note mult_div_mod_eq [of 64 v] mult_div_mod_eq [of 64 "v div 64"] mult_div_mod_eq [of 64 "v div 64 div 64"]
  ultimately show ?thesis unfolding group_value_def d by linarith
qed

lemma byte_lt [simp]: "byte (c :: char) < 256"
  using of_char_mod_256 [of c, where 'a = nat] by (metis mod_less_divisor zero_less_numeral)

lemma group3_lt: "x < 256 \<Longrightarrow> y < 256 \<Longrightarrow> z < 256 \<Longrightarrow> group3 x y z < 16777216"
  unfolding group3_def by linarith

lemma group3_parts:
  assumes "x < 256" "y < 256" "z < 256"
  shows "group3 x y z div 65536 = x" "group3 x y z div 256 mod 256 = y" "group3 x y z mod 256 = z"
proof -
  have e: "group3 x y z = z + (256 * x + y) * 256" by (simp add: group3_def)
  have d: "group3 x y z div 256 = 256 * x + y" unfolding e using assms by (subst div_mult_self1) simp_all
  have m: "group3 x y z mod 256 = z" unfolding e using assms by (subst mod_mult_self1) simp_all
  show "group3 x y z mod 256 = z" by (rule m)
  show "group3 x y z div 256 mod 256 = y" unfolding d using assms by simp
  have "group3 x y z div 65536 = group3 x y z div 256 div 256" by (simp add: div_mult2_eq [symmetric])
  then show "group3 x y z div 65536 = x" unfolding d using assms by simp
qed

lemma bytes_of_group [simp]: "bytes3 (group3 (byte a) (byte b) (byte c)) = [a, b, c]"
proof -
  have "char_of n = (char_of (n mod 256) :: char)" for n :: nat by simp
  then show ?thesis
    using group3_parts [of "byte a" "byte b" "byte c"] unfolding bytes3_def
    by (metis byte_lt char_of_char)
qed

lemma low_bits:
  "group3 x y 0 mod 64 = 0" "group3 x 0 0 mod 64 = 0" "group3 x 0 0 div 64 mod 64 = 0"
proof -
  show "group3 x y 0 mod 64 = 0"
    using mod_mult_self1_is_0 [of 64 "1024 * x + 4 * y"] by (simp add: group3_def add_mult_distrib2)
  show "group3 x 0 0 mod 64 = 0" "group3 x 0 0 div 64 mod 64 = 0"
    using mod_mult_self1_is_0 [of 64 "1024 * x"] mod_mult_self1_is_0 [of 64 "16 * x"] by (simp_all add: group3_def)
qed

definition plain :: "string \<Rightarrow> bool" where
  "plain s \<longleftrightarrow> (\<forall>c \<in> set s. c \<notin> {CHR ''='', CHR ''.'', CHR '' '', CHR 0x0A, CHR 0x0D})"

lemma plain_simps [simp]:
  "plain []" "plain (c # s) \<longleftrightarrow> c \<notin> {CHR ''='', CHR ''.'', CHR '' '', CHR 0x0A, CHR 0x0D} \<and> plain s"
  "plain (s @ s') \<longleftrightarrow> plain s \<and> plain s'"
  by (auto simp: plain_def)

lemma TrimRight_pads: "plain s \<Longrightarrow> TrimRight (CHR ''='') (s @ replicate n (CHR ''='')) = s"
proof -
  assume "plain s"
  then have "dropWhile (\<lambda>x. x = CHR ''='') (rev s) = rev s"
    by (cases s rule: rev_cases) simp_all
  moreover have "dropWhile (\<lambda>x. x = CHR ''='') (replicate n (CHR ''='') @ xs) = dropWhile (\<lambda>x. x = CHR ''='') xs" for xs
    by (induction n) simp_all
  ultimately show ?thesis by (simp add: TrimRight_def)
qed

section \<open>Texts are read back\<close>

locale base64_alphabet =
  fixes al :: string
  assumes distinct: "distinct al" and size64: "length al = 64" and plain_al: "plain al"
begin

lemma b64_value_char [simp]: "b64_value al (b64_char al n) = Some (n mod 64)"
  using distinct size64 by (simp add: b64_value_def b64_char_def index_of_nth)

lemma b64_char_in: "b64_char al n \<in> set al"
  using size64 by (simp add: b64_char_def)

lemma b64_char_plain [simp]:
  "b64_char al n \<noteq> CHR ''=''" "b64_char al n \<noteq> CHR ''.''" "b64_char al n \<noteq> CHR '' ''" "b64_char al n \<noteq> CHR 0x0A"
  "b64_char al n \<noteq> CHR 0x0D"
  using plain_al b64_char_in [of n] by (auto simp: plain_def)

lemma b64_value_pad [simp]: "b64_value al (CHR ''='') = None"
  using plain_al index_of_None [of "CHR ''=''" al] by (auto simp: b64_value_def plain_def)

lemma b64_quanta_encode: "b64_quanta al (b64_encode al bs) = Some bs"
proof (induction bs rule: triples_induct)
  case (1 a b c rest)
  from group_of_quantum [OF group3_lt [of "byte a" "byte b" "byte c"]]
  show ?case using 1 by (simp add: quantum_def)
next
  case (2 a b)
  from group_of_quantum [OF group3_lt [of "byte a" "byte b" 0]] low_bits(1)
  show ?case using bytes_of_group [of a b "CHR 0x00"] by (simp add: quantum_def)
next
  case (3 a)
  from group_of_quantum [OF group3_lt [of "byte a" 0 0]] low_bits(2,3)
  show ?case using bytes_of_group [of a "CHR 0x00" "CHR 0x00"] by (simp add: quantum_def)
qed simp

lemma b64_encode_form:
  "\<exists>s n. b64_encode al bs = s @ replicate n (CHR ''='') \<and> plain s \<and> n < 3 \<and> (length s + n) mod 4 = 0"
proof (induction bs rule: triples_induct)
  case (1 a b c rest)
  then obtain s n where "b64_encode al rest = s @ replicate n (CHR ''='')" "plain s" "n < 3" "(length s + n) mod 4 = 0"
    by (elim exE conjE)
  then show ?case
    by (intro exI [of _ "quantum al (group3 (byte a) (byte b) (byte c)) @ s"] exI [of _ n]) (simp add: quantum_def)
next
  case (2 a b)
  show ?case by (intro exI [of _ "take 3 (quantum al (group3 (byte a) (byte b) 0))"] exI [of _ 1]) (simp add: quantum_def)
next
  case (3 a)
  show ?case by (intro exI [of _ "take 2 (quantum al (group3 (byte a) 0 0))"] exI [of _ 2])
      (simp add: quantum_def numeral_2_eq_2)
qed simp

lemma b64_encode_unbroken: "unbroken (b64_encode al bs) = b64_encode al bs"
proof -
  obtain s n where "b64_encode al bs = s @ replicate n (CHR ''='')" "plain s"
    using b64_encode_form [of bs] by (elim exE conjE)
  then show ?thesis by (auto simp: plain_def unbroken_def filter_id_conv)
qed

text \<open>The decoder reports a byte exactly for the texts that are not quanta.\<close>

lemma b64_value_break [simp]: "b64_value al (CHR 0x0A) = None" "b64_value al (CHR 0x0D) = None"
  using plain_al by (auto simp: b64_value_def plain_def intro!: index_of_None)

lemma corrupt_pad_None: "corrupt_pad si n s = None \<longleftrightarrow> unbroken s = replicate n (CHR ''='')"
  by (induction si n s rule: corrupt_pad.induct) (auto simp: unbroken_def Cons_replicate_eq)

lemma corrupt_byte_unbroken: "corrupt_byte al si j s = None \<longleftrightarrow> corrupt_byte al si' j (unbroken s) = None"
proof (induction s arbitrary: si si' j)
  case (Cons c s)
  then show ?case by (auto simp: unbroken_def corrupt_pad_None)
qed (simp add: unbroken_def)

lemma unbroken_id: "unbroken s = s \<longleftrightarrow> (\<forall>c \<in> set s. \<not> line_break c)"
  by (simp add: unbroken_def filter_id_conv)

lemma corrupt_pad_one: "\<not> line_break c \<Longrightarrow> unbroken s = s \<Longrightarrow>
    corrupt_pad si (Suc 0) (c # s) = None \<longleftrightarrow> c = CHR ''='' \<and> s = []"
  by (simp add: corrupt_pad_None)

lemma corrupt_byte_quanta: "unbroken s = s \<Longrightarrow> corrupt_byte al si 0 s = None \<longleftrightarrow> b64_quanta al s \<noteq> None"
proof (induction s arbitrary: si rule: quads_induct)
  case (1 c1 c2 c3 c4 rest)
  have nb: "\<not> line_break c1" "\<not> line_break c2" "\<not> line_break c3" "\<not> line_break c4" and r: "unbroken rest = rest"
    using "1.prems" by (simp_all add: unbroken_id)
  note IH = "1.IH" [OF r] and pad = corrupt_pad_one [OF nb(4) r] corrupt_pad_None
  show ?case
  proof (cases "b64_value al c1 = None \<or> b64_value al c2 = None")
    case True
    then show ?thesis using nb by (cases "b64_value al c1"; cases "b64_value al c2") simp_all
  next
    case False
    then obtain a b where v: "b64_value al c1 = Some a" "b64_value al c2 = Some b" by auto
    show ?thesis
    proof (cases "b64_value al c3")
      case None
      then show ?thesis using nb v pad by simp
    next
      case (Some c)
      then show ?thesis using nb v r IH by (cases "b64_value al c4") (simp_all add: pad)
    qed
  qed
qed (auto simp: unbroken_id)

lemma b64_decode_ok: "b64_decode al s = Inr bs \<longleftrightarrow> b64_quanta al (unbroken s) = Some bs"
proof -
  have "corrupt_byte al 0 0 s = None \<longleftrightarrow> b64_quanta al (unbroken s) \<noteq> None"
    using corrupt_byte_unbroken [of 0 0 s 0] corrupt_byte_quanta [of "unbroken s" 0] by (simp add: unbroken_def)
  then show ?thesis by (auto simp: b64_decode_def split: option.splits)
qed

lemma b64_roundtrip: "b64_decode al (b64_encode al bs) = Inr bs"
  by (simp add: b64_decode_ok b64_encode_unbroken b64_quanta_encode)

end

interpretation std_base64: base64_alphabet StdEncoding
  by unfold_locales (simp_all add: StdEncoding_def)

interpretation url_base64: base64_alphabet URLEncoding
  by unfold_locales (simp_all add: URLEncoding_def)

end
