(* ===== verification/Attestation.thy ===== *)
theory Attestation
  imports Base64
begin

text \<open>
  \<open>attestation/signer.go\<close> and \<open>attestation/verifier.go\<close>: the signed claims with which an agent proves what
  it runs. SHA-256, the PEM and PKIX parsers and the two RSA operations are parameters (\<open>att_env\<close>); a private
  and a public key belong together (\<open>rsa_pair\<close>) when a signature verifies the digest it was made for and no
  other. Times are Unix seconds in an \<open>int64\<close>; the byte at which base64 text is corrupt is left out of the
  error text.
\<close>

section \<open>Claims\<close>

record attestation_claim =
  ac_NodeID :: string
  ac_BinaryHash :: string
  ac_Version :: string
  ac_Signature :: string
  ac_Timestamp :: int

record ('sk, 'pk) att_env =
  sha256_sum :: "string \<Rightarrow> string"
  sign_PKCS1v15 :: "'sk \<Rightarrow> string \<Rightarrow> go_error + string"
  verify_PKCS1v15 :: "'pk \<Rightarrow> string \<Rightarrow> string \<Rightarrow> go_error option"
  pem_decode :: "string \<Rightarrow> string option"
  parse_PKIX :: "string \<Rightarrow> go_error + 'pk option"

definition rsa_pair :: "('sk, 'pk) att_env \<Rightarrow> 'sk \<Rightarrow> 'pk \<Rightarrow> bool" where
  "rsa_pair env sk pk \<longleftrightarrow>
     (\<forall>h s h'. sign_PKCS1v15 env sk h = Inr s \<longrightarrow> (verify_PKCS1v15 env pk h' s = None \<longleftrightarrow> h' = h))"

definition attested_message :: "string \<Rightarrow> string \<Rightarrow> string \<Rightarrow> int \<Rightarrow> string" where
  "attested_message nodeID binaryHash version timestamp =
     nodeID @ CHR '':'' # binaryHash @ CHR '':'' # version @ CHR '':'' # itoa timestamp"

definition claim_message :: "attestation_claim \<Rightarrow> string" where
  "claim_message c = attested_message (ac_NodeID c) (ac_BinaryHash c) (ac_Version c) (ac_Timestamp c)"

section \<open>Signer\<close>

record 'sk signer =
  sg_privateKey :: 'sk
  sg_nodeID :: string
  sg_version :: string
  sg_binaryHash :: string

definition NewSigner :: "'sk \<Rightarrow> string \<Rightarrow> string \<Rightarrow> string \<Rightarrow> 'sk signer" where
  "NewSigner privateKey nodeID version binaryHash =
     \<lparr>sg_privateKey = privateKey, sg_nodeID = nodeID, sg_version = version, sg_binaryHash = binaryHash\<rparr>"

definition CreateClaim :: "('sk, 'pk) att_env \<Rightarrow> int \<Rightarrow> 'sk signer \<Rightarrow> go_error + attestation_claim" where
  "CreateClaim env now s =
     (let hashed = sha256_sum env (attested_message (sg_nodeID s) (sg_binaryHash s) (sg_version s) now)
      in case sign_PKCS1v15 env (sg_privateKey s) hashed of
           Inl err \<Rightarrow> Inl (''failed to sign: '' @ err)
         | Inr signature \<Rightarrow>
             Inr \<lparr>ac_NodeID = sg_nodeID s, ac_BinaryHash = sg_binaryHash s, ac_Version = sg_version s,
                  ac_Signature = b64_encode StdEncoding signature, ac_Timestamp = now\<rparr>)"

section \<open>Verifier\<close>

record 'pk verifier =
  vf_publicKey :: "'pk option"
  vf_enabled :: bool

definition NewVerifier :: "('sk, 'pk) att_env \<Rightarrow> string \<Rightarrow> bool \<Rightarrow> go_error + 'pk verifier" where
  "NewVerifier env publicKeyPEM enabled =
     (if \<not> enabled then Inr \<lparr>vf_publicKey = None, vf_enabled = False\<rparr>
      else case pem_decode env publicKeyPEM of
        None \<Rightarrow> Inl ''failed to parse PEM block containing public key''
      | Some block \<Rightarrow>
          (case parse_PKIX env block of
             Inl err \<Rightarrow> Inl (''failed to parse public key: '' @ err)
           | Inr None \<Rightarrow> Inl ''not an RSA public key''
           | Inr (Some rsaPub) \<Rightarrow> Inr \<lparr>vf_publicKey = Some rsaPub, vf_enabled = True\<rparr>))"

text \<open>\<open>-x\<close> of an \<open>int64\<close> wraps at the smallest one.\<close>

definition abs64 :: "int \<Rightarrow> int" where
  "abs64 x = (if x < 0 then wrap64 (- x) else x)"

definition allowedSkew :: int where "allowedSkew = 300"

definition claim_skew :: "int \<Rightarrow> int \<Rightarrow> int" where
  "claim_skew now timestamp = abs64 (wrap64 (now - timestamp))"

text \<open>\<open>None\<close> is success. An enabled verifier has a key, since only \<open>NewVerifier\<close> makes one.\<close>

definition Verify :: "('sk, 'pk) att_env \<Rightarrow> int \<Rightarrow> 'pk verifier \<Rightarrow> attestation_claim \<Rightarrow> go_error option" where
  "Verify env now v claim =
     (if \<not> vf_enabled v then None
      else let skew = claim_skew now (ac_Timestamp claim) in
        if skew > allowedSkew
        then Some (''timestamp skew too large: '' @ itoa skew @ '' seconds (max: '' @ itoa allowedSkew @ '')'')
        else case b64_decode StdEncoding (ac_Signature claim) of
          Inl err \<Rightarrow> Some (''invalid signature encoding: '' @ err)
        | Inr signature \<Rightarrow>
            (case vf_publicKey v of
               None \<Rightarrow> Some ''panic: nil public key''
             | Some key \<Rightarrow>
                 (case verify_PKCS1v15 env key (sha256_sum env (claim_message claim)) signature of
                    Some err \<Rightarrow> Some (''signature verification failed: '' @ err)
                  | None \<Rightarrow> None)))"

definition VerifyBinaryHash :: "'pk verifier \<Rightarrow> attestation_claim \<Rightarrow> string \<Rightarrow> go_error option" where
  "VerifyBinaryHash v claim expectedHash =
     (if \<not> vf_enabled v then None
      else if ac_BinaryHash claim \<noteq> expectedHash
        then Some (''binary hash mismatch: got '' @ ac_BinaryHash claim @ '', expected '' @ expectedHash)
      else None)"

definition IsEnabled :: "'pk verifier \<Rightarrow> bool" where
  "IsEnabled v = vf_enabled v"

text \<open>The statistics are a stub.\<close>

record attestation_metrics =
  am_TotalVerifications :: int
  am_SuccessfulVerifications :: int
  am_FailedVerifications :: int
  am_RejectedAgents :: int

definition verifier_Metrics :: "'pk verifier \<Rightarrow> attestation_metrics" where
  "verifier_Metrics v = \<lparr>am_TotalVerifications = 0, am_SuccessfulVerifications = 0,
     am_FailedVerifications = 0, am_RejectedAgents = 0\<rparr>"

section \<open>What a message says\<close>

lemma colon_split:
  "CHR '':'' \<notin> set a \<Longrightarrow> CHR '':'' \<notin> set b \<Longrightarrow> a @ CHR '':'' # s = b @ CHR '':'' # t \<longleftrightarrow> a = b \<and> s = t"
proof (induction a arbitrary: b)
  case Nil
  then show ?case by (cases b) auto
next
  case (Cons x a)
  then show ?case by (cases b) auto
qed

lemma itoa_inj:
  assumes "itoa m = itoa n" "min_int64 \<le> m" "m \<le> max_int64" "min_int64 \<le> n" "n \<le> max_int64"
  shows "m = n"
  using parse_int_itoa [OF assms(2,3)] parse_int_itoa [OF assms(4,5)] unfolding assms(1) by (rule HOL.trans [OF sym, THEN option.inject [THEN iffD1]])

definition int64_range :: "int \<Rightarrow> bool" where
  "int64_range n \<longleftrightarrow> min_int64 \<le> n \<and> n \<le> max_int64"

text \<open>Fields without a colon, and a timestamp that fits.\<close>

definition unambiguous :: "attestation_claim \<Rightarrow> bool" where
  "unambiguous c \<longleftrightarrow> CHR '':'' \<notin> set (ac_NodeID c) \<and> CHR '':'' \<notin> set (ac_BinaryHash c) \<and>
     CHR '':'' \<notin> set (ac_Version c) \<and> int64_range (ac_Timestamp c)"

lemma claim_message_inj:
  "unambiguous c \<Longrightarrow> unambiguous d \<Longrightarrow> claim_message c = claim_message d \<Longrightarrow>
   ac_NodeID c = ac_NodeID d \<and> ac_BinaryHash c = ac_BinaryHash d \<and> ac_Version c = ac_Version d \<and>
   ac_Timestamp c = ac_Timestamp d"
  by (auto simp: claim_message_def attested_message_def colon_split unambiguous_def int64_range_def intro: itoa_inj)

lemma wrap64_pos:
  assumes "9223372036854775808 \<le> x" "x < 18446744073709551616"
  shows "wrap64 x = x - 18446744073709551616"
proof -
  have "(x + 9223372036854775808) mod 18446744073709551616 = (x + 9223372036854775808 - 18446744073709551616) mod 18446744073709551616"
    by (rule minus_mod_self2 [symmetric])
  also have "\<dots> = x + 9223372036854775808 - 18446744073709551616"
    by (rule mod_pos_pos_trivial) (use assms in linarith)+
  finally show ?thesis unfolding wrap64_def by linarith
qed

lemma skew_allowed_iff:
  assumes "0 \<le> now" "now \<le> max_int64 - allowedSkew" "int64_range ts"
  shows "claim_skew now ts \<le> allowedSkew \<longleftrightarrow> \<bar>now - ts\<bar> \<le> allowedSkew \<or> ts = now - 9223372036854775808"
proof (cases "now - ts < 9223372036854775808")
  case True
  then have "wrap64 (now - ts) = now - ts"
    using assms by (simp add: int64_range_def int64_defs allowedSkew_def)
  then show ?thesis using True assms
    by (auto simp: claim_skew_def abs64_def int64_range_def int64_defs allowedSkew_def)
next
  case False
  then have w: "wrap64 (now - ts) = now - ts - 18446744073709551616"
    using assms by (intro wrap64_pos) (simp_all add: int64_range_def int64_defs allowedSkew_def)
  show ?thesis
  proof (cases "now - ts = 9223372036854775808")
    case True
    then have "wrap64 (now - ts) = - 9223372036854775808" unfolding w by linarith
    then have "claim_skew now ts = wrap64 9223372036854775808" by (simp add: claim_skew_def abs64_def)
    also have "\<dots> = - 9223372036854775808" by (simp add: wrap64_pos)
    finally show ?thesis using True by (auto simp: allowedSkew_def)
  next
    case ne: False
    then have "claim_skew now ts = 18446744073709551616 - (now - ts)"
      using False assms by (simp add: claim_skew_def w abs64_def int64_range_def int64_defs allowedSkew_def)
    then show ?thesis using False ne assms by (auto simp: int64_range_def int64_defs allowedSkew_def)
  qed
qed

section \<open>Guarantees\<close>


text \<open>
  The message joins its fields with colons and does not escape them: whatever the keys, a verifier gives
  the same answer on a claim whose binary hash is \<open>p:q\<close> and on the claim of another node, with \<open>:p\<close> appended
  to its name, whose binary hash is \<open>q\<close>; and the hash comparison then accepts \<open>q\<close>.
\<close>

theorem attestation_fields_shift:
  "Verify env now v (c\<lparr>ac_NodeID := ac_NodeID c @ '':'' @ p, ac_BinaryHash := q\<rparr>) =
     Verify env now v (c\<lparr>ac_BinaryHash := p @ '':'' @ q\<rparr>) \<and>
   VerifyBinaryHash v (c\<lparr>ac_NodeID := ac_NodeID c @ '':'' @ p, ac_BinaryHash := q\<rparr>) q = None"
proof -
  let ?c = "c\<lparr>ac_BinaryHash := p @ '':'' @ q\<rparr>" and ?d = "c\<lparr>ac_NodeID := ac_NodeID c @ '':'' @ p, ac_BinaryHash := q\<rparr>"
  have m: "claim_message ?d = claim_message ?c" by (simp add: claim_message_def attested_message_def)
  show ?thesis unfolding Verify_def Let_def m by (simp add: VerifyBinaryHash_def)
qed

text \<open>
  The window of five minutes in the arithmetic of \<open>int64\<close>: besides the timestamps it is meant to accept
  it accepts exactly one more, the one for which the difference is the smallest \<open>int64\<close>, whose absolute value
  is negative.
\<close>

theorem skew_window:
  assumes "0 \<le> now" "now \<le> max_int64 - allowedSkew" "int64_range ts"
  shows "claim_skew now ts \<le> allowedSkew \<longleftrightarrow> \<bar>now - ts\<bar> \<le> 300 \<or> ts = now - 9223372036854775808"
  using skew_allowed_iff [OF assms] by (simp add: allowedSkew_def)

section \<open>Witnesses\<close>

text \<open>Keys are names; a signature is the name of the key and the digest.\<close>

definition plain_att :: "(string, string) att_env" where
  "plain_att =
     \<lparr>sha256_sum = (\<lambda>m. ''#'' @ m), sign_PKCS1v15 = (\<lambda>sk h. Inr (sk @ h)),
      verify_PKCS1v15 = (\<lambda>pk h s. if s = pk @ h then None else Some ''crypto/rsa: verification error''),
      pem_decode = Some, parse_PKIX = (\<lambda>b. Inr (Some b))\<rparr>"

definition plain_signer :: "string signer" where
  "plain_signer = NewSigner ''key'' ''edge-1'' ''v1.0.0'' ''abc123''"

definition plain_claim :: attestation_claim where
  "plain_claim = \<lparr>ac_NodeID = ''edge-1'', ac_BinaryHash = ''abc123'', ac_Version = ''v1.0.0'',
     ac_Signature = b64_encode StdEncoding ''key#edge-1:abc123:v1.0.0:5000'', ac_Timestamp = 5000\<rparr>"

definition forged_claim :: attestation_claim where
  "forged_claim = plain_claim\<lparr>ac_BinaryHash := ''tampered''\<rparr>"

lemma plain_claim_created: "CreateClaim plain_att 5000 plain_signer = Inr plain_claim"
proof -
  have "itoa 5000 = ''5000''" by (simp add: itoa_def digit_char_def char_of_def bit_Suc_0_iff)
  then show ?thesis
    by (simp add: CreateClaim_def plain_att_def plain_signer_def NewSigner_def plain_claim_def attested_message_def
        del: b64_encode.simps)
qed


theorem skew_window_witness:
  "claim_skew 1700000000 1700000300 \<le> allowedSkew \<and> \<not> claim_skew 1700000000 1700000301 \<le> allowedSkew \<and>
   claim_skew 1700000000 (- 9223372035154775808) \<le> allowedSkew"
proof -
  have r: "claim_skew 1700000000 ts \<le> allowedSkew \<longleftrightarrow> \<bar>1700000000 - ts\<bar> \<le> 300 \<or> ts = 1700000000 - 9223372036854775808"
    if "int64_range ts" for ts
    by (rule skew_window [OF _ _ that]) (simp_all add: int64_defs allowedSkew_def)
  show ?thesis using r [of 1700000300] r [of 1700000301] r [of "- 9223372035154775808"]
    by (simp add: int64_range_def int64_defs)
qed

end
