(* ===== verification/Jwt.thy ===== *)
theory Jwt
  imports Base64
begin

text \<open>
  \<open>auth/jwt.go\<close>: the tokens that carry tenant and role, in the URL alphabet of Base64 without padding.
  HMAC-SHA256 and the JSON form of the claims are parameters (\<open>jwt_env\<close>): the theorems
  hold for every keyed hash, and for every claims whose JSON text is read back as the claims (in Go,
  those whose strings are valid UTF-8). Times are Unix seconds in an \<open>int64\<close>.
\<close>

section \<open>jwt.go\<close>

definition base64UrlEncode :: "string \<Rightarrow> string" where
  "base64UrlEncode bs = TrimRight (CHR ''='') (b64_encode URLEncoding bs)"

definition base64UrlDecode :: "string \<Rightarrow> go_error + string" where
  "base64UrlDecode s =
     (let l = length s mod 4
      in b64_decode URLEncoding (if 0 < l then s @ replicate (4 - l) (CHR ''='') else s))"

record claims =
  cl_TenantID :: string
  cl_Role :: string
  cl_Issuer :: string
  cl_Audience :: string
  cl_ExpiresAt :: int
  cl_IssuedAt :: int
  cl_NotBefore :: int

record jwt_env =
  hmac_sha256 :: "string \<Rightarrow> string \<Rightarrow> string"
  claims_json :: "claims \<Rightarrow> string"
  parse_claims :: "string \<Rightarrow> go_error + claims"

definition jwt_issuer :: string where "jwt_issuer = ''fluxforge''"
definition jwt_audience :: string where "jwt_audience = ''fluxforge-api''"

text \<open>The secret the process starts with; \<open>None\<close> is the panic of \<open>init\<close>.\<close>

definition jwtSecret :: "string \<Rightarrow> string option" where
  "jwtSecret secretEnv =
     (if length secretEnv < 32
      then if secretEnv = [] then Some ''insecure_default_secret_for_dev_mode_only_32bytes'' else None
      else Some secretEnv)"

definition computeHMAC :: "jwt_env \<Rightarrow> string \<Rightarrow> string \<Rightarrow> string" where
  "computeHMAC env message secret = base64UrlEncode (hmac_sha256 env secret message)"

text \<open>\<open>json.Marshal\<close> of the header map, with its keys sorted.\<close>

definition headerJSON :: string where
  "headerJSON = ''{\"alg\":\"HS256\",\"typ\":\"JWT\"}''"

definition new_claims :: "int \<Rightarrow> string \<Rightarrow> string \<Rightarrow> claims" where
  "new_claims now tenantID role =
     \<lparr>cl_TenantID = tenantID, cl_Role = role, cl_Issuer = jwt_issuer, cl_Audience = jwt_audience,
      cl_ExpiresAt = wrap64 (now + 86400), cl_IssuedAt = now, cl_NotBefore = now\<rparr>"

definition GenerateToken :: "jwt_env \<Rightarrow> string \<Rightarrow> int \<Rightarrow> string \<Rightarrow> string \<Rightarrow> string" where
  "GenerateToken env secret now tenantID role =
     (let tokenPart = base64UrlEncode headerJSON @ ''.'' @
            base64UrlEncode (claims_json env (new_claims now tenantID role))
      in tokenPart @ ''.'' @ computeHMAC env tokenPart secret)"

text \<open>\<open>strings.Split\<close> with a separator of one character.\<close>

fun split_on :: "char \<Rightarrow> string \<Rightarrow> string list" where
  "split_on c [] = [[]]"
| "split_on c (x # xs) =
     (if x = c then [] # split_on c xs
      else (case split_on c xs of [] \<Rightarrow> [[x]] | p # ps \<Rightarrow> (x # p) # ps))"

definition ValidateToken :: "jwt_env \<Rightarrow> string \<Rightarrow> int \<Rightarrow> string \<Rightarrow> go_error + claims" where
  "ValidateToken env secret now tokenString =
     (case split_on (CHR ''.'') tokenString of
        [p0, p1, p2] \<Rightarrow>
          if computeHMAC env (p0 @ ''.'' @ p1) secret \<noteq> p2 then Inl ''invalid signature''
          else (case base64UrlDecode p1 of
             Inl err \<Rightarrow> Inl (''failed to decode claims: '' @ err)
           | Inr claimsJSON \<Rightarrow>
               (case parse_claims env claimsJSON of
                  Inl e \<Rightarrow> Inl (''failed to unmarshal claims: '' @ e)
                | Inr c \<Rightarrow>
                    if now > cl_ExpiresAt c then Inl ''token expired''
                    else if cl_Issuer c \<noteq> jwt_issuer then Inl ''invalid issuer''
                    else if cl_Audience c \<noteq> jwt_audience then Inl ''invalid audience''
                    else Inr c))
      | _ \<Rightarrow> Inl ''invalid token format'')"

lemma new_claims_fields [simp]:
  "cl_TenantID (new_claims now t role) = t" "cl_Role (new_claims now t role) = role"
  "cl_Issuer (new_claims now t role) = jwt_issuer" "cl_Audience (new_claims now t role) = jwt_audience"
  by (simp_all add: new_claims_def)

section \<open>base64 without padding\<close>

lemma base64UrlEncode_plain: "plain (base64UrlEncode bs)"
  using url_base64.b64_encode_form [of bs] TrimRight_pads by (auto simp: base64UrlEncode_def)

lemma base64Url_roundtrip: "base64UrlDecode (base64UrlEncode bs) = Inr bs"
proof -
  obtain s n where e: "b64_encode URLEncoding bs = s @ replicate n (CHR ''='')" and s: "plain s" and n: "n < 3" "(length s + n) mod 4 = 0"
    using url_base64.b64_encode_form [of bs] by (elim exE conjE)
  have "length s mod 4 = (if n = 0 then 0 else 4 - n)" using n by (cases "n = 0") presburger+
  then have "(if 0 < length s mod 4 then s @ replicate (4 - length s mod 4) (CHR ''='') else s) = b64_encode URLEncoding bs"
    using n by (auto simp: e)
  then show ?thesis
    using url_base64.b64_roundtrip [of bs] TrimRight_pads [OF s, of n] e
    by (simp add: base64UrlDecode_def base64UrlEncode_def Let_def)
qed

section \<open>strings.Split\<close>

lemma split_on_nonempty [simp]: "split_on c s \<noteq> []"
  by (induction s) (auto split: list.split)

lemma split_on_none: "c \<notin> set s \<Longrightarrow> split_on c s = [s]"
  by (induction s) auto

lemma split_on_append: "c \<notin> set s \<Longrightarrow> split_on c (s @ c # t) = s # split_on c t"
  by (induction s) auto

lemma split_on_parts: "split_on c s = p # ps \<Longrightarrow> c \<notin> set p \<and>
    (if ps = [] then s = p else \<exists>t. s = p @ c # t \<and> split_on c t = ps)"
proof (induction s arbitrary: p ps)
  case (Cons x s)
  obtain q qs where q: "split_on c s = q # qs" by (cases "split_on c s") auto
  then show ?case using Cons.IH [OF q] Cons.prems by (cases "x = c") (auto split: if_splits)
qed simp

lemma split_on_three:
  "split_on c s = [p, q, r] \<longleftrightarrow> s = p @ c # q @ c # r \<and> c \<notin> set p \<and> c \<notin> set q \<and> c \<notin> set r"
proof
  assume "split_on c s = [p, q, r]"
  from split_on_parts [OF this] obtain t where t: "s = p @ c # t" "c \<notin> set p" "split_on c t = [q, r]" by auto
  from split_on_parts [OF this(3)] obtain u where u: "t = q @ c # u" "c \<notin> set q" "split_on c u = [r]" by auto
  from split_on_parts [OF u(3)] t u show "s = p @ c # q @ c # r \<and> c \<notin> set p \<and> c \<notin> set q \<and> c \<notin> set r" by simp
qed (auto simp: split_on_append split_on_none)

section \<open>Tokens\<close>

lemma plain_no_dot: "plain s \<Longrightarrow> CHR ''.'' \<notin> set s"
  by (auto simp: plain_def)

lemma plain_no_space: "plain s \<Longrightarrow> CHR '' '' \<notin> set s"
  by (auto simp: plain_def)

lemma computeHMAC_plain: "plain (computeHMAC env m s)"
  by (simp add: computeHMAC_def base64UrlEncode_plain)

text \<open>
  C14. What an accepted token is: three parts without dots, the last one the MAC of the first two under
  the secret, the middle one the text of claims that have not expired and name issuer and audience.
  The header is not looked at, nor is the time before which a token is not valid.
\<close>

theorem token_accepted_iff:
  "ValidateToken env secret now tok = Inr c \<longleftrightarrow>
   (\<exists>h p json. tok = h @ ''.'' @ p @ ''.'' @ computeHMAC env (h @ ''.'' @ p) secret \<and>
      CHR ''.'' \<notin> set h \<and> CHR ''.'' \<notin> set p \<and>
      base64UrlDecode p = Inr json \<and> parse_claims env json = Inr c \<and>
      now \<le> cl_ExpiresAt c \<and> cl_Issuer c = jwt_issuer \<and> cl_Audience c = jwt_audience)"
    (is "?valid \<longleftrightarrow> ?spec")
proof
  assume v: ?valid
  then obtain h p s where parts: "split_on (CHR ''.'') tok = [h, p, s]"
    by (auto simp: ValidateToken_def split: list.splits)
  then have "s = computeHMAC env (h @ ''.'' @ p) secret" and "\<exists>json. base64UrlDecode p = Inr json \<and>
      parse_claims env json = Inr c \<and> now \<le> cl_ExpiresAt c \<and> cl_Issuer c = jwt_issuer \<and> cl_Audience c = jwt_audience"
    using v by (auto simp: ValidateToken_def split: if_splits option.splits sum.splits)
  then show ?spec using parts by (auto simp: split_on_three)
next
  assume ?spec
  then obtain h p json where tok: "tok = h @ ''.'' @ p @ ''.'' @ computeHMAC env (h @ ''.'' @ p) secret"
    "CHR ''.'' \<notin> set h" "CHR ''.'' \<notin> set p" and rest: "base64UrlDecode p = Inr json" "parse_claims env json = Inr c"
      "now \<le> cl_ExpiresAt c" "cl_Issuer c = jwt_issuer" "cl_Audience c = jwt_audience" by blast
  have "split_on (CHR ''.'') tok = [h, p, computeHMAC env (h @ ''.'' @ p) secret]"
    using tok plain_no_dot [OF computeHMAC_plain] by (simp add: split_on_three)
  then show ?valid using rest by (simp add: ValidateToken_def)
qed

lemma issued_token:
  assumes "parse_claims env (claims_json env (new_claims now t role)) = Inr (new_claims now t role)"
    and "0 \<le> now" "now + 86400 \<le> max_int64"
  shows "ValidateToken env secret later (GenerateToken env secret now t role) =
    (if later \<le> now + 86400 then Inr (new_claims now t role) else Inl ''token expired'')"
proof -
  let ?h = "base64UrlEncode headerJSON" and ?p = "base64UrlEncode (claims_json env (new_claims now t role))"
  have "cl_ExpiresAt (new_claims now t role) = now + 86400" using assms(2,3) by (simp add: new_claims_def int64_defs)
  moreover have "split_on (CHR ''.'') (GenerateToken env secret now t role) =
      [?h, ?p, computeHMAC env (?h @ ''.'' @ ?p) secret]"
    using plain_no_dot base64UrlEncode_plain computeHMAC_plain
    by (simp add: split_on_three GenerateToken_def Let_def)
  ultimately show ?thesis using assms(1) by (simp add: ValidateToken_def base64Url_roundtrip)
qed

text \<open>
  C38. A token issued at \<open>now\<close> is accepted for 24 hours by every process with the same secret, and gives
  back tenant and role; from then on it is refused as expired.
\<close>

theorem token_roundtrip:
  assumes "parse_claims env (claims_json env (new_claims now t role)) = Inr (new_claims now t role)"
    and "0 \<le> now" "now + 86400 \<le> max_int64"
  shows "ValidateToken env secret later (GenerateToken env secret now t role) =
    (if later \<le> now + 86400 then Inr (new_claims now t role) else Inl ''token expired'')"
  using assms by (rule issued_token)

section \<open>Witnesses\<close>

text \<open>An instance of the parameters, with a readable form of the claims of tokens issued at 5000.\<close>

definition plain_jwt :: jwt_env where
  "plain_jwt =
     \<lparr>hmac_sha256 = (\<lambda>key m. key @ m),
      claims_json = (\<lambda>c. cl_TenantID c @ ''|'' @ cl_Role c),
      parse_claims = (\<lambda>s. case split_on (CHR ''|'') s of
          [t, role] \<Rightarrow> Inr (new_claims 5000 t role)
        | _ \<Rightarrow> Inl ''unexpected end of JSON input'')\<rparr>"

lemma plain_jwt_claims:
  "CHR ''|'' \<notin> set t \<Longrightarrow> CHR ''|'' \<notin> set role \<Longrightarrow>
   parse_claims plain_jwt (claims_json plain_jwt (new_claims 5000 t role)) = Inr (new_claims 5000 t role)"
  by (simp add: plain_jwt_def split_on_append split_on_none)

theorem token_roundtrip_witness:
  "map_sum id cl_TenantID (ValidateToken plain_jwt ''key'' 90000 (GenerateToken plain_jwt ''key'' 5000 ''acme'' ''admin'')) = Inr ''acme'' \<and>
   ValidateToken plain_jwt ''key'' 91401 (GenerateToken plain_jwt ''key'' 5000 ''acme'' ''admin'') = Inl ''token expired''"
proof -
  have "parse_claims plain_jwt (claims_json plain_jwt (new_claims 5000 ''acme'' ''admin'')) =
      Inr (new_claims 5000 ''acme'' ''admin'')"
    by (simp add: plain_jwt_claims)
  then have r: "ValidateToken plain_jwt ''key'' later (GenerateToken plain_jwt ''key'' 5000 ''acme'' ''admin'') =
      (if later \<le> 5000 + 86400 then Inr (new_claims 5000 ''acme'' ''admin'') else Inl ''token expired'')" for later
    by (rule token_roundtrip) (simp_all add: int64_defs)
  show ?thesis unfolding r by (simp add: new_claims_def)
qed

end
