(* ===== verification/Middleware.thy ===== *)
theory Middleware
  imports Jwt
begin

text \<open>
  \<open>middleware/\<close>: the wrappers around the HTTP handlers, over the part of \<open>net/http\<close> they use.

  A handler is given the request, the headers set so far and the state of the process; it returns the
  response with all its headers, and the new state. Headers keep their values in order: \<open>Set\<close> replaces
  them, \<open>Add\<close> appends. A request's context maps keys to values; a claims value is kept as such. Query
  parameters and request headers that are missing read as the empty string.
\<close>

section \<open>Requests, responses, contexts\<close>

datatype ctx_value = CtxString string | CtxClaims claims

type_synonym context_values = "string \<rightharpoonup> ctx_value"

record request =
  rq_Method :: string
  rq_Path :: string
  rq_Query :: "string \<Rightarrow> string"
  rq_Header :: "string \<Rightarrow> string"
  rq_Body :: string
  rq_Context :: context_values

type_synonym headers = "string \<rightharpoonup> string list"

definition header_set :: "string \<Rightarrow> string \<Rightarrow> headers \<Rightarrow> headers" where
  "header_set k v h = h(k \<mapsto> [v])"

definition header_add :: "string \<Rightarrow> string \<Rightarrow> headers \<Rightarrow> headers" where
  "header_add k v h = h(k \<mapsto> map_read [] h k @ [v])"

record response =
  rp_Code :: int
  rp_Header :: headers
  rp_Body :: string

text \<open>No response: the handler panicked, and the server closes the connection.\<close>

type_synonym 's handler = "request \<Rightarrow> headers \<Rightarrow> 's \<Rightarrow> response option \<times> 's"

abbreviation StatusOK :: int where "StatusOK \<equiv> 200"
abbreviation StatusCreated :: int where "StatusCreated \<equiv> 201"
abbreviation StatusBadRequest :: int where "StatusBadRequest \<equiv> 400"
abbreviation StatusUnauthorized :: int where "StatusUnauthorized \<equiv> 401"
abbreviation StatusNotFound :: int where "StatusNotFound \<equiv> 404"
abbreviation StatusMethodNotAllowed :: int where "StatusMethodNotAllowed \<equiv> 405"
abbreviation StatusRequestTimeout :: int where "StatusRequestTimeout \<equiv> 408"
abbreviation StatusTooManyRequests :: int where "StatusTooManyRequests \<equiv> 429"
abbreviation StatusInternalServerError :: int where "StatusInternalServerError \<equiv> 500"
abbreviation StatusServiceUnavailable :: int where "StatusServiceUnavailable \<equiv> 503"

text \<open>\<open>http.Error\<close>, and a response written with a status and a body.\<close>

definition http_Error :: "string \<Rightarrow> int \<Rightarrow> headers \<Rightarrow> response" where
  "http_Error msg code h =
     \<lparr>rp_Code = code,
      rp_Header = header_set ''X-Content-Type-Options'' ''nosniff''
        (header_set ''Content-Type'' ''text/plain; charset=utf-8'' h),
      rp_Body = msg @ [CHR 0x0A]\<rparr>"

definition reply :: "int \<Rightarrow> string \<Rightarrow> headers \<Rightarrow> response" where
  "reply code body h = \<lparr>rp_Code = code, rp_Header = h, rp_Body = body\<rparr>"

section \<open>Tenants\<close>

definition TenantContextKey :: string where "TenantContextKey = ''tenant_id''"
definition RoleContextKey :: string where "RoleContextKey = ''role''"
definition ClaimsContextKey :: string where "ClaimsContextKey = ''claims''"
definition TenantHeader :: string where "TenantHeader = ''X-Tenant-ID''"

lemmas context_keys = TenantContextKey_def RoleContextKey_def ClaimsContextKey_def

definition TenantMiddleware :: "'s handler \<Rightarrow> 's handler" where
  "TenantMiddleware inner rq h s =
     (let tenantID = rq_Header rq TenantHeader in
      if tenantID = [] then (Some (http_Error (''Missing required header: '' @ TenantHeader) StatusBadRequest h), s)
      else inner (rq\<lparr>rq_Context := (rq_Context rq)(TenantContextKey \<mapsto> CtxString tenantID)\<rparr>) h s)"

definition GetTenantFromContext :: "context_values \<Rightarrow> go_error + string" where
  "GetTenantFromContext ctx =
     (case ctx TenantContextKey of
        None \<Rightarrow> Inl ''tenant_id not found in context''
      | Some (CtxString tenantID) \<Rightarrow> Inr tenantID
      | Some _ \<Rightarrow> Inl ''tenant_id in context is not a string'')"

section \<open>Authentication\<close>

definition bad_format :: string where
  "bad_format = ''Invalid Authorization format. Expected '' @ CHR 0x27 # ''Bearer <token>'' @ [CHR 0x27]"

text \<open>The error response's message, or the claims of the bearer token.\<close>

definition bearer_claims :: "jwt_env \<Rightarrow> string \<Rightarrow> int \<Rightarrow> request \<Rightarrow> go_error + claims" where
  "bearer_claims env secret now rq =
     (let authHeader = rq_Header rq ''Authorization'' in
      if authHeader = [] then Inl ''Missing Authorization header''
      else case split_on (CHR '' '') authHeader of
          [p0, p1] \<Rightarrow>
            if p0 \<noteq> ''Bearer'' then Inl bad_format
            else (case ValidateToken env secret now p1 of
                Inl err \<Rightarrow> Inl (''Unauthorized: '' @ err)
              | Inr c \<Rightarrow> Inr c)
        | _ \<Rightarrow> Inl bad_format)"

definition claims_context :: "claims \<Rightarrow> context_values \<Rightarrow> context_values" where
  "claims_context c ctx =
     ctx(TenantContextKey \<mapsto> CtxString (cl_TenantID c), RoleContextKey \<mapsto> CtxString (cl_Role c),
         ClaimsContextKey \<mapsto> CtxClaims c)"

definition AuthMiddleware :: "jwt_env \<Rightarrow> string \<Rightarrow> int \<Rightarrow> 's handler \<Rightarrow> 's handler" where
  "AuthMiddleware env secret now inner rq h s =
     (case bearer_claims env secret now rq of
        Inl msg \<Rightarrow> (Some (http_Error msg StatusUnauthorized h), s)
      | Inr c \<Rightarrow> inner (rq\<lparr>rq_Context := claims_context c (rq_Context rq)\<rparr>) h s)"

definition GetRoleFromContext :: "context_values \<Rightarrow> go_error + string" where
  "GetRoleFromContext ctx =
     (case ctx RoleContextKey of
        None \<Rightarrow> Inl ''role not found in context''
      | Some (CtxString role) \<Rightarrow> Inr role
      | Some _ \<Rightarrow> Inl ''role in context is not a string'')"

section \<open>CORS\<close>

definition cors_headers :: "headers \<Rightarrow> headers" where
  "cors_headers h =
     header_set ''Access-Control-Max-Age'' ''3600''
      (header_set ''Access-Control-Allow-Headers'' ''Content-Type, X-Tenant-ID, Authorization''
       (header_set ''Access-Control-Allow-Methods'' ''GET, POST, PUT, DELETE, OPTIONS''
        (header_set ''Access-Control-Allow-Origin'' ''*'' h)))"

definition CORSMiddleware :: "'s handler \<Rightarrow> 's handler" where
  "CORSMiddleware inner rq h s =
     (if rq_Method rq = ''OPTIONS'' then (Some (reply StatusOK [] (cors_headers h)), s)
      else inner rq (cors_headers h) s)"

section \<open>What reaches the handlers\<close>

lemma tenant_of_claims [simp]: "GetTenantFromContext (claims_context c ctx) = Inr (cl_TenantID c)"
  by (simp add: GetTenantFromContext_def claims_context_def context_keys)

lemma role_of_claims [simp]: "GetRoleFromContext (claims_context c ctx) = Inr (cl_Role c)"
  by (simp add: GetRoleFromContext_def claims_context_def context_keys)

lemma refused_unchanged:
  "bearer_claims env secret now rq = Inl e \<Longrightarrow>
   AuthMiddleware env secret now inner rq h s = (Some (http_Error e StatusUnauthorized h), s)"
  by (simp add: AuthMiddleware_def)

text \<open>The claims a request gets in by are those of a token signed with the secret.\<close>

lemma bearer_claims_signed:
  assumes "bearer_claims env secret now rq = Inr c"
  shows "\<exists>h p json. rq_Header rq ''Authorization'' = ''Bearer '' @ h @ ''.'' @ p @ ''.'' @ computeHMAC env (h @ ''.'' @ p) secret \<and>
     base64UrlDecode p = Inr json \<and> parse_claims env json = Inr c \<and> now \<le> cl_ExpiresAt c"
proof -
  obtain tok where parts: "split_on (CHR '' '') (rq_Header rq ''Authorization'') = [''Bearer'', tok]"
    and v: "ValidateToken env secret now tok = Inr c"
    using assms by (auto simp: bearer_claims_def Let_def split: if_splits list.splits sum.splits)
  obtain h p s where dots: "split_on (CHR ''.'') tok = [h, p, s]"
    using v by (auto simp: ValidateToken_def split: list.splits)
  have sp: "rq_Header rq ''Authorization'' = ''Bearer'' @ CHR '' '' # tok" and tok: "tok = h @ CHR ''.'' # p @ CHR ''.'' # s"
    using split_on_parts [OF parts] split_on_parts dots by (auto simp: split_on_three dest: split_on_parts)
  then show ?thesis using v dots
    by (auto simp: ValidateToken_def split: if_splits option.splits sum.splits)
qed

end
