(* ===== verification/Idempotency.thy ===== *)
theory Idempotency
  imports Middleware RedisLocks
begin

text \<open>
  \<open>idempotency/store.go\<close>: the responses already given, by idempotency key, in a backend or, without one,
  in the process. A backend is its two calls (\<open>backend_api\<close>) over its state \<open>'b\<close>; the JSON text of an
  entry is a parameter. \<open>redis_backend\<close> is the one \<open>main.go\<close> passes. \<open>time.Since\<close> is one clock reading.

  \<open>response_cache\<close> is the contract the HTTP layer relies on: a response that was stored is found under its
  key, and under no other. The process-local store keeps it for an hour, the Redis store for a day.
\<close>

section \<open>Store\<close>

record idem_response =
  ir_StatusCode :: int
  ir_Body :: string
  ir_Headers :: headers

record idem_entry =
  ie_Resp :: idem_response
  ie_Timestamp :: gotime

record 'b backend_api =
  be_Set :: "gotime \<Rightarrow> string \<Rightarrow> string \<Rightarrow> duration \<Rightarrow> 'b \<Rightarrow> (go_error + unit) \<times> 'b"
  be_Get :: "gotime \<Rightarrow> string \<Rightarrow> 'b \<Rightarrow> go_error + string"

record entry_codec =
  entry_json :: "idem_entry \<Rightarrow> string"
  parse_entry :: "string \<Rightarrow> go_error + idem_entry"

record 'b idem_store =
  id_backend :: "'b option"
  id_cache :: "string \<rightharpoonup> idem_entry"

definition idem_NewStore :: "'b option \<Rightarrow> 'b idem_store" where
  "idem_NewStore backend = \<lparr>id_backend = backend, id_cache = Map.empty\<rparr>"

definition idem_Get ::
  "'b backend_api \<Rightarrow> entry_codec \<Rightarrow> gotime \<Rightarrow> string \<Rightarrow> 'b idem_store \<Rightarrow> idem_response option \<times> 'b idem_store"
where
  "idem_Get be cd now key st =
     (case id_backend st of
        Some b \<Rightarrow>
          (case be_Get be now key b of
             Inl err \<Rightarrow> (None, st)
           | Inr val \<Rightarrow>
               if val = [] then (None, st)
               else (case parse_entry cd val of
                   Inl err \<Rightarrow> (None, st)
                 | Inr e \<Rightarrow> (Some (ie_Resp e), st)))
      | None \<Rightarrow>
          (case id_cache st key of
             None \<Rightarrow> (None, st)
           | Some e \<Rightarrow>
               if time_sub now (ie_Timestamp e) > 1 * hour
               then (None, st\<lparr>id_cache := (id_cache st)(key := None)\<rparr>)
               else (Some (ie_Resp e), st)))"

definition idem_Set ::
  "'b backend_api \<Rightarrow> entry_codec \<Rightarrow> gotime \<Rightarrow> string \<Rightarrow> idem_response \<Rightarrow> 'b idem_store \<Rightarrow> 'b idem_store"
where
  "idem_Set be cd now key resp st =
     (let e = \<lparr>ie_Resp = resp, ie_Timestamp = now\<rparr> in
      case id_backend st of
        Some b \<Rightarrow> st\<lparr>id_backend := Some (snd (be_Set be now key (entry_json cd e) (24 * hour) b))\<rparr>
      | None \<Rightarrow> st\<lparr>id_cache := (id_cache st)(key \<mapsto> e)\<rparr>)"

definition redis_backend :: "'r redis \<Rightarrow> fault \<Rightarrow> fault \<Rightarrow> 'r backend_api" where
  "redis_backend rd net_set net_get = \<lparr>be_Set = rs_Set rd net_set, be_Get = rs_Get rd net_get\<rparr>"

text \<open>With a backend, a lookup reads the backend only and changes nothing.\<close>

lemma idem_Get_backend: "id_backend st = Some b \<Longrightarrow>
    fst (idem_Get be cd u key st) = fst (idem_Get be cd u key (idem_NewStore (Some b)))"
  by (simp add: idem_Get_def idem_NewStore_def split: sum.split)

lemma idem_Get_same: "id_backend st \<noteq> None \<Longrightarrow> snd (idem_Get be cd u key st) = st"
  by (auto simp: idem_Get_def split: sum.split)

lemma idem_Set_backend: "id_backend st = Some b \<Longrightarrow> id_backend (idem_Set be cd t key resp st) =
    Some (snd (be_Set be t key (entry_json cd \<lparr>ie_Resp = resp, ie_Timestamp = t\<rparr>) (24 * hour) b))"
  by (simp add: idem_Set_def)

section \<open>The contract\<close>

text \<open>\<open>ok resp t\<close> are the entries the store can keep, \<open>life\<close> is how long it keeps them.\<close>

locale response_cache =
  fixes put :: "gotime \<Rightarrow> string \<Rightarrow> idem_response \<Rightarrow> 's \<Rightarrow> 's" and found :: "gotime \<Rightarrow> string \<Rightarrow> 's \<Rightarrow> idem_response option"
    and ok :: "idem_response \<Rightarrow> gotime \<Rightarrow> bool" and life :: duration
  assumes found_put: "ok resp t \<Longrightarrow> t \<le> u \<Longrightarrow> u < t + life \<Longrightarrow> found u key (put t key resp s) = Some resp"
    and found_put_other: "t \<le> u \<Longrightarrow> q \<noteq> key \<Longrightarrow> found u q (put t key resp s) = found u q s"
begin

text \<open>Later writes under other keys do not disturb an entry.\<close>

lemma found_after_others:
  assumes "ok resp t" "\<forall>(x, q, r) \<in> set ws. t \<le> x \<and> x \<le> u \<and> q \<noteq> key" "t \<le> u" "u < t + life"
  shows "found u key (fold (\<lambda>(x, q, r). put x q r) ws (put t key resp s)) = Some resp"
  using assms(2)
proof (induction ws rule: rev_induct)
  case Nil
  then show ?case using found_put assms by simp
next
  case (snoc w ws)
  obtain x q r where w: "w = (x, q, r)" by (cases w)
  then show ?case using snoc found_put_other [of x u key q] by auto
qed

end

interpretation local_cache: response_cache
  "\<lambda>t key resp (st :: unit idem_store). idem_Set be cd t key resp (st\<lparr>id_backend := None\<rparr>)"
  "\<lambda>u key st. fst (idem_Get be cd u key (st\<lparr>id_backend := None\<rparr>))"
  "\<lambda>resp t. True" hour
proof
  fix t u :: gotime
  assume "t \<le> u" "u < t + hour"
  then have "\<not> time_sub u t > hour" by (simp add: time_sub_def int64_defs)
  then show "fst (idem_Get be cd u key ((idem_Set be cd t key resp (s\<lparr>id_backend := None\<rparr>))\<lparr>id_backend := None\<rparr>)) = Some resp" for key resp s
    by (simp add: idem_Get_def idem_Set_def Let_def)
qed (auto simp: idem_Get_def idem_Set_def Let_def split: option.split)

context redis_server
begin

lemma redis_response_cache:
  "response_cache (\<lambda>t key resp r. snd (be_Set (redis_backend rd Delivered Delivered) t key
        (entry_json cd \<lparr>ie_Resp = resp, ie_Timestamp = t\<rparr>) (24 * hour) r))
     (\<lambda>u key r. fst (idem_Get (redis_backend rd Delivered Delivered) cd u key (idem_NewStore (Some r))))
     (\<lambda>resp t. parse_entry cd (entry_json cd \<lparr>ie_Resp = resp, ie_Timestamp = t\<rparr>) =
         Inr \<lparr>ie_Resp = resp, ie_Timestamp = t\<rparr> \<and> entry_json cd \<lparr>ie_Resp = resp, ie_Timestamp = t\<rparr> \<noteq> []) (24 * hour)"
proof
  fix resp t u key r
  let ?v = "entry_json cd \<lparr>ie_Resp = resp, ie_Timestamp = t\<rparr>"
  have s: "stored rd t key ?v (expiry t (24 * hour)) r (rd_set rd t key ?v (24 * hour) r)"
    by (rule set_law) (simp add: valid_ttl_def)
  assume "t \<le> (u :: gotime)"
  {
    assume "parse_entry cd ?v = Inr \<lparr>ie_Resp = resp, ie_Timestamp = t\<rparr> \<and> ?v \<noteq> []" "u < t + 24 * hour"
    then show "fst (idem_Get (redis_backend rd Delivered Delivered) cd u key (idem_NewStore (Some
        (snd (be_Set (redis_backend rd Delivered Delivered) t key ?v (24 * hour) r))))) = Some resp"
      using s \<open>t \<le> u\<close> by (simp add: idem_Get_def idem_NewStore_def redis_backend_def rs_Get_def rs_Set_def stored_def
          expiry_def unexpired_def)
  }
  fix q
  assume "q \<noteq> key"
  then have "rd_get rd u q (rd_set rd t key ?v (24 * hour) r) = rd_get rd u q r"
    using s \<open>t \<le> u\<close> by (simp add: stored_def)
  then show "fst (idem_Get (redis_backend rd Delivered Delivered) cd u q (idem_NewStore (Some
      (snd (be_Set (redis_backend rd Delivered Delivered) t key ?v (24 * hour) r))))) =
     fst (idem_Get (redis_backend rd Delivered Delivered) cd u q (idem_NewStore (Some r)))"
    by (simp add: idem_Get_def idem_NewStore_def redis_backend_def rs_Get_def rs_Set_def split: option.split sum.split)
qed

end

end
