(* ===== verification/LeaderElection.thy ===== *)
theory LeaderElection
  imports RedisLocks MemoryStore
begin

text \<open>
  \<open>coordination/leader.go\<close>: the elector of a node. It asks for a fresh durable epoch, tries to take the
  lease of the leader key, renews it while it leads, and steps down when the lease is gone or three
  renewals in a row fail.

  The coordinator is a \<open>coord_api\<close>, the durable epochs are a function \<open>incr\<close> over the durable store; both
  can fail. The JSON text of the lock's metadata is the parameter \<open>mar\<close>. \<open>tick_env\<close> gives one round of
  the loop its readings of the clock, its request identifier, its network faults, and what other nodes
  do between the two halves of \<open>acquire\<close>. The callbacks are recorded in \<open>el_callbacks\<close>; \<open>onElected\<close> runs
  in a goroutine of its own. The leader's context is its epoch and whether it has been cancelled.
\<close>

section \<open>State\<close>

record lock_metadata =
  OwnerPod :: string
  lm_Epoch :: int
  ReqID :: string
  lm_CreatedAt :: gotime
  ExpiresAt :: gotime

record leader_context =
  fencing_epoch :: int
  cancelled :: bool

datatype callback = OnElected int | OnLost

record elector =
  el_nodeID :: string
  el_lockKey :: string
  el_ttl :: duration
  el_leaderCtx :: "leader_context option"
  el_isLeader :: bool
  el_currentValue :: string
  el_currentEpoch :: int
  el_hasCallbacks :: bool
  el_callbacks :: "callback list"
  el_stepDownTime :: gotime
  el_transitions :: int

record leader_state =
  ls_IsLeader :: bool
  ls_CurrentEpoch :: int
  ls_Transitions :: int
  ls_NodeID :: string

definition NewLeaderElector :: "string \<Rightarrow> duration \<Rightarrow> elector" where
  "NewLeaderElector nodeID ttl =
     \<lparr>el_nodeID = nodeID, el_lockKey = ''fluxforge:lock:leader'', el_ttl = ttl, el_leaderCtx = None,
      el_isLeader = False, el_currentValue = [], el_currentEpoch = 0, el_hasCallbacks = False,
      el_callbacks = [], el_stepDownTime = 0, el_transitions = 0\<rparr>"

definition SetCallbacks :: "elector \<Rightarrow> elector" where
  "SetCallbacks el = el\<lparr>el_hasCallbacks := True\<rparr>"

definition FencedContext :: "elector \<Rightarrow> leader_context option" where
  "FencedContext el = el_leaderCtx el"

definition GetEpochFromContext :: "leader_context option \<Rightarrow> int \<times> bool" where
  "GetEpochFromContext ctx = (case ctx of None \<Rightarrow> (0, False) | Some lc \<Rightarrow> (fencing_epoch lc, True))"

definition el_GetState :: "elector \<Rightarrow> leader_state" where
  "el_GetState el = \<lparr>ls_IsLeader = el_isLeader el, ls_CurrentEpoch = el_currentEpoch el,
     ls_Transitions = el_transitions el, ls_NodeID = el_nodeID el\<rparr>"

section \<open>Acquiring, renewing and releasing the lease\<close>

record ('c, 's) tick_env =
  te_epoch_net :: fault
  te_epoch_time :: gotime
  te_between :: "'c \<times> 's \<Rightarrow> 'c \<times> 's"
  te_reqid :: string
  te_created :: gotime
  te_now :: gotime
  te_net :: fault
  te_time :: gotime
  te_down :: gotime

type_synonym 's increment = "fault \<Rightarrow> gotime \<Rightarrow> string \<Rightarrow> 's \<Rightarrow> (go_error + int) \<times> 's"

text \<open>The first half of \<open>acquire\<close> keeps the epoch, the second takes the lease.\<close>

definition acquire_epoch :: "go_error + int \<Rightarrow> elector \<Rightarrow> elector" where
  "acquire_epoch res el = (case res of Inl e \<Rightarrow> el | Inr epoch \<Rightarrow> el\<lparr>el_currentEpoch := epoch\<rparr>)"

definition new_metadata :: "('c, 's) tick_env \<Rightarrow> int \<Rightarrow> elector \<Rightarrow> lock_metadata" where
  "new_metadata te epoch el =
     \<lparr>OwnerPod = el_nodeID el, lm_Epoch = epoch, ReqID = te_reqid te, lm_CreatedAt = te_created te,
      ExpiresAt = te_now te + el_ttl el\<rparr>"

definition acquire_lease ::
  "'c coord_api \<Rightarrow> (lock_metadata \<Rightarrow> string) \<Rightarrow> ('c, 's) tick_env \<Rightarrow> int \<Rightarrow> elector \<Rightarrow> 'c \<Rightarrow>
   (go_error + bool) \<times> elector \<times> 'c"
where
  "acquire_lease api mar te epoch el c =
     (let val = mar (new_metadata te epoch el) in
      case ca_Acquire api (te_net te) (te_time te) (el_lockKey el) val (el_ttl el) c of
        (Inl e, c') \<Rightarrow> (Inl e, el, c')
      | (Inr acquired, c') \<Rightarrow>
          (Inr acquired, if acquired then el\<lparr>el_currentValue := val\<rparr> else el, c'))"

definition acquire ::
  "'c coord_api \<Rightarrow> 's increment \<Rightarrow> (lock_metadata \<Rightarrow> string) \<Rightarrow> ('c, 's) tick_env \<Rightarrow> elector \<Rightarrow> 'c \<times> 's \<Rightarrow>
   (go_error + bool) \<times> elector \<times> 'c \<times> 's"
where
  "acquire api incr mar te el w =
     (case incr (te_epoch_net te) (te_epoch_time te) ''leader_election'' (snd w) of
        (Inl e, s') \<Rightarrow> (Inl e, el, fst w, s')
      | (Inr epoch, s') \<Rightarrow>
          (let (c1, s1) = te_between te (fst w, s');
               (res, el', c2) = acquire_lease api mar te epoch (acquire_epoch (Inr epoch) el) c1
           in (res, el', c2, s1)))"

definition renew :: "'c coord_api \<Rightarrow> ('c, 's) tick_env \<Rightarrow> elector \<Rightarrow> 'c \<Rightarrow> (go_error + bool) \<times> 'c" where
  "renew api te el c =
     (if el_currentValue el = [] then (Inr False, c)
      else ca_Renew api (te_net te) (te_time te) (el_lockKey el) (el_currentValue el) (el_ttl el) c)"

definition release :: "'c coord_api \<Rightarrow> fault \<Rightarrow> gotime \<Rightarrow> elector \<Rightarrow> 'c \<Rightarrow> 'c" where
  "release api net t el c =
     (if el_currentValue el = [] then c else snd (ca_Release api net t (el_lockKey el) (el_currentValue el) c))"

text \<open>\<open>Stop\<close> cancels a context the loop does not watch, and releases; so does the loop when its own
  context ends.\<close>

definition el_Stop :: "'c coord_api \<Rightarrow> fault \<Rightarrow> gotime \<Rightarrow> elector \<Rightarrow> 'c \<Rightarrow> 'c" where
  "el_Stop api net t el c = (if el_isLeader el then release api net t el c else c)"

section \<open>Leadership\<close>

definition becomeLeader :: "elector \<Rightarrow> elector" where
  "becomeLeader el =
     el\<lparr>el_isLeader := True, el_transitions := wrap64 (el_transitions el + 1),
        el_leaderCtx := Some \<lparr>fencing_epoch = el_currentEpoch el, cancelled = False\<rparr>,
        el_stepDownTime := 0,
        el_callbacks := el_callbacks el @ (if el_hasCallbacks el then [OnElected (el_currentEpoch el)] else [])\<rparr>"

definition stepDown :: "gotime \<Rightarrow> elector \<Rightarrow> elector" where
  "stepDown now el =
     (if \<not> el_isLeader el then el
      else el\<lparr>el_isLeader := False, el_transitions := wrap64 (el_transitions el + 1),
              el_stepDownTime := now,
              el_leaderCtx := map_option (\<lambda>lc. lc\<lparr>cancelled := True\<rparr>) (el_leaderCtx el),
              el_callbacks := el_callbacks el @ (if el_hasCallbacks el then [OnLost] else [])\<rparr>)"

section \<open>The loop\<close>

record loop_state =
  interval :: duration
  renewFailures :: int

definition maxRenewFailures :: int where "maxRenewFailures = 3"

definition loop_start :: "elector \<Rightarrow> loop_state" where
  "loop_start el = \<lparr>interval = go_div (el_ttl el) 3, renewFailures = 0\<rparr>"

definition backoff :: "elector \<Rightarrow> 'a + 'b \<Rightarrow> loop_state \<Rightarrow> loop_state" where
  "backoff el err lp =
     (case err of
        Inl _ \<Rightarrow> lp\<lparr>interval := (let i = wrap64 (interval lp * 2); m = wrap64 (10 * el_ttl el) in if m < i then m else i)\<rparr>
      | Inr _ \<Rightarrow> lp\<lparr>interval := go_div (el_ttl el) 3\<rparr>)"

text \<open>The timer case of the select statement.\<close>

definition renew_round :: "'c coord_api \<Rightarrow> ('c, 's) tick_env \<Rightarrow> elector \<Rightarrow> loop_state \<Rightarrow> 'c \<Rightarrow>
  (go_error + bool) \<times> elector \<times> loop_state \<times> 'c"
where
  "renew_round api te el lp c =
     (case renew api te el c of
        (Inr renewed, c') \<Rightarrow>
          (Inr renewed, if renewed then el else stepDown (te_down te) el, lp\<lparr>renewFailures := 0\<rparr>, c')
      | (Inl e, c') \<Rightarrow>
          (let n = renewFailures lp + 1 in
           if maxRenewFailures \<le> n
           then (Inl e, stepDown (te_down te) el, lp\<lparr>renewFailures := 0\<rparr>, c')
           else (Inl e, el, lp\<lparr>renewFailures := n\<rparr>, c')))"

definition acquire_round :: "'c coord_api \<Rightarrow> 's increment \<Rightarrow> (lock_metadata \<Rightarrow> string) \<Rightarrow> ('c, 's) tick_env \<Rightarrow>
  elector \<Rightarrow> loop_state \<Rightarrow> 'c \<times> 's \<Rightarrow> (go_error + bool) \<times> elector \<times> loop_state \<times> 'c \<times> 's"
where
  "acquire_round api incr mar te el lp w =
     (case acquire api incr mar te el w of
        (res, el', w') \<Rightarrow>
          if res = Inr True then (res, becomeLeader el', lp\<lparr>renewFailures := 0\<rparr>, w') else (res, el', lp, w'))"

definition tick :: "'c coord_api \<Rightarrow> 's increment \<Rightarrow> (lock_metadata \<Rightarrow> string) \<Rightarrow> ('c, 's) tick_env \<Rightarrow>
  elector \<times> loop_state \<times> 'c \<times> 's \<Rightarrow> elector \<times> loop_state \<times> 'c \<times> 's"
where
  "tick api incr mar te st =
     (case st of (el, lp, c, s) \<Rightarrow>
        if el_isLeader el
        then (case renew_round api te el lp c of (res, el', lp', c') \<Rightarrow> (el', backoff el res lp', c', s))
        else (case acquire_round api incr mar te el lp (c, s) of (res, el', lp', c', s') \<Rightarrow>
                (el', backoff el res lp', c', s')))"

text \<open>Rounds of the loop: the next one starts when the timer set at the end of this one fires.\<close>

fun rounds :: "'c coord_api \<Rightarrow> 's increment \<Rightarrow> (lock_metadata \<Rightarrow> string) \<Rightarrow> (nat \<Rightarrow> gotime \<Rightarrow> ('c, 's) tick_env) \<Rightarrow>
  nat \<Rightarrow> gotime \<times> elector \<times> loop_state \<times> 'c \<times> 's \<Rightarrow> gotime \<times> elector \<times> loop_state \<times> 'c \<times> 's"
where
  "rounds api incr mar env 0 (t, st) = (t, st)"
| "rounds api incr mar env (Suc n) (t, st) =
     (case rounds api incr mar env n (t, st) of (t', st') \<Rightarrow>
        (let st'' = tick api incr mar (env n t') st' in (t' + interval (fst (snd st'')), st'')))"

text \<open>The loop when its context is done.\<close>

definition loop_done :: "'c coord_api \<Rightarrow> fault \<Rightarrow> gotime \<Rightarrow> elector \<Rightarrow> 'c \<Rightarrow> 'c" where
  "loop_done api net t el c = (if el_isLeader el then release api net t el c else c)"

end
