(* ===== verification/Api.thy ===== *)
theory Api
  imports Idempotency Scheduler Reconciliation LeaderElection
begin

text \<open>
  \<open>api.go\<close>, \<open>utils.go\<close> and \<open>incident/capture.go\<close>: the HTTP handlers. Each one is a function from the request
  and the state of the process (\<open>api\<close>) to the response and the next state. \<open>api_env\<close> holds what one request
  gets from outside: the store's calls, the limiters' calls, the clock readings in the order the handler
  makes them, random bytes, and the JSON coding of bodies. A nil record is encoded by its own encoder, so
  the encoders take the records. The goroutines a handler starts are collected in \<open>ap_spawned\<close>; what they do
  is modelled in \<open>Reconciler\<close>. Metrics and log lines are left out.
\<close>

section \<open>The store as the API sees it\<close>

record 's full_store = "'s store_api" +
  st_UpsertAgent :: "string \<Rightarrow> agent \<Rightarrow> 's \<Rightarrow> go_error option \<times> 's"
  st_ListAgents :: "string \<Rightarrow> 's \<Rightarrow> go_error + agent list"
  st_UpdateAgentHeartbeat :: "string \<Rightarrow> string \<Rightarrow> gotime \<Rightarrow> 's \<Rightarrow> go_error option \<times> 's"
  st_UpsertState :: "string \<Rightarrow> desired_state \<Rightarrow> 's \<Rightarrow> go_error option \<times> desired_state \<times> 's"
  st_ListStates :: "string \<Rightarrow> 's \<Rightarrow> go_error + desired_state list"
  st_ListJobs :: "string \<Rightarrow> string \<Rightarrow> int \<Rightarrow> 's \<Rightarrow> go_error + job list"
  st_CountStatesByStatus :: "string \<Rightarrow> string \<Rightarrow> 's \<Rightarrow> go_error + nat"

text \<open>The memory store; \<open>ord\<close> gives the runtime's order of the keys of its three maps.\<close>

definition memory_full ::
  "(memory_store \<Rightarrow> string list) \<Rightarrow> (memory_store \<Rightarrow> string list) \<Rightarrow> (memory_store \<Rightarrow> string list) \<Rightarrow> memory_store full_store"
where
  "memory_full oa oj os = store_api.extend memory_api
     \<lparr>st_UpsertAgent = (\<lambda>t a s. (None, ms_UpsertAgent t a s)),
      st_ListAgents = (\<lambda>t s. Inr (ms_ListAgents (oa s) t s)),
      st_UpdateAgentHeartbeat = (\<lambda>t n now s. error_of (ms_UpdateAgentHeartbeat t n now s)),
      st_UpsertState = (\<lambda>t st s. (None, st\<lparr>ds_TenantID := t\<rparr>, ms_UpsertState t st s)),
      st_ListStates = (\<lambda>t s. Inr (ms_ListStates (os s) t s)),
      st_ListJobs = (\<lambda>t n limit s. Inr (ms_ListJobs (oj s) t n limit s)),
      st_CountStatesByStatus = (\<lambda>t status s. Inr (ms_CountStatesByStatus (os s) t status s))\<rparr>"

section \<open>Identifiers\<close>

text \<open>\<open>generateUUID\<close>: 16 random bytes with the version and variant bits set, in hexadecimal.\<close>

definition hex_digit :: "nat \<Rightarrow> char" where
  "hex_digit n = (''0123456789abcdef'' ! (n mod 16))"

definition hex_byte :: "8 word \<Rightarrow> string" where
  "hex_byte b = [hex_digit (unat b div 16), hex_digit (unat b mod 16)]"

definition hex :: "8 word list \<Rightarrow> string" where
  "hex bs = concat (map hex_byte bs)"

unbundle bit_operations_syntax

definition stamp_uuid :: "8 word list \<Rightarrow> 8 word list" where
  "stamp_uuid b = (let b = b[8 := ((b ! 8) AND 0x3f) OR 0x80] in b[6 := ((b ! 6) AND 0x0f) OR 0x40])"

text \<open>\<open>None\<close>: the system's random source failed.\<close>

definition generateUUID :: "8 word list option \<Rightarrow> string" where
  "generateUUID random =
     (case random of
        None \<Rightarrow> []
      | Some b \<Rightarrow>
          (let b = stamp_uuid b in
           hex (take 4 b) @ ''-'' @ hex (take 2 (drop 4 b)) @ ''-'' @ hex (take 2 (drop 6 b)) @ ''-'' @
           hex (take 2 (drop 8 b)) @ ''-'' @ hex (drop 10 b)))"

section \<open>Incident reports\<close>

record incident_report =
  ir_StateID :: string
  ir_DesiredState :: desired_state
  ir_Agent :: "agent option"
  ir_Events :: "reconcile_event list"
  ir_Jobs :: "job list"
  ir_CapturedAt :: gotime
  ir_Analysis :: string

definition CaptureIncident ::
  "'s full_store \<Rightarrow> gotime \<Rightarrow> timeline \<Rightarrow> string \<Rightarrow> string \<Rightarrow> 's \<Rightarrow> go_error + incident_report option"
where
  "CaptureIncident fs now evs tenantID stateID s =
     (case st_GetState fs tenantID stateID s of
        Inl err \<Rightarrow> Inl err
      | Inr None \<Rightarrow> Inr None
      | Inr (Some state) \<Rightarrow>
          (case st_GetAgent fs tenantID (ds_NodeID state) s of
             Inl err \<Rightarrow> Inl err
           | Inr agent \<Rightarrow>
               (case st_ListJobs fs tenantID (ds_NodeID state) 50 s of
                  Inl err \<Rightarrow> Inl err
                | Inr jobs \<Rightarrow>
                    Inr (Some \<lparr>ir_StateID = stateID, ir_DesiredState = state, ir_Agent = agent,
                      ir_Events = tl_GetEventsByStateID stateID evs,
                      ir_Jobs = filter (\<lambda>j. j_StateID j = stateID) jobs,
                      ir_CapturedAt = now, ir_Analysis = []\<rparr>))))"

section \<open>State and environment\<close>

datatype background = BgDispatch agent job | BgReconcile string string

record ('s, 'b, 'l) api =
  ap_store :: 's
  ap_scheduler :: "'l scheduler"
  ap_elector :: "elector option"
  ap_idempotency :: "'b idem_store"
  ap_heartbeatLimiter :: 'l
  ap_reconcileLimiter :: 'l
  ap_spawned :: "background list"

record job_result =
  jr_JobID :: string
  jr_Status :: string
  jr_Stdout :: string
  jr_Stderr :: string
  jr_ExitCode :: int

record api_json =
  dec_agent :: "string \<Rightarrow> go_error + agent"
  dec_job :: "string \<Rightarrow> go_error + job"
  dec_state :: "string \<Rightarrow> go_error + desired_state"
  dec_mode :: "string \<Rightarrow> go_error + string"
  dec_node :: "string \<Rightarrow> go_error + string"
  dec_job_result :: "string \<Rightarrow> go_error + job_result"
  enc_strings :: "(string \<times> string) list \<Rightarrow> string"
  enc_agents :: "agent list \<Rightarrow> string"
  enc_job :: "job \<Rightarrow> string"
  enc_jobs :: "job list \<Rightarrow> string"
  enc_state :: "desired_state \<Rightarrow> string"
  enc_states :: "desired_state list \<Rightarrow> string"
  enc_report :: "incident_report \<Rightarrow> string"

record ('s, 'b, 'l, 'r) api_env =
  ae_store :: "'s full_store"
  ae_rate :: "('l, 'r) rate_api"
  ae_json :: api_json
  ae_backend :: "'b backend_api"
  ae_entry :: entry_codec
  ae_now :: "nat \<Rightarrow> gotime"
  ae_submit :: submit_clock
  ae_random :: "8 word list option"
  ae_jitter :: int
  ae_lookup :: gotime
  ae_saved :: gotime

type_synonym ('s, 'b, 'l) api_handler = "('s, 'b, 'l) api handler"

definition NewAPI ::
  "('l, 'r) rate_api \<Rightarrow> 's \<Rightarrow> 'l scheduler \<Rightarrow> elector option \<Rightarrow> 'b idem_store \<Rightarrow> ('s, 'b, 'l) api"
where
  "NewAPI rate store sched elector idem =
     \<lparr>ap_store = store, ap_scheduler = sched, ap_elector = elector, ap_idempotency = idem,
      ap_heartbeatLimiter = NewLimiter rate (Fin 100) 200, ap_reconcileLimiter = NewLimiter rate (Fin 10) 20,
      ap_spawned = []\<rparr>"

definition spawn :: "background \<Rightarrow> ('s, 'b, 'l) api \<Rightarrow> ('s, 'b, 'l) api" where
  "spawn g st = st\<lparr>ap_spawned := ap_spawned st @ [g]\<rparr>"

text \<open>\<open>json.NewEncoder(w).Encode\<close> ends the text with a line break.\<close>

definition encoded :: "int \<Rightarrow> string \<Rightarrow> headers \<Rightarrow> response" where
  "encoded code json h = reply code (json @ [CHR 0x0A]) h"

definition json_reply :: "int \<Rightarrow> string \<Rightarrow> headers \<Rightarrow> response" where
  "json_reply code json h = encoded code json (header_set ''Content-Type'' ''application/json'' h)"

abbreviation refuse :: "string \<Rightarrow> int \<Rightarrow> headers \<Rightarrow> 's \<Rightarrow> response option \<times> 's" where
  "refuse msg code h st \<equiv> (Some (http_Error msg code h), st)"

section \<open>Idempotency\<close>

text \<open>What a response already given is replayed as; a status outside 100..999 panics in \<open>net/http\<close>.\<close>

definition replay_headers :: "headers \<Rightarrow> headers \<Rightarrow> headers" where
  "replay_headers resp h k =
     (case resp k of
        None \<Rightarrow> h k
      | Some vs \<Rightarrow> if vs = [] then h k else Some (map_read [] h k @ vs))"

definition replayed :: "idem_response \<Rightarrow> headers \<Rightarrow> response option" where
  "replayed resp h =
     (if ir_StatusCode resp < 100 \<or> 999 < ir_StatusCode resp then None
      else Some (reply (ir_StatusCode resp) (ir_Body resp) (replay_headers (ir_Headers resp) h)))"

definition recorded :: "response \<Rightarrow> idem_response" where
  "recorded r = \<lparr>ir_StatusCode = rp_Code r, ir_Body = rp_Body r, ir_Headers = rp_Header r\<rparr>"

definition withIdempotency ::
  "('s, 'b, 'l, 'r) api_env \<Rightarrow> ('s, 'b, 'l) api_handler \<Rightarrow> ('s, 'b, 'l) api_handler"
where
  "withIdempotency env inner rq h st =
     (let key = rq_Header rq ''X-Flux-Idempotency-Key'' in
      if key = [] then inner rq h st
      else
        (case idem_Get (ae_backend env) (ae_entry env) (ae_lookup env) key (ap_idempotency st) of
           (Some resp, idem) \<Rightarrow> (replayed resp h, st\<lparr>ap_idempotency := idem\<rparr>)
         | (None, idem) \<Rightarrow>
             (case inner rq h (st\<lparr>ap_idempotency := idem\<rparr>) of
                (None, st') \<Rightarrow> (None, st')
              | (Some r, st') \<Rightarrow>
                  (Some r, st'\<lparr>ap_idempotency :=
                     idem_Set (ae_backend env) (ae_entry env) (ae_saved env) key (recorded r) (ap_idempotency st')\<rparr>))))"

section \<open>Agents\<close>

text \<open>\<open>retryAfter/1000\<close> for a jitter of \<open>rand.Intn(1000)\<close>.\<close>

definition writeRateLimitError :: "('s, 'b, 'l, 'r) api_env \<Rightarrow> headers \<Rightarrow> response" where
  "writeRateLimitError env h =
     http_Error ''Too Many Requests (Storm Protection Active)'' StatusTooManyRequests
       (header_set ''Retry-After'' (itoa (go_div (1000 + ae_jitter env) 1000)) h)"

text \<open>The agent that is stored for the one in the request.\<close>

definition registered_agent :: "gotime \<Rightarrow> string \<Rightarrow> agent \<Rightarrow> agent" where
  "registered_agent now tenantID a =
     (let a1 = (if a_Status a = [] then a\<lparr>a_Status := ''active''\<rparr> else a)
      in a1\<lparr>a_LastHeartbeat := now, a_TenantID := tenantID\<rparr>)"

definition handleRegister :: "('s, 'b, 'l, 'r) api_env \<Rightarrow> ('s, 'b, 'l) api_handler" where
  "handleRegister env rq h st =
     (if rq_Method rq \<noteq> ''POST'' then refuse ''Method not allowed'' StatusMethodNotAllowed h st
      else case dec_agent (ae_json env) (rq_Body rq) of
        Inl e \<Rightarrow> refuse ''Invalid request body'' StatusBadRequest h st
      | Inr a \<Rightarrow>
          if a_NodeID a = [] then refuse ''NodeID is required'' StatusBadRequest h st
          else (case GetTenantFromContext (rq_Context rq) of
             Inl e \<Rightarrow> refuse ''Unauthorized'' StatusUnauthorized h st
           | Inr tenantID \<Rightarrow>
               (let a' = registered_agent (ae_now env 0) tenantID a in
                case st_UpsertAgent (ae_store env) tenantID a' (ap_store st) of
                  (Some e, s') \<Rightarrow> refuse ''Internal Server Error'' StatusInternalServerError h (st\<lparr>ap_store := s'\<rparr>)
                | (None, s') \<Rightarrow>
                    (Some (encoded StatusOK (enc_strings (ae_json env) [(''status'', ''registered'')]) h),
                     st\<lparr>ap_store := s',
                        ap_scheduler := UpdateNodeHealth (ae_rate env) (ae_now env 1) (a_NodeID a') ''registration'' (Fin 1)
                          (a_Tier a') (ap_scheduler st)\<rparr>))))"

definition handleHeartbeat :: "('s, 'b, 'l, 'r) api_env \<Rightarrow> ('s, 'b, 'l) api_handler" where
  "handleHeartbeat env rq h st =
     (let (ok, l) = Limiter_Allow (ae_rate env) (ae_now env 0) (ap_heartbeatLimiter st);
          st = st\<lparr>ap_heartbeatLimiter := l\<rparr>
      in if \<not> ok then (Some (writeRateLimitError env h), st)
      else case dec_node (ae_json env) (rq_Body rq) of
        Inl e \<Rightarrow> refuse ''Invalid request body'' StatusBadRequest h st
      | Inr nodeID \<Rightarrow>
          if nodeID = [] then refuse ''NodeID is required'' StatusBadRequest h st
          else (case GetTenantFromContext (rq_Context rq) of
             Inl e \<Rightarrow> refuse ''Unauthorized'' StatusUnauthorized h st
           | Inr tenantID \<Rightarrow>
               (case st_UpdateAgentHeartbeat (ae_store env) tenantID nodeID (ae_now env 1) (ap_store st) of
                  (Some e, s') \<Rightarrow> refuse ''Internal Server Error'' StatusInternalServerError h (st\<lparr>ap_store := s'\<rparr>)
                | (None, s') \<Rightarrow>
                    (Some (encoded StatusOK (enc_strings (ae_json env) [(''status'', ''ok'')]) h), st\<lparr>ap_store := s'\<rparr>))))"

definition handleListAgents :: "('s, 'b, 'l, 'r) api_env \<Rightarrow> ('s, 'b, 'l) api_handler" where
  "handleListAgents env rq h st =
     (if rq_Method rq \<noteq> ''GET'' then refuse ''Method not allowed'' StatusMethodNotAllowed h st
      else case GetTenantFromContext (rq_Context rq) of
        Inl e \<Rightarrow> refuse ''Unauthorized'' StatusUnauthorized h st
      | Inr tenantID \<Rightarrow>
          (case st_ListAgents (ae_store env) tenantID (ap_store st) of
             Inl e \<Rightarrow> refuse ''Internal Server Error'' StatusInternalServerError h st
           | Inr agents \<Rightarrow> (Some (json_reply StatusOK (enc_agents (ae_json env) agents) h), st)))"

text \<open>The kill switch.\<close>

definition handleSetAdmissionMode :: "('s, 'b, 'l, 'r) api_env \<Rightarrow> ('s, 'b, 'l) api_handler" where
  "handleSetAdmissionMode env rq h st =
     (if rq_Method rq \<noteq> ''POST'' then refuse ''Method not allowed'' StatusMethodNotAllowed h st
      else case dec_mode (ae_json env) (rq_Body rq) of
        Inl e \<Rightarrow> refuse ''Invalid request body'' StatusBadRequest h st
      | Inr m \<Rightarrow>
          (case (if m = ''normal'' then Some AdmissionNormal
                 else if m = ''drain'' then Some AdmissionDrain
                 else if m = ''freeze'' then Some AdmissionFreeze else None) of
             None \<Rightarrow> refuse ''Invalid mode. Use: normal, drain, freeze'' StatusBadRequest h st
           | Some mode \<Rightarrow>
               (Some (encoded StatusOK (enc_strings (ae_json env) [(''mode'', m), (''status'', ''updated'')]) h),
                st\<lparr>ap_scheduler := SetAdmissionMode mode (ap_scheduler st)\<rparr>)))"

section \<open>Jobs\<close>

definition submitted_job :: "gotime \<Rightarrow> string \<Rightarrow> string \<Rightarrow> job \<Rightarrow> job" where
  "submitted_job now uuid tenantID j =
     j\<lparr>j_TenantID := tenantID, j_JobID := uuid, j_Status := ''queued'', j_CreatedAt := now\<rparr>"

definition handleSubmitJob :: "('s, 'b, 'l, 'r) api_env \<Rightarrow> ('s, 'b, 'l) api_handler" where
  "handleSubmitJob env rq h st =
     (if rq_Method rq \<noteq> ''POST'' then refuse ''Method not allowed'' StatusMethodNotAllowed h st
      else case dec_job (ae_json env) (rq_Body rq) of
        Inl e \<Rightarrow> refuse ''Invalid request body'' StatusBadRequest h st
      | Inr j \<Rightarrow>
          if j_NodeID j = [] \<or> j_Command j = [] then refuse ''node_id and command are required'' StatusBadRequest h st
          else (case GetTenantFromContext (rq_Context rq) of
             Inl e \<Rightarrow> refuse ''Unauthorized'' StatusUnauthorized h st
           | Inr tenantID \<Rightarrow>
               (case st_GetAgent (ae_store env) tenantID (j_NodeID j) (ap_store st) of
                  Inl e \<Rightarrow> refuse ''Internal Server Error checking agent'' StatusInternalServerError h st
                | Inr None \<Rightarrow> refuse ''Agent not found'' StatusNotFound h st
                | Inr (Some a) \<Rightarrow>
                    (let j' = submitted_job (ae_now env 0) (generateUUID (ae_random env)) tenantID j in
                     case st_CreateJob (ae_store env) tenantID j' (ap_store st) of
                       (Some e, s') \<Rightarrow> refuse ''Failed to create job'' StatusInternalServerError h (st\<lparr>ap_store := s'\<rparr>)
                     | (None, s') \<Rightarrow>
                         (Some (json_reply StatusAccepted (enc_job (ae_json env) j') h),
                          spawn (BgDispatch a j') (st\<lparr>ap_store := s'\<rparr>))))))"

definition handleGetJob :: "('s, 'b, 'l, 'r) api_env \<Rightarrow> ('s, 'b, 'l) api_handler" where
  "handleGetJob env rq h st =
     (if rq_Method rq \<noteq> ''GET'' then refuse ''Method not allowed'' StatusMethodNotAllowed h st
      else let pathParts = split_on (CHR ''/'') (rq_Path rq) in
        if length pathParts < 3 then refuse ''Invalid job ID'' StatusBadRequest h st
        else (case GetTenantFromContext (rq_Context rq) of
           Inl e \<Rightarrow> refuse ''Unauthorized'' StatusUnauthorized h st
         | Inr tenantID \<Rightarrow>
             (case st_GetJob (ae_store env) tenantID (pathParts ! 2) (ap_store st) of
                Inl e \<Rightarrow> refuse ''Internal Server Error'' StatusInternalServerError h st
              | Inr None \<Rightarrow> refuse ''Job not found'' StatusNotFound h st
              | Inr (Some j) \<Rightarrow> (Some (json_reply StatusOK (enc_job (ae_json env) j) h), st))))"

definition handleListJobs :: "('s, 'b, 'l, 'r) api_env \<Rightarrow> ('s, 'b, 'l) api_handler" where
  "handleListJobs env rq h st =
     (if rq_Method rq \<noteq> ''GET'' then refuse ''Method not allowed'' StatusMethodNotAllowed h st
      else case GetTenantFromContext (rq_Context rq) of
        Inl e \<Rightarrow> refuse ''Unauthorized'' StatusUnauthorized h st
      | Inr tenantID \<Rightarrow>
          (case st_ListJobs (ae_store env) tenantID (rq_Query rq ''node_id'') 50 (ap_store st) of
             Inl e \<Rightarrow> refuse ''Internal Server Error'' StatusInternalServerError h st
           | Inr jobs \<Rightarrow> (Some (json_reply StatusOK (enc_jobs (ae_json env) jobs) h), st)))"

definition handleJobResult :: "('s, 'b, 'l, 'r) api_env \<Rightarrow> ('s, 'b, 'l) api_handler" where
  "handleJobResult env rq h st =
     (if rq_Method rq \<noteq> ''POST'' then refuse ''Method not allowed'' StatusMethodNotAllowed h st
      else case dec_job_result (ae_json env) (rq_Body rq) of
        Inl e \<Rightarrow> refuse ''Invalid request body'' StatusBadRequest h st
      | Inr result \<Rightarrow>
          (case GetTenantFromContext (rq_Context rq) of
             Inl e \<Rightarrow> refuse ''Unauthorized'' StatusUnauthorized h st
           | Inr tenantID \<Rightarrow>
               (case st_UpdateJobStatus (ae_store env) (ae_now env 0) tenantID (jr_JobID result) (jr_Status result)
                    (jr_ExitCode result) (jr_Stdout result) (jr_Stderr result) (ap_store st) of
                  (Some e, s') \<Rightarrow> refuse ''Internal Server Error'' StatusInternalServerError h (st\<lparr>ap_store := s'\<rparr>)
                | (None, s') \<Rightarrow> (Some (reply StatusOK [] h), st\<lparr>ap_store := s'\<rparr>))))"

section \<open>Desired states\<close>

definition created_state :: "gotime \<Rightarrow> string \<Rightarrow> string \<Rightarrow> desired_state \<Rightarrow> desired_state" where
  "created_state now uuid tenantID ds =
     (let ds1 = (if ds_StateID ds = [] then ds\<lparr>ds_StateID := uuid\<rparr> else ds)
      in ds1\<lparr>ds_CreatedAt := now, ds_Status := ''pending'', ds_TenantID := tenantID\<rparr>)"

definition handleCreateState :: "('s, 'b, 'l, 'r) api_env \<Rightarrow> ('s, 'b, 'l) api_handler" where
  "handleCreateState env rq h st =
     (if rq_Method rq \<noteq> ''POST'' then refuse ''Method not allowed'' StatusMethodNotAllowed h st
      else case dec_state (ae_json env) (rq_Body rq) of
        Inl e \<Rightarrow> refuse ''Invalid request body'' StatusBadRequest h st
      | Inr ds \<Rightarrow>
          if ds_NodeID ds = [] then refuse ''node_id is required'' StatusBadRequest h st
          else (case GetTenantFromContext (rq_Context rq) of
             Inl e \<Rightarrow> refuse ''Unauthorized'' StatusUnauthorized h st
           | Inr tenantID \<Rightarrow>
               (case st_UpsertState (ae_store env) tenantID
                    (created_state (ae_now env 0) (generateUUID (ae_random env)) tenantID ds) (ap_store st) of
                  (Some e, _, s') \<Rightarrow> refuse ''Internal Server Error'' StatusInternalServerError h (st\<lparr>ap_store := s'\<rparr>)
                | (None, ds', s') \<Rightarrow>
                    (Some (json_reply StatusCreated (enc_state (ae_json env) ds') h),
                     spawn (BgReconcile tenantID (ds_StateID ds')) (st\<lparr>ap_store := s'\<rparr>)))))"

definition handleGetState :: "('s, 'b, 'l, 'r) api_env \<Rightarrow> ('s, 'b, 'l) api_handler" where
  "handleGetState env rq h st =
     (let pathParts = split_on (CHR ''/'') (rq_Path rq) in
      if length pathParts < 3 then refuse ''Invalid state ID'' StatusBadRequest h st
      else (case GetTenantFromContext (rq_Context rq) of
         Inl e \<Rightarrow> refuse ''Unauthorized'' StatusUnauthorized h st
       | Inr tenantID \<Rightarrow>
           (case st_GetState (ae_store env) tenantID (pathParts ! 2) (ap_store st) of
              Inl e \<Rightarrow> refuse ''Internal Server Error'' StatusInternalServerError h st
            | Inr None \<Rightarrow> refuse ''State not found'' StatusNotFound h st
            | Inr (Some ds) \<Rightarrow> (Some (json_reply StatusOK (enc_state (ae_json env) ds) h), st))))"

definition handleListStates :: "('s, 'b, 'l, 'r) api_env \<Rightarrow> ('s, 'b, 'l) api_handler" where
  "handleListStates env rq h st =
     (if rq_Method rq \<noteq> ''GET'' then refuse ''Method not allowed'' StatusMethodNotAllowed h st
      else case GetTenantFromContext (rq_Context rq) of
        Inl e \<Rightarrow> refuse ''Unauthorized'' StatusUnauthorized h st
      | Inr tenantID \<Rightarrow>
          (case st_ListStates (ae_store env) tenantID (ap_store st) of
             Inl e \<Rightarrow> refuse ''Internal Server Error'' StatusInternalServerError h st
           | Inr states \<Rightarrow> (Some (json_reply StatusOK (enc_states (ae_json env) states) h), st)))"

definition reconcile_task :: "gotime \<Rightarrow> string \<Rightarrow> string \<Rightarrow> string \<Rightarrow> string \<Rightarrow> task" where
  "reconcile_task now uuid nodeID tenantID stateID =
     \<lparr>t_ReqID = uuid, t_NodeID = nodeID, t_TenantID = tenantID, t_Priority = 5, t_Deadline = now + 1 * minute,
      t_Attempt = 0, t_Cost = \<lparr>CPUSeconds = Fin 0, IOOps = 0, NetMB = Fin 0\<rparr>, t_FailureDomain = [],
      t_StateID = stateID, t_TraceContext = Map.empty, t_SubmitTime = 0, t_EnqueuedAt = 0\<rparr>"

text \<open>\<open>Submit\<close>'s division by zero is a panic of the handler.\<close>

definition handleReconcileState :: "('s, 'b, 'l, 'r) api_env \<Rightarrow> ('s, 'b, 'l) api_handler" where
  "handleReconcileState env rq h st =
     (let pathParts = split_on (CHR ''/'') (rq_Path rq) in
      if length pathParts < 4 then refuse ''Invalid state ID'' StatusBadRequest h st
      else let stateID = pathParts ! 2;
               (ok, l) = Limiter_Allow (ae_rate env) (ae_now env 0) (ap_reconcileLimiter st);
               st = st\<lparr>ap_reconcileLimiter := l\<rparr>
        in if \<not> ok then (Some (writeRateLimitError env h), st)
        else (case GetTenantFromContext (rq_Context rq) of
           Inl e \<Rightarrow> refuse ''Unauthorized'' StatusUnauthorized h st
         | Inr tenantID \<Rightarrow>
             (case st_GetState (ae_store env) tenantID stateID (ap_store st) of
                Inl e \<Rightarrow> refuse ''Internal Server Error'' StatusInternalServerError h st
              | Inr None \<Rightarrow> refuse ''State not found'' StatusNotFound h st
              | Inr (Some ds) \<Rightarrow>
                  (let t = reconcile_task (ae_now env 1) (generateUUID (ae_random env)) (ds_NodeID ds) tenantID stateID in
                   case Submit (ae_submit env) t (ap_scheduler st) of
                     (Inl DivideByZero, sched) \<Rightarrow> (None, st\<lparr>ap_scheduler := sched\<rparr>)
                   | (Inl e, sched) \<Rightarrow>
                       refuse ''Service Overloaded'' StatusServiceUnavailable h (st\<lparr>ap_scheduler := sched\<rparr>)
                   | (Inr _, sched) \<Rightarrow>
                       (Some (encoded StatusAccepted (enc_strings (ae_json env)
                          [(''status'', ''reconciliation_queued''), (''task_id'', t_ReqID t)]) h),
                        st\<lparr>ap_scheduler := sched\<rparr>)))))"

section \<open>Incidents\<close>

definition handleCaptureIncident :: "('s, 'b, 'l, 'r) api_env \<Rightarrow> ('s, 'b, 'l) api_handler" where
  "handleCaptureIncident env rq h st =
     (if rq_Method rq \<noteq> ''GET'' then refuse ''Method not allowed'' StatusMethodNotAllowed h st
      else let stateID = rq_Query rq ''state_id'' in
        if stateID = [] then refuse ''state_id is required'' StatusBadRequest h st
        else (case GetTenantFromContext (rq_Context rq) of
           Inl e \<Rightarrow> refuse ''Unauthorized'' StatusUnauthorized h st
         | Inr tenantID \<Rightarrow>
             (case CaptureIncident (ae_store env) (ae_now env 0) (events (ap_scheduler st)) tenantID stateID (ap_store st) of
                Inl e \<Rightarrow> refuse ''Internal Server Error'' StatusInternalServerError h st
              | Inr None \<Rightarrow> refuse ''State not found'' StatusNotFound h st
              | Inr (Some report) \<Rightarrow>
                  (Some (encoded StatusOK (enc_report (ae_json env) report)
                     (header_set ''Content-Disposition'' (''attachment; filename=incident-'' @ stateID @ ''.json'')
                       (header_set ''Content-Type'' ''application/json'' h))), st))))"

end
