(* ===== verification/Dashboard.thy ===== *)
theory Dashboard
  imports Api
begin

text \<open>
  \<open>dashboard_service.go\<close>, \<open>api_dashboard.go\<close>, \<open>api_clusters.go\<close> and \<open>api_incidents.go\<close>: the read-only views
  of the API. The encoders of their records and the environment variables are in \<open>dash_env\<close>. The capture of
  an incident runs in a goroutine that the handler gives five seconds; \<open>de_late\<close> says it took longer.
\<close>

section \<open>Dashboard\<close>

record dashboard_metrics =
  dm_QueueDepth :: int
  dm_ActiveTasks :: int
  dm_MaxConcurrency :: int
  dm_WorkerSaturation :: f64
  dm_CircuitBreakerState :: string
  dm_AdmissionMode :: string
  dm_RuntimeMode :: string
  dm_IsLeader :: bool
  dm_CurrentEpoch :: int
  dm_LeaderTransitions :: int
  dm_NodeID :: string
  dm_PendingStates :: nat
  dm_DriftedStates :: nat
  dm_ActiveAgents :: nat
  dm_ClusterID :: string
  dm_ClusterRole :: string
  dm_Region :: string
  dm_Timestamp :: int

definition getClusterRole :: "bool \<Rightarrow> string" where
  "getClusterRole isLeader = (if isLeader then ''leader'' else ''follower'')"

definition leader_state_of :: "elector option \<Rightarrow> leader_state" where
  "leader_state_of el =
     (case el of
        None \<Rightarrow> \<lparr>ls_IsLeader = False, ls_CurrentEpoch = 0, ls_Transitions = 0, ls_NodeID = []\<rparr>
      | Some l \<Rightarrow> el_GetState l)"

definition GetDashboardMetrics ::
  "'s full_store \<Rightarrow> gotime \<Rightarrow> 'l scheduler \<Rightarrow> elector option \<Rightarrow> string \<Rightarrow> 's \<Rightarrow> go_error + dashboard_metrics"
where
  "GetDashboardMetrics fs now sched elector tenantID s =
     (let schedMetrics = GetMetrics sched; leaderState = leader_state_of elector in
      case st_CountStatesByStatus fs tenantID ''pending'' s of
        Inl err \<Rightarrow> Inl err
      | Inr pending \<Rightarrow>
          (case st_CountStatesByStatus fs tenantID ''drifted'' s of
             Inl err \<Rightarrow> Inl err
           | Inr drifted \<Rightarrow>
               (case st_ListAgents fs tenantID s of
                  Inl err \<Rightarrow> Inl err
                | Inr agents \<Rightarrow>
                    Inr \<lparr>dm_QueueDepth = QueueDepth schedMetrics, dm_ActiveTasks = ActiveTasks schedMetrics,
                      dm_MaxConcurrency = m_MaxConcurrency schedMetrics,
                      dm_WorkerSaturation = WorkerSaturation schedMetrics,
                      dm_CircuitBreakerState = CircuitBreakerState schedMetrics,
                      dm_AdmissionMode = m_AdmissionMode schedMetrics, dm_RuntimeMode = RuntimeMode schedMetrics,
                      dm_IsLeader = ls_IsLeader leaderState, dm_CurrentEpoch = ls_CurrentEpoch leaderState,
                      dm_LeaderTransitions = ls_Transitions leaderState, dm_NodeID = ls_NodeID leaderState,
                      dm_PendingStates = pending, dm_DriftedStates = drifted, dm_ActiveAgents = length agents,
                      dm_ClusterID = ''cluster-primary'', dm_ClusterRole = getClusterRole (ls_IsLeader leaderState),
                      dm_Region = ''us-east-1'', dm_Timestamp = to_unix now\<rparr>)))"

section \<open>Clusters\<close>

record cluster_info =
  ci_ClusterID :: string
  ci_Region :: string
  ci_Role :: string
  ci_IsLeader :: bool
  ci_AgentCount :: nat
  ci_HealthScore :: f64
  ci_Endpoint :: string

definition getEnvOrDefault :: "(string \<Rightarrow> string) \<Rightarrow> string \<Rightarrow> string \<Rightarrow> string" where
  "getEnvOrDefault getenv key defaultValue = (if getenv key \<noteq> [] then getenv key else defaultValue)"

text \<open>The error of the listing is dropped, and with it the agents.\<close>

definition cluster_list ::
  "'s full_store \<Rightarrow> (string \<Rightarrow> string) \<Rightarrow> elector option \<Rightarrow> 's \<Rightarrow> cluster_info list"
where
  "cluster_list fs getenv elector s =
     (let leader = ls_IsLeader (leader_state_of elector);
          agents = (case st_ListAgents fs [] s of Inl _ \<Rightarrow> [] | Inr as \<Rightarrow> as)
      in [\<lparr>ci_ClusterID = getEnvOrDefault getenv ''CLUSTER_ID'' ''cluster-primary'',
           ci_Region = getEnvOrDefault getenv ''REGION'' ''us-east-1'',
           ci_Role = (if leader then ''leader'' else ''follower''), ci_IsLeader = leader,
           ci_AgentCount = length agents, ci_HealthScore = round64 (95 / 100),
           ci_Endpoint = ''http://localhost:8080''\<rparr>])"

section \<open>Incident snapshots\<close>

record scheduler_view =
  sv_QueueDepth :: int
  sv_ActiveTasks :: int
  sv_WorkerSaturation :: f64
  sv_CircuitBreakerState :: string
  sv_RuntimeMode :: string

record leader_view =
  lv_IsLeader :: bool
  lv_CurrentEpoch :: int
  lv_NodeID :: string

record incident_snapshot =
  is_IncidentID :: string
  is_StateID :: string
  is_NodeID :: string
  is_TenantID :: string
  is_FailureReason :: string
  is_Timestamp :: int
  is_Scheduler :: scheduler_view
  is_Leader :: leader_view
  is_Timeline :: "reconcile_event list"

record replay_event =
  re_timestamp :: int
  re_event :: string
  re_details :: string

text \<open>\<open>now1\<close> and \<open>now2\<close> are the two clock readings at the end.\<close>

definition captureIncidentAsync ::
  "gotime \<Rightarrow> gotime \<Rightarrow> 'l scheduler \<Rightarrow> elector option \<Rightarrow> string \<Rightarrow> incident_snapshot"
where
  "captureIncidentAsync now1 now2 sched elector stateID =
     (let m = GetMetrics sched; ls = leader_state_of elector in
      \<lparr>is_IncidentID = ''incident-'' @ itoa (to_unix now1), is_StateID = stateID, is_NodeID = [], is_TenantID = [],
       is_FailureReason = ''Captured via API'', is_Timestamp = to_unix now2,
       is_Scheduler = \<lparr>sv_QueueDepth = QueueDepth m, sv_ActiveTasks = ActiveTasks m,
         sv_WorkerSaturation = WorkerSaturation m, sv_CircuitBreakerState = CircuitBreakerState m,
         sv_RuntimeMode = RuntimeMode m\<rparr>,
       is_Leader = \<lparr>lv_IsLeader = ls_IsLeader ls, lv_CurrentEpoch = ls_CurrentEpoch ls, lv_NodeID = ls_NodeID ls\<rparr>,
       is_Timeline = tl_GetAllEvents (events sched)\<rparr>)"

definition replay_timeline :: "(nat \<Rightarrow> gotime) \<Rightarrow> replay_event list" where
  "replay_timeline now =
     [\<lparr>re_timestamp = to_unix (now 0 - 5 * minute), re_event = ''State submitted'', re_details = ''Desired state created''\<rparr>,
      \<lparr>re_timestamp = to_unix (now 1 - 4 * minute), re_event = ''Queued for reconciliation'',
        re_details = ''Priority: 5, Queue depth: 42''\<rparr>,
      \<lparr>re_timestamp = to_unix (now 2 - 3 * minute), re_event = ''Reconciliation started'', re_details = ''Worker assigned''\<rparr>,
      \<lparr>re_timestamp = to_unix (now 3 - 2 * minute), re_event = ''Reconciliation failed'', re_details = ''Agent timeout''\<rparr>]"

section \<open>Handlers\<close>

record dash_env =
  de_getenv :: "string \<Rightarrow> string"
  de_late :: bool
  enc_metrics :: "dashboard_metrics \<Rightarrow> string"
  enc_clusters :: "cluster_info list \<Rightarrow> string"
  enc_snapshots :: "incident_snapshot list \<Rightarrow> string"
  enc_snapshot :: "incident_snapshot \<Rightarrow> string"
  enc_replay :: "string \<Rightarrow> string \<Rightarrow> replay_event list \<Rightarrow> string"

definition open_json :: "string \<Rightarrow> headers \<Rightarrow> response" where
  "open_json json h = encoded StatusOK json (header_set ''Access-Control-Allow-Origin'' ''*''
     (header_set ''Content-Type'' ''application/json'' h))"

definition handleGetDashboard ::
  "('s, 'b, 'l, 'r) api_env \<Rightarrow> dash_env \<Rightarrow> ('s, 'b, 'l) api_handler" where
  "handleGetDashboard env de rq h st =
     (if rq_Method rq \<noteq> ''GET'' then refuse ''Method not allowed'' StatusMethodNotAllowed h st
      else case GetTenantFromContext (rq_Context rq) of
        Inl e \<Rightarrow> refuse ''Unauthorized'' StatusUnauthorized h st
      | Inr tenantID \<Rightarrow>
          (case GetDashboardMetrics (ae_store env) (ae_now env 0) (ap_scheduler st) (ap_elector st) tenantID (ap_store st) of
             Inl e \<Rightarrow> refuse ''Failed to fetch metrics'' StatusInternalServerError h st
           | Inr m \<Rightarrow> (Some (open_json (enc_metrics de m) h), st)))"

definition handleGetClusters ::
  "('s, 'b, 'l, 'r) api_env \<Rightarrow> dash_env \<Rightarrow> ('s, 'b, 'l) api_handler" where
  "handleGetClusters env de rq h st =
     (if rq_Method rq \<noteq> ''GET'' then refuse ''Method not allowed'' StatusMethodNotAllowed h st
      else (Some (open_json (enc_clusters de
          (cluster_list (ae_store env) (de_getenv de) (ap_elector st) (ap_store st))) h), st))"

definition handleListIncidents :: "dash_env \<Rightarrow> ('s, 'b, 'l) api_handler" where
  "handleListIncidents de rq h st =
     (if rq_Method rq \<noteq> ''GET'' then refuse ''Method not allowed'' StatusMethodNotAllowed h st
      else (Some (open_json (enc_snapshots de []) h), st))"

definition handleReplayIncident ::
  "('s, 'b, 'l, 'r) api_env \<Rightarrow> dash_env \<Rightarrow> ('s, 'b, 'l) api_handler" where
  "handleReplayIncident env de rq h st =
     (if rq_Method rq \<noteq> ''POST'' then refuse ''Method not allowed'' StatusMethodNotAllowed h st
      else let pathParts = split_on (CHR ''/'') (rq_Path rq) in
        if length pathParts < 5 then refuse ''Invalid incident ID'' StatusBadRequest h st
        else (Some (open_json (enc_replay de (pathParts ! 4) ''replay_complete'' (replay_timeline (ae_now env))) h), st))"

definition handleCaptureIncidentSnapshot ::
  "('s, 'b, 'l, 'r) api_env \<Rightarrow> dash_env \<Rightarrow> ('s, 'b, 'l) api_handler" where
  "handleCaptureIncidentSnapshot env de rq h st =
     (if rq_Method rq \<noteq> ''POST'' then refuse ''Method not allowed'' StatusMethodNotAllowed h st
      else let stateID = rq_Query rq ''state_id'' in
        if stateID = [] then refuse ''state_id is required'' StatusBadRequest h st
        else if de_late de then refuse ''Incident capture timeout'' StatusRequestTimeout h st
        else (Some (encoded StatusOK (enc_snapshot de
             (captureIncidentAsync (ae_now env 0) (ae_now env 1) (ap_scheduler st) (ap_elector st) stateID))
           (header_set ''Content-Disposition'' (''attachment; filename=incident-'' @ stateID @ ''.json'')
             (header_set ''Access-Control-Allow-Origin'' ''*''
               (header_set ''Content-Type'' ''application/json'' h)))), st))"

end
