(* ===== verification/MetricsHub.thy ===== *)
theory MetricsHub
  imports Dashboard
begin

text \<open>
  \<open>ws_hub.go\<close> and the pumps of \<open>api_stream.go\<close>: the connections that receive the dashboard every second.

  The hub's channels have no buffer, so a registration or its removal is in the hands of the goroutine that
  sends it until the loop of \<open>Run\<close> takes it: \<open>hs_registering\<close> and \<open>hs_leaving\<close> hold the blocked senders.
  \<open>hs_closed\<close> records the calls of \<open>conn.Close\<close> by the hub and \<open>hs_written\<close> the documents written. Each
  iteration of \<open>Run\<close> is one step; \<open>select\<close> may take any channel that is ready. The store, the scheduler and
  the elector can differ from one tenant of a tick to the next: \<open>world n t\<close> is what the n-th tick reads for
  tenant t. Pings and read deadlines only
  decide when a pump ends, which may be at any time.
\<close>

section \<open>The hub\<close>

definition maxWSConnections :: nat where "maxWSConnections = 200"

type_synonym 'c hub = "'c \<rightharpoonup> string"

definition NewMetricsHub :: "'c hub" where
  "NewMetricsHub = Map.empty"

definition ClientCount :: "'c hub \<Rightarrow> nat" where
  "ClientCount h = card (dom h)"

text \<open>The three cases of the loop; the second component is what is closed.\<close>

definition hub_register :: "'c \<Rightarrow> string \<Rightarrow> 'c hub \<Rightarrow> 'c hub \<times> 'c list" where
  "hub_register conn tenantID h =
     (if ClientCount h \<ge> maxWSConnections then (h, [conn]) else (h(conn \<mapsto> tenantID), []))"

definition hub_unregister :: "'c \<Rightarrow> 'c hub \<Rightarrow> 'c hub \<times> 'c list" where
  "hub_unregister conn h = (if h conn \<noteq> None then (h(conn := None), [conn]) else (h, []))"

definition hub_shutdown :: "'c list \<Rightarrow> 'c hub \<Rightarrow> 'c hub \<times> 'c list" where
  "hub_shutdown order h = (Map.empty, order)"

text \<open>\<open>broadcastAll\<close>: the documents in the order they are written, and the connections whose write fails.\<close>

record ('s, 'l) hub_view =
  hv_now :: gotime
  hv_sched :: "'l scheduler"
  hv_elector :: "elector option"
  hv_store :: 's

definition tenant_metrics :: "'s full_store \<Rightarrow> (string \<Rightarrow> ('s, 'l) hub_view) \<Rightarrow> string \<Rightarrow> go_error + dashboard_metrics" where
  "tenant_metrics fs view t =
     GetDashboardMetrics fs (hv_now (view t)) (hv_sched (view t)) (hv_elector (view t)) t (hv_store (view t))"

fun tenant_writes :: "(string \<Rightarrow> go_error + 'm) \<Rightarrow> (string \<Rightarrow> 'c list) \<Rightarrow> 'c hub \<Rightarrow> string list \<Rightarrow> ('c \<times> 'm) list" where
  "tenant_writes metrics orders h [] = []"
| "tenant_writes metrics orders h (t # ts) =
     (case metrics t of
        Inl err \<Rightarrow> []
      | Inr m \<Rightarrow> map (\<lambda>conn. (conn, m)) (filter (\<lambda>conn. h conn = Some t) (orders t))) @
     tenant_writes metrics orders h ts"

definition broadcastAll ::
  "'s full_store \<Rightarrow> (string \<Rightarrow> ('s, 'l) hub_view) \<Rightarrow> string list \<Rightarrow> (string \<Rightarrow> 'c list) \<Rightarrow> ('c \<Rightarrow> bool) \<Rightarrow> 'c hub \<Rightarrow>
    ('c \<times> dashboard_metrics) list \<times> 'c list"
where
  "broadcastAll fs view tenants orders fails h =
     (let writes = tenant_writes (tenant_metrics fs view) orders h tenants
      in (filter (\<lambda>(conn, m). \<not> fails conn) writes, filter fails (map fst writes)))"

section \<open>Runs\<close>

record 'c hub_sys =
  hs_up :: bool
  hs_clients :: "'c hub"
  hs_tenant :: "'c \<rightharpoonup> string"
  hs_registering :: "'c set"
  hs_reading :: "'c set"
  hs_leaving :: "'c multiset"
  hs_closed :: "'c list"
  hs_written :: "('c \<times> dashboard_metrics) list"
  hs_ticks :: nat

definition hub_start :: "'c hub_sys" where
  "hub_start = \<lparr>hs_up = True, hs_clients = NewMetricsHub, hs_tenant = Map.empty, hs_registering = {},
     hs_reading = {}, hs_leaving = {#}, hs_closed = [], hs_written = [], hs_ticks = 0\<rparr>"

text \<open>
  \<open>hs_tenant\<close> is the tenant of the request a connection was upgraded from. Ranging over a Go map visits every
  key once (\<open>map_order\<close>); a tick ranges over the tenants of the clients and, for each, over the clients.
\<close>

inductive hub_step :: "'s full_store \<Rightarrow> (nat \<Rightarrow> string \<Rightarrow> ('s, 'l) hub_view) \<Rightarrow> 'c hub_sys \<Rightarrow> 'c hub_sys \<Rightarrow> bool" for fs world where
  connect: "c \<notin> dom (hs_tenant y) \<Longrightarrow>
     hub_step fs world y (y\<lparr>hs_tenant := (hs_tenant y)(c \<mapsto> t), hs_registering := insert c (hs_registering y)\<rparr>)"
| register: "hs_up y \<Longrightarrow> c \<in> hs_registering y \<Longrightarrow> hs_tenant y c = Some t \<Longrightarrow>
     hub_register c t (hs_clients y) = (h, cl) \<Longrightarrow>
     hub_step fs world y (y\<lparr>hs_clients := h, hs_closed := hs_closed y @ cl,
       hs_registering := hs_registering y - {c}, hs_reading := insert c (hs_reading y)\<rparr>)"
| read_error: "c \<in> hs_reading y \<Longrightarrow>
     hub_step fs world y (y\<lparr>hs_reading := hs_reading y - {c}, hs_leaving := add_mset c (hs_leaving y)\<rparr>)"
| unregister: "hs_up y \<Longrightarrow> c \<in># hs_leaving y \<Longrightarrow> hub_unregister c (hs_clients y) = (h, cl) \<Longrightarrow>
     hub_step fs world y (y\<lparr>hs_clients := h, hs_closed := hs_closed y @ cl, hs_leaving := hs_leaving y - {#c#}\<rparr>)"
| tick: "hs_up y \<Longrightarrow> distinct tenants \<Longrightarrow> set tenants = ran (hs_clients y) \<Longrightarrow>
     (\<And>t. map_order (hs_clients y) (orders t)) \<Longrightarrow>
     broadcastAll fs (world (hs_ticks y)) tenants orders fails (hs_clients y) = (ws, failed) \<Longrightarrow>
     hub_step fs world y (y\<lparr>hs_written := hs_written y @ ws, hs_leaving := hs_leaving y + mset failed,
       hs_ticks := Suc (hs_ticks y)\<rparr>)"
| shutdown: "hs_up y \<Longrightarrow> map_order (hs_clients y) order \<Longrightarrow> hub_shutdown order (hs_clients y) = (h, cl) \<Longrightarrow>
     hub_step fs world y (y\<lparr>hs_up := False, hs_clients := h, hs_closed := hs_closed y @ cl\<rparr>)"

inductive hub_run :: "'s full_store \<Rightarrow> (nat \<Rightarrow> string \<Rightarrow> ('s, 'l) hub_view) \<Rightarrow> 'c hub_sys \<Rightarrow> bool" for fs world where
  start: "hub_run fs world hub_start"
| next_step: "hub_run fs world y \<Longrightarrow> hub_step fs world y y' \<Longrightarrow> hub_run fs world y'"

inductive_cases hub_stepE: "hub_step fs world y y'"

section \<open>What a broadcast writes\<close>

lemma tenant_writes_set:
  assumes "\<And>t. map_order h (orders t)"
  shows "set (tenant_writes metrics orders h ts) = {(c, m). \<exists>t \<in> set ts. h c = Some t \<and> metrics t = Inr m}"
proof (induction ts)
  case (Cons t ts)
  have "c \<in> set (orders t) \<longleftrightarrow> h c \<noteq> None" for c using map_orderD [OF assms, of c t] by auto
  then show ?case using Cons by (auto split: sum.splits)
qed simp

lemma tenant_writes_tenant:
  "(c, m) \<in> set (tenant_writes metrics orders h ts) \<Longrightarrow> \<exists>t \<in> set ts. h c = Some t"
  by (induction ts) (auto split: sum.splits)

lemma tenant_writes_distinct:
  assumes "\<And>t. map_order h (orders t)" "distinct ts"
  shows "distinct (map fst (tenant_writes metrics orders h ts))"
  using assms(2)
proof (induction ts)
  case (Cons t ts)
  have "distinct (orders t)" using assms(1) by (simp add: map_order_def)
  moreover have "(c, m) \<notin> set (tenant_writes metrics orders h ts)" if "h c = Some t" for c m
    using that Cons.prems by (auto dest!: tenant_writes_tenant)
  ultimately show ?case using Cons by (auto simp: comp_def split: sum.splits)
qed simp

section \<open>The invariant of a run\<close>

text \<open>
  \<open>hub_inv\<close>: at most 200 clients, each with the tenant of its request and no longer registering; what has been
  closed is neither a client nor waiting to become one, and nothing is closed twice; after the loop has ended there
  are no clients.
\<close>

definition hub_inv :: "'c hub_sys \<Rightarrow> bool" where
  "hub_inv y \<longleftrightarrow>
     finite (dom (hs_clients y)) \<and> ClientCount (hs_clients y) \<le> maxWSConnections \<and>
     hs_clients y \<subseteq>\<^sub>m hs_tenant y \<and> hs_registering y \<subseteq> dom (hs_tenant y) \<and>
     hs_registering y \<inter> (dom (hs_clients y) \<union> set (hs_closed y)) = {} \<and>
     set (hs_closed y) \<subseteq> dom (hs_tenant y) \<and> set (hs_closed y) \<inter> dom (hs_clients y) = {} \<and>
     distinct (hs_closed y) \<and> (hs_up y \<or> hs_clients y = Map.empty)"

lemma hub_inv_start: "hub_inv hub_start"
  by (simp add: hub_inv_def hub_start_def NewMetricsHub_def ClientCount_def)

lemma hub_inv_register:
  assumes "hub_inv y" "hs_up y" "c \<in> hs_registering y" "hs_tenant y c = Some t"
    and "hub_register c t (hs_clients y) = (h, cl)"
  shows "hub_inv (y\<lparr>hs_clients := h, hs_closed := hs_closed y @ cl,
       hs_registering := hs_registering y - {c}, hs_reading := r\<rparr>)"
proof (cases "ClientCount (hs_clients y) \<ge> maxWSConnections")
  case True
  then have "h = hs_clients y" "cl = [c]" using assms(5) by (simp_all add: hub_register_def)
  then show ?thesis using assms(1-4) unfolding hub_inv_def by auto
next
  case False
  then have h: "h = (hs_clients y)(c \<mapsto> t)" "cl = []" using assms(5) by (simp_all add: hub_register_def)
  have "ClientCount h \<le> Suc (ClientCount (hs_clients y))"
    by (simp add: h ClientCount_def card_insert_le_m1)
  then have "ClientCount h \<le> maxWSConnections" using False by simp
  moreover have "h \<subseteq>\<^sub>m hs_tenant y" using assms(1,4) by (auto simp: h hub_inv_def map_le_def)
  ultimately show ?thesis using assms(1-4) h unfolding hub_inv_def by auto
qed

lemma hub_inv_unregister:
  assumes "hub_inv y" "hs_up y" "hub_unregister c (hs_clients y) = (h, cl)"
  shows "hub_inv (y\<lparr>hs_clients := h, hs_closed := hs_closed y @ cl, hs_leaving := l\<rparr>)"
proof (cases "hs_clients y c")
  case None
  then show ?thesis using assms by (simp add: hub_unregister_def hub_inv_def)
next
  case (Some t)
  then have h: "h = (hs_clients y)(c := None)" "cl = [c]" using assms(3) by (simp_all add: hub_unregister_def)
  have sub: "h \<subseteq>\<^sub>m hs_clients y" by (simp add: h map_le_def)
  have "ClientCount h \<le> ClientCount (hs_clients y)"
    using assms(1) by (simp add: h ClientCount_def hub_inv_def card_mono)
  moreover have "h \<subseteq>\<^sub>m hs_tenant y" using sub assms(1) by (auto simp: hub_inv_def intro: map_le_trans)
  moreover have "c \<in> dom (hs_tenant y)" using Some assms(1) by (auto simp: hub_inv_def map_le_def dom_def)
  ultimately show ?thesis using assms(1,2) Some h unfolding hub_inv_def by auto
qed

lemma hub_inv_step: "hub_step fs world y y' \<Longrightarrow> hub_inv y \<Longrightarrow> hub_inv y'"
proof (induction rule: hub_step.induct)
  case (connect c y t)
  then have "dom (hs_clients y) \<subseteq> dom (hs_tenant y)" by (simp add: hub_inv_def map_le_implies_dom_le)
  moreover from this connect have "hs_clients y \<subseteq>\<^sub>m (hs_tenant y)(c \<mapsto> t)"
    unfolding hub_inv_def map_le_def by (metis fun_upd_other subsetD)
  ultimately show ?case using connect unfolding hub_inv_def by auto
next
  case (register y c t h cl)
  then show ?case by (intro hub_inv_register)
next
  case (unregister y c h cl)
  then show ?case by (intro hub_inv_unregister)
next
  case (shutdown y order h cl)
  then have h: "h = Map.empty" "cl = order" "set order = dom (hs_clients y)" "distinct order"
    by (simp_all add: hub_shutdown_def map_order_def)
  have "dom (hs_clients y) \<subseteq> dom (hs_tenant y)" using shutdown by (simp add: hub_inv_def map_le_implies_dom_le)
  then show ?case using shutdown h unfolding hub_inv_def by (auto simp: ClientCount_def)
qed (simp_all add: hub_inv_def)

lemma hub_run_inv: "hub_run fs world y \<Longrightarrow> hub_inv y"
  by (induction rule: hub_run.induct) (auto intro: hub_inv_start hub_inv_step)

lemma hub_written_step:
  assumes "hub_step fs world y y'" "hub_inv y"
    and "\<And>c m. (c, m) \<in> set (hs_written y) \<Longrightarrow>
      \<exists>t n. hs_tenant y c = Some t \<and> tenant_metrics fs (world n) t = Inr m"
  shows "(c, m) \<in> set (hs_written y') \<Longrightarrow> \<exists>t n. hs_tenant y' c = Some t \<and> tenant_metrics fs (world n) t = Inr m"
  using assms
proof (induction rule: hub_step.induct)
  case (connect c' y t)
  then obtain t' n where "hs_tenant y c = Some t'" "tenant_metrics fs (world n) t' = Inr m" by fastforce
  then show ?case using connect by auto
next
  case (tick y tenants orders fails ws failed)
  show ?case
  proof (cases "(c, m) \<in> set (hs_written y)")
    case False
    then have "(c, m) \<in> set ws" using tick.prems(1) by simp
    moreover have "set ws \<subseteq> set (tenant_writes (tenant_metrics fs (world (hs_ticks y))) orders (hs_clients y) tenants)"
      using tick.hyps(5) by (auto simp: broadcastAll_def Let_def)
    ultimately obtain t where t: "hs_clients y c = Some t" "tenant_metrics fs (world (hs_ticks y)) t = Inr m"
      unfolding tenant_writes_set [OF tick.hyps(4)] by blast
    then have "hs_tenant y c = Some t" using tick.prems(2) by (auto simp: hub_inv_def map_le_def dom_def)
    then show ?thesis using t(2) by auto
  qed (use tick.prems(3) in simp)
qed simp_all

text \<open>Once the loop has ended, nobody takes a registration or its removal, and no connection is closed.\<close>

lemma hub_ends_deaf:
  "hub_step fs world y y' \<Longrightarrow> \<not> hs_up y \<Longrightarrow>
     \<not> hs_up y' \<and> hs_registering y \<subseteq> hs_registering y' \<and> hs_leaving y \<subseteq># hs_leaving y' \<and>
     hs_closed y' = hs_closed y \<and> hs_clients y' = hs_clients y"
  by (induction rule: hub_step.induct) auto

section \<open>Guarantees\<close>

text \<open>
  C35. In every interleaving of connections, disconnections, ticks and the shutdown the hub has at most 200
  clients, closes no connection twice, keeps no closed connection as a client, and has no clients after the
  shutdown.
\<close>

theorem hub_is_safe:
  "hub_run fs world y \<Longrightarrow>
     ClientCount (hs_clients y) \<le> 200 \<and> distinct (hs_closed y) \<and> set (hs_closed y) \<inter> dom (hs_clients y) = {} \<and>
     (hs_up y \<or> hs_clients y = Map.empty)"
  using hub_run_inv [of fs world y] by (simp add: hub_inv_def maxWSConnections_def)

text \<open>
  C34. In every interleaving, whatever is written to a WebSocket is the dashboard of the tenant whose token
  opened it, as it was computed at some tick.
\<close>

theorem hub_writes_own_tenant:
  "hub_run fs world y \<Longrightarrow> (c, m) \<in> set (hs_written y) \<Longrightarrow>
     \<exists>t n. hs_tenant y c = Some t \<and> tenant_metrics fs (world n) t = Inr m"
proof (induction arbitrary: c m rule: hub_run.induct)
  case (next_step y y')
  show ?case
    by (rule hub_written_step [OF next_step.hyps(2) hub_run_inv [OF next_step.hyps(1)] next_step.IH next_step.prems])
qed (simp add: hub_start_def)

text \<open>
  One broadcast sends to every client whose tenant's dashboard can be computed exactly one document, and
  the connections it gives up are exactly those whose write failed.
\<close>

theorem broadcast_reaches_all:
  assumes "\<And>t. map_order h (orders t)" "distinct tenants" "set tenants = ran h"
    and "broadcastAll fs view tenants orders fails h = (ws, failed)"
  shows "distinct (map fst ws) \<and>
    set ws = {(c, m). \<exists>t. h c = Some t \<and> tenant_metrics fs view t = Inr m \<and> \<not> fails c} \<and>
    set failed = {c. \<exists>t m. h c = Some t \<and> tenant_metrics fs view t = Inr m \<and> fails c}"
proof -
  let ?ws = "tenant_writes (tenant_metrics fs view) orders h tenants"
  have e: "ws = filter (\<lambda>(conn, m). \<not> fails conn) ?ws" "failed = filter fails (map fst ?ws)"
    using assms(4) by (simp_all add: broadcastAll_def Let_def)
  have s: "set ?ws = {(c, m). \<exists>t. h c = Some t \<and> tenant_metrics fs view t = Inr m}"
    unfolding tenant_writes_set [OF assms(1)] assms(3) by (auto intro: ranI)
  have d: "distinct (map fst ?ws)" by (rule tenant_writes_distinct [OF assms(1,2)])
  have "set ws = {(c, m). \<exists>t. h c = Some t \<and> tenant_metrics fs view t = Inr m \<and> \<not> fails c}"
    unfolding e(1) by (auto simp: s)
  moreover have "set failed = {c. \<exists>t m. h c = Some t \<and> tenant_metrics fs view t = Inr m \<and> fails c}"
  proof -
    have "fst ` set ?ws = {c. \<exists>t m. h c = Some t \<and> tenant_metrics fs view t = Inr m}" unfolding s by force
    then show ?thesis unfolding e(2) by auto
  qed
  ultimately show ?thesis using distinct_map_filter [OF d] e(1) by blast
qed

section \<open>Witnesses\<close>

text \<open>A hub over an empty memory store.\<close>

definition hub_store :: "memory_store full_store" where
  "hub_store = memory_full (\<lambda>_. []) (\<lambda>_. []) (\<lambda>_. [])"

definition hub_world :: "nat \<Rightarrow> string \<Rightarrow> (memory_store, unit) hub_view" where
  "hub_world n t = \<lparr>hv_now = 0, hv_sched = NewScheduler 0 1 DefaultSchedulerConfig, hv_elector = None, hv_store = NewMemoryStore\<rparr>"

lemma memory_metrics: "\<exists>m. tenant_metrics (memory_full oa oj os) view t = Inr m"
  by (simp add: tenant_metrics_def GetDashboardMetrics_def memory_full_def store_api.defs Let_def)

definition one_client :: "nat hub_sys" where
  "one_client = hub_start\<lparr>hs_clients := [7 \<mapsto> ''acme''], hs_tenant := [7 \<mapsto> ''acme''], hs_reading := {7}\<rparr>"

lemma one_client_run: "hub_run hub_store hub_world one_client"
proof -
  let ?y1 = "hub_start\<lparr>hs_tenant := [7 \<mapsto> ''acme''], hs_registering := {7 :: nat}\<rparr>"
  have "hub_step hub_store hub_world hub_start ?y1"
    using hub_step.connect [of "7 :: nat" hub_start hub_store hub_world "''acme''"] by (simp add: hub_start_def)
  then have "hub_run hub_store hub_world ?y1" by (rule hub_run.next_step [OF hub_run.start])
  moreover have "hub_step hub_store hub_world ?y1 one_client"
    using hub_step.register [of ?y1 7 "''acme''" "[7 \<mapsto> ''acme'']" "[]" hub_store hub_world]
    by (simp add: hub_start_def one_client_def NewMetricsHub_def hub_register_def ClientCount_def maxWSConnections_def)
  ultimately show ?thesis by (rule hub_run.next_step)
qed

theorem hub_is_safe_witness:
  "ClientCount (hs_clients one_client) \<le> 200 \<and> distinct (hs_closed one_client) \<and> 7 \<in> dom (hs_clients one_client)"
  using hub_is_safe [OF one_client_run] by (simp add: one_client_def)

theorem broadcast_reaches_all_witness:
  "map fst (fst (broadcastAll hub_store (hub_world 0) [''acme''] (\<lambda>_. [7]) (\<lambda>_. False) [7 :: nat \<mapsto> ''acme''])) = [7]"
proof -
  obtain ws failed where b: "broadcastAll hub_store (hub_world 0) [''acme''] (\<lambda>_. [7]) (\<lambda>_. False) [7 :: nat \<mapsto> ''acme''] = (ws, failed)"
    by fastforce
  obtain m where m: "tenant_metrics hub_store (hub_world 0) ''acme'' = Inr m"
    using memory_metrics unfolding hub_store_def by blast
  have "distinct (map fst ws) \<and>
      set ws = {(c, m). \<exists>t. [7 :: nat \<mapsto> ''acme''] c = Some t \<and> tenant_metrics hub_store (hub_world 0) t = Inr m \<and> \<not> (\<lambda>_. False) c} \<and>
      set failed = {c. \<exists>t m. [7 :: nat \<mapsto> ''acme''] c = Some t \<and> tenant_metrics hub_store (hub_world 0) t = Inr m \<and> (\<lambda>_. False) c}"
    by (rule broadcast_reaches_all [OF _ _ _ b]) (simp_all add: map_order_def)
  then have "distinct (map fst ws)" "set ws = {(7, m)}" using m by (auto split: if_splits)
  then have "ws = [(7, m)]" by (cases ws; cases "tl ws") auto
  then show ?thesis by (simp add: b)
qed

theorem hub_writes_own_tenant_witness:
  "\<exists>y m. hub_run hub_store hub_world y \<and> (7 :: nat, m) \<in> set (hs_written y) \<and>
     (\<exists>t n. hs_tenant y 7 = Some t \<and> tenant_metrics hub_store (hub_world n) t = Inr m)"
proof -
  obtain m where m: "tenant_metrics hub_store (hub_world 0) ''acme'' = Inr m"
    using memory_metrics unfolding hub_store_def by blast
  let ?y = "one_client\<lparr>hs_written := [(7, m)], hs_ticks := 1\<rparr>"
  have b: "broadcastAll hub_store (hub_world 0) [''acme''] (\<lambda>_. [7]) (\<lambda>_. False) [7 :: nat \<mapsto> ''acme''] = ([(7, m)], [])"
    by (simp add: broadcastAll_def m)
  have "hub_step hub_store hub_world one_client ?y"
    using hub_step.tick [of one_client "[''acme'']" "\<lambda>_. [7]" hub_store hub_world "\<lambda>_. False" "[(7, m)]" "[]"] b
    by (simp add: one_client_def hub_start_def map_order_def)
  then have r: "hub_run hub_store hub_world ?y" by (rule hub_run.next_step [OF one_client_run])
  have w: "(7, m) \<in> set (hs_written ?y)" by simp
  show ?thesis using r w hub_writes_own_tenant [OF r w] by blast
qed

end
