(* ===== verification/Streaming.thy ===== *)
theory Streaming
  imports Prelude StoreTypes
begin

text \<open>
  \<open>streaming/interface.go\<close> and \<open>streaming/logger.go\<close>: the publisher that writes events to the log. The two
  JSON encoders are parameters; the second cannot fail on an \<open>Event\<close>, and its error is dropped.
\<close>

record stream_event =
  ev_ID :: string
  ev_Topic :: string
  ev_Payload :: string
  ev_Timestamp :: gotime
  ev_Source :: string

definition Publish ::
  "('p \<Rightarrow> go_error + string) \<Rightarrow> (stream_event \<Rightarrow> string) \<Rightarrow> gotime \<Rightarrow> string \<Rightarrow> 'p \<Rightarrow> string list \<Rightarrow>
    go_error option \<times> string list"
where
  "Publish marshal event_json now topic payload logged =
     (case marshal payload of
        Inl err \<Rightarrow> (Some err, logged)
      | Inr data \<Rightarrow>
          (None, logged @ [''[STREAMING] PUBLISH '' @ topic @ '': '' @
             event_json \<lparr>ev_ID = ''log-id-stub'', ev_Topic = topic, ev_Payload = data, ev_Timestamp = now,
               ev_Source = ''control-plane''\<rparr>]))"

definition publisher_Close :: "string list \<Rightarrow> go_error option \<times> string list" where
  "publisher_Close logged = (None, logged @ [''[STREAMING] Closed LogPublisher''])"

text \<open>The identifier is a constant: without the clock two events of the same content are the same text.\<close>

lemma Publish_repeats:
  "marshal p = Inr d \<Longrightarrow>
   snd (Publish marshal ej now topic p (snd (Publish marshal ej now topic p logged))) =
     logged @ replicate 2 (last (snd (Publish marshal ej now topic p logged)))"
  by (simp add: Publish_def numeral_2_eq_2)

end
