(* ===== verification/Routes.thy ===== *)
theory Routes
  imports Dashboard
begin

text \<open>
  \<open>main.go\<close>: the configuration, the callbacks that tie the scheduler to the election, and the HTTP routes.

  \<open>http.ServeMux\<close> is a table of patterns: a pattern ending in a slash matches the paths below it, and the
  longest match wins. Request paths are clean; what the mux itself answers (not found, redirects), the
  metrics page and the upgrade to a WebSocket are the parameters \<open>me_fallback\<close>, \<open>me_metrics\<close> and
  \<open>me_stream\<close>. \<open>me_auth\<close> is the Unix time at which the token is validated.
\<close>

section \<open>Configuration\<close>

text \<open>\<open>fmt.Sscanf(s, "%d", &x)\<close>: blanks, a sign, digits; without a number \<open>x\<close> keeps its value.\<close>

definition is_digit :: "char \<Rightarrow> bool" where
  "is_digit c \<longleftrightarrow> digit_value c \<noteq> None"

definition sscanf_d :: "string \<Rightarrow> int \<Rightarrow> int" where
  "sscanf_d s old =
     (let s1 = dropWhile (\<lambda>c. c = CHR '' '' \<or> c = CHR 0x09) s;
          sign = takeWhile (\<lambda>c. c = CHR ''-'' \<or> c = CHR ''+'') (take 1 s1);
          ds = takeWhile is_digit (drop (length sign) s1)
      in case parse_int (sign @ ds) of None \<Rightarrow> old | Some n \<Rightarrow> n)"

definition shard_config :: "(string \<Rightarrow> string) \<Rightarrow> int \<times> int" where
  "shard_config getenv =
     (if getenv ''POD_INDEX'' \<noteq> [] then sscanf_d (getenv ''POD_INDEX'') 0 else 0,
      if getenv ''POD_COUNT'' \<noteq> [] then sscanf_d (getenv ''POD_COUNT'') 1 else 1)"

definition scheduler_config_of :: "(string \<Rightarrow> string) \<Rightarrow> scheduler_config" where
  "scheduler_config_of getenv =
     (let c0 = DefaultSchedulerConfig;
          limit = sscanf_d (getenv ''SCHEDULER_CONCURRENCY'') 0;
          c1 = (if getenv ''SCHEDULER_CONCURRENCY'' \<noteq> [] \<and> 0 < limit then c0\<lparr>MaxConcurrency := limit\<rparr> else c0);
          cb = sscanf_d (getenv ''CIRCUIT_BREAKER_THRESHOLD'') 0
      in if getenv ''CIRCUIT_BREAKER_THRESHOLD'' \<noteq> [] \<and> 0 < cb then c1\<lparr>CircuitBreakerThreshold := cb\<rparr> else c1)"

definition generateNodeID :: "string \<Rightarrow> string" where
  "generateNodeID hostname = hostname @ ''-'' @ ''uuid''"

text \<open>The process as \<open>main\<close> builds it over Redis.\<close>

definition initial_api ::
  "('l, 'r) rate_api \<Rightarrow> (string \<Rightarrow> string) \<Rightarrow> string \<Rightarrow> 's \<Rightarrow> 'b \<Rightarrow> ('s, 'b, 'l) api" where
  "initial_api rate getenv hostname store backend =
     NewAPI rate store (NewScheduler (fst (shard_config getenv)) (snd (shard_config getenv)) (scheduler_config_of getenv))
       (Some (SetCallbacks (NewLeaderElector (''node-'' @ generateNodeID hostname) (30 * second))))
       (idem_NewStore (Some backend))"

section \<open>Leadership\<close>

text \<open>The two callbacks; a failed rehydration is only logged.\<close>

definition on_elected :: "(nat \<Rightarrow> gotime \<times> submit_clock) \<Rightarrow> list_states \<Rightarrow> 'l scheduler \<Rightarrow> 'l scheduler" where
  "on_elected clk lister s = Start (snd (RehydrateQueue clk lister s))"

definition on_lost :: "'l scheduler \<Rightarrow> 'l scheduler" where
  "on_lost s = Stop s"

section \<open>Telemetry\<close>

text \<open>One tick of \<open>runMetricsCollector\<close>: the two gauges of the tenant "default". A failed count is 0.\<close>

definition telemetry :: "'s full_store \<Rightarrow> 's \<Rightarrow> f64 \<times> f64" where
  "telemetry fs s =
     (let count = (\<lambda>status. case st_CountStatesByStatus fs ''default'' status s of Inl _ \<Rightarrow> 0 | Inr n \<Rightarrow> n);
          pending = count ''pending''; drifted = count ''drifted''
      in (round64 (real (pending + drifted)), round64 (real drifted)))"

section \<open>Routes\<close>

record main_env =
  me_jwt :: jwt_env
  me_secret :: string
  me_auth :: int
  me_metrics :: "request \<Rightarrow> headers \<Rightarrow> response"
  me_stream :: "request \<Rightarrow> headers \<Rightarrow> response"
  me_fallback :: "request \<Rightarrow> headers \<Rightarrow> response"
  me_snapshot :: "scheduler_snapshot \<Rightarrow> string"

definition health :: "('s, 'b, 'l) api_handler" where
  "health rq h st = (Some (reply StatusOK ''ok'' h), st)"

definition jobs_route :: "('s, 'b, 'l, 'r) api_env \<Rightarrow> ('s, 'b, 'l) api_handler" where
  "jobs_route env rq h st =
     (if rq_Method rq = ''GET'' then handleListJobs env rq h st
      else withIdempotency env (handleSubmitJob env) rq h st)"

definition states_route :: "('s, 'b, 'l, 'r) api_env \<Rightarrow> ('s, 'b, 'l) api_handler" where
  "states_route env rq h st =
     (if rq_Method rq = ''GET'' then handleListStates env rq h st
      else withIdempotency env (handleCreateState env) rq h st)"

text \<open>The slice of the path's last ten bytes is out of range for a path of nine.\<close>

definition state_route :: "('s, 'b, 'l, 'r) api_env \<Rightarrow> ('s, 'b, 'l) api_handler" where
  "state_route env rq h st =
     (let n = length (rq_Path rq);
          rest = (if rq_Method rq = ''GET'' then handleGetState env rq h st
                  else refuse ''Not found'' StatusNotFound h st)
      in if rq_Method rq = ''POST'' \<and> length ''/states/'' < n then
           if n < length ''/reconcile'' then (None, st)
           else if drop (n - length ''/reconcile'') (rq_Path rq) = ''/reconcile''
             then withIdempotency env (handleReconcileState env) rq h st
             else rest
         else rest)"

definition debug_snapshot :: "main_env \<Rightarrow> ('s, 'b, 'l) api_handler" where
  "debug_snapshot me rq h st =
     (Some (json_reply StatusOK (me_snapshot me (GetSnapshot (ap_scheduler st))) h), st)"

definition handleDashboardStream :: "main_env \<Rightarrow> ('s, 'b, 'l) api_handler" where
  "handleDashboardStream me rq h st =
     (case GetTenantFromContext (rq_Context rq) of
        Inl e \<Rightarrow> refuse ''Unauthorized'' StatusUnauthorized h st
      | Inr tenantID \<Rightarrow> (Some (me_stream me rq h), st))"

definition authenticated :: "main_env \<Rightarrow> ('s, 'b, 'l) api_handler \<Rightarrow> ('s, 'b, 'l) api_handler" where
  "authenticated me = AuthMiddleware (me_jwt me) (me_secret me) (me_auth me)"

definition protected_routes ::
  "('s, 'b, 'l, 'r) api_env \<Rightarrow> dash_env \<Rightarrow> main_env \<Rightarrow> (string \<times> ('s, 'b, 'l) api_handler) list"
where
  "protected_routes env de me =
     [(''/agent/register'', handleRegister env), (''/agent/heartbeat'', handleHeartbeat env),
      (''/agents'', handleListAgents env), (''/jobs'', jobs_route env), (''/jobs/'', handleGetJob env),
      (''/jobs/result'', handleJobResult env), (''/states'', states_route env), (''/states/'', state_route env),
      (''/incident/capture'', handleCaptureIncident env), (''/api/dashboard'', handleGetDashboard env de),
      (''/api/dashboard/stream'', handleDashboardStream me), (''/api/incidents'', handleListIncidents de),
      (''/api/incidents/replay/'', handleReplayIncident env de),
      (''/api/incidents/capture'', handleCaptureIncidentSnapshot env de), (''/api/clusters'', handleGetClusters env de)]"

definition open_routes ::
  "('s, 'b, 'l, 'r) api_env \<Rightarrow> main_env \<Rightarrow> (string \<times> ('s, 'b, 'l) api_handler) list"
where
  "open_routes env me =
     [(''/health'', health), (''/metrics'', \<lambda>rq h st. (Some (me_metrics me rq h), st)), (''/scheduler/debug/snapshot'', debug_snapshot me),
      (''/admin/admission-mode'', handleSetAdmissionMode env)]"

definition mux_routes ::
  "('s, 'b, 'l, 'r) api_env \<Rightarrow> dash_env \<Rightarrow> main_env \<Rightarrow> (string \<times> ('s, 'b, 'l) api_handler) list"
where
  "mux_routes env de me =
     open_routes env me @ map (\<lambda>(p, f). (p, authenticated me f)) (protected_routes env de me)"

definition pattern_matches :: "string \<Rightarrow> string \<Rightarrow> bool" where
  "pattern_matches pat path = (if last pat = CHR ''/'' then prefix pat path else pat = path)"

text \<open>The longest pattern that matches.\<close>

fun longest_match :: "string \<Rightarrow> (string \<times> 'h) list \<Rightarrow> (string \<times> 'h) option" where
  "longest_match path [] = None"
| "longest_match path (r # rs) =
     (case longest_match path rs of
        None \<Rightarrow> if pattern_matches (fst r) path then Some r else None
      | Some r' \<Rightarrow>
          if pattern_matches (fst r) path \<and> length (fst r') \<le> length (fst r) then Some r else Some r')"

definition mux ::
  "('s, 'b, 'l, 'r) api_env \<Rightarrow> dash_env \<Rightarrow> main_env \<Rightarrow> ('s, 'b, 'l) api_handler" where
  "mux env de me rq h st =
     (case longest_match (rq_Path rq) (mux_routes env de me) of
        None \<Rightarrow> (Some (me_fallback me rq h), st)
      | Some (_, f) \<Rightarrow> f rq h st)"

text \<open>A request to the process.\<close>

definition serve ::
  "('s, 'b, 'l, 'r) api_env \<Rightarrow> dash_env \<Rightarrow> main_env \<Rightarrow> request \<Rightarrow> ('s, 'b, 'l) api \<Rightarrow>
   response option \<times> ('s, 'b, 'l) api"
where
  "serve env de me rq st = CORSMiddleware (mux env de me) rq Map.empty st"

end
