(* ===== verification/HttpSafety.thy ===== *)
theory HttpSafety
  imports Routes
begin

text \<open>
  What the HTTP surface guarantees and what it does not: who can change the state, which tenant's records
  a request can touch, what a repeated request gets, and how the stored records are formed.
\<close>

section \<open>Routing\<close>

lemma longest_match_in: "longest_match path rs = Some r \<Longrightarrow> r \<in> set rs \<and> pattern_matches (fst r) path"
proof (induction rs)
  case (Cons x xs)
  then show ?case by (cases "longest_match path xs") (auto split: if_splits)
qed simp

lemma serve_state_cases:
  assumes "snd (serve env de me rq st) \<noteq> st"
  obtains (kill_switch) "rq_Path rq = ''/admin/admission-mode''" "serve env de me rq st = handleSetAdmissionMode env rq (cors_headers Map.empty) st"
  | (protected_) p f where "(p, f) \<in> set (protected_routes env de me)" "pattern_matches p (rq_Path rq)"
      "serve env de me rq st = authenticated me f rq (cors_headers Map.empty) st"
proof -
  let ?h = "cors_headers Map.empty"
  have s: "serve env de me rq st = mux env de me rq ?h st"
    using assms by (auto simp: serve_def CORSMiddleware_def)
  obtain p f where m: "longest_match (rq_Path rq) (mux_routes env de me) = Some (p, f)" and f: "snd (f rq ?h st) \<noteq> st"
      and sf: "serve env de me rq st = f rq ?h st"
    using assms by (auto simp: s mux_def split: option.splits)
  have "(p, f) \<in> set (mux_routes env de me)" and pat: "pattern_matches p (rq_Path rq)"
    using longest_match_in [OF m] by simp_all
  then consider (open_) "(p, f) \<in> set (open_routes env me)"
    | (auth) g where "(p, g) \<in> set (protected_routes env de me)" "f = authenticated me g"
    by (auto simp: mux_routes_def)
  then show ?thesis
  proof cases
    case open_
    then have "p = ''/admin/admission-mode'' \<and> f = handleSetAdmissionMode env"
      using f by (auto simp: open_routes_def health_def debug_snapshot_def)
    then show ?thesis using kill_switch pat sf by (simp add: pattern_matches_def)
  next
    case auth
    then show ?thesis using protected_ pat sf by blast
  qed
qed

section \<open>What a request does to the store\<close>

text \<open>The writes the handlers let through.\<close>

fun proper :: "store_write \<Rightarrow> bool" where
  "proper (WAgent a) \<longleftrightarrow> a_NodeID a \<noteq> [] \<and> a_Status a \<noteq> []"
| "proper (WState ds) \<longleftrightarrow> ds_NodeID ds \<noteq> []"
| "proper (WJob j) \<longleftrightarrow> j_NodeID j \<noteq> [] \<and> j_Command j \<noteq> []"
| "proper _ \<longleftrightarrow> True"

text \<open>One proper write of the tenant, or nothing; without a tenant, nothing.\<close>

definition own_write :: "context_values \<Rightarrow> memory_store \<Rightarrow> memory_store \<Rightarrow> bool" where
  "own_write ctx s s' \<longleftrightarrow>
     s' = s \<or> (\<exists>u w. GetTenantFromContext ctx = Inr u \<and> proper w \<and> s' = ms_write u w s)"

lemma own_write_refl [simp]: "own_write ctx s s"
  by (simp add: own_write_def)

definition writes_own :: "(memory_store, 'b, 'l) api_handler \<Rightarrow> bool" where
  "writes_own f \<longleftrightarrow> (\<forall>rq h st. own_write (rq_Context rq) (ap_store st) (ap_store (snd (f rq h st))))"

lemma writes_ownI: "(\<And>rq h st. own_write (rq_Context rq) (ap_store st) (ap_store (snd (f rq h st)))) \<Longrightarrow> writes_own f"
  by (simp add: writes_own_def)

lemma own_writeI: "GetTenantFromContext ctx = Inr u \<Longrightarrow> s' = ms_write u w s \<Longrightarrow> proper w \<Longrightarrow> own_write ctx s s'"
  by (auto simp: own_write_def)

lemma writes_own_reads: "(\<And>rq h st. ap_store (snd (f rq h st)) = ap_store st) \<Longrightarrow> writes_own f"
  by (simp add: writes_own_def)

lemmas memory_full_simps = memory_full_def memory_api_def store_api.defs error_of_def

lemma registered_fields [simp]:
  "a_NodeID (registered_agent now t a) = a_NodeID a" "a_Status (registered_agent now t a) \<noteq> []"
  by (simp_all add: registered_agent_def Let_def)

lemma submitted_fields [simp]:
  "j_NodeID (submitted_job now uuid t j) = j_NodeID j" "j_Command (submitted_job now uuid t j) = j_Command j"
  "ds_NodeID (created_state now uuid t ds) = ds_NodeID ds"
  by (simp_all add: submitted_job_def created_state_def Let_def)

lemma register_own: "ae_store env = memory_full oa oj os \<Longrightarrow> writes_own (handleRegister env)"
  by (rule writes_ownI)
    (auto simp: handleRegister_def memory_full_simps Let_def intro: own_writeI [where w = "WAgent _"] split: sum.split)

lemma heartbeat_own: "ae_store env = memory_full oa oj os \<Longrightarrow> writes_own (handleHeartbeat env)"
  by (rule writes_ownI)
    (auto simp: handleHeartbeat_def memory_full_simps Let_def intro: own_writeI [where w = "WHeartbeat _ _"]
      split: sum.split prod.split)

lemma submit_job_own: "ae_store env = memory_full oa oj os \<Longrightarrow> writes_own (handleSubmitJob env)"
  by (rule writes_ownI)
    (auto simp: handleSubmitJob_def memory_full_simps Let_def spawn_def intro: own_writeI [where w = "WJob _"]
      split: sum.split option.split)

lemma job_result_own: "ae_store env = memory_full oa oj os \<Longrightarrow> writes_own (handleJobResult env)"
  by (rule writes_ownI)
    (auto simp: handleJobResult_def memory_full_simps Let_def intro: own_writeI [where w = "WJobStatus _ _ _ _ _ _"]
      split: sum.split)

lemma create_state_own: "ae_store env = memory_full oa oj os \<Longrightarrow> writes_own (handleCreateState env)"
  by (rule writes_ownI)
    (auto simp: handleCreateState_def memory_full_simps Let_def spawn_def intro: own_writeI [where w = "WState _"]
      split: sum.split)

lemma reconcile_state_reads: "ap_store (snd (handleReconcileState env rq h st)) = ap_store st"
  by (simp add: handleReconcileState_def Let_def split: prod.split sum.split option.split submit_error.split)

lemmas reading_handlers = handleListAgents_def handleGetJob_def handleListJobs_def handleGetState_def
  handleListStates_def handleCaptureIncident_def handleGetDashboard_def handleGetClusters_def
  handleListIncidents_def handleReplayIncident_def handleCaptureIncidentSnapshot_def handleDashboardStream_def

text \<open>These handlers do not change anything at all.\<close>

lemma readers_read [simp]:
  "snd (handleListAgents env rq h st) = st" "snd (handleGetJob env rq h st) = st" "snd (handleListJobs env rq h st) = st"
  "snd (handleGetState env rq h st) = st" "snd (handleListStates env rq h st) = st"
  "snd (handleCaptureIncident env rq h st) = st" "snd (handleGetDashboard env de rq h st) = st"
  "snd (handleGetClusters env de rq h st) = st" "snd (handleListIncidents de rq h st) = st"
  "snd (handleReplayIncident env de rq h st) = st" "snd (handleCaptureIncidentSnapshot env de rq h st) = st"
  "snd (handleDashboardStream me rq h st) = st"
  by (simp_all add: reading_handlers Let_def split: sum.split option.split)

lemma idempotency_own: "writes_own f \<Longrightarrow> writes_own (withIdempotency env f)"
proof (rule writes_ownI)
  fix rq h st
  assume "writes_own f"
  then have f: "own_write (rq_Context rq) (ap_store st') (ap_store (snd (f rq h st')))" for st'
    by (simp add: writes_own_def)
  show "own_write (rq_Context rq) (ap_store st) (ap_store (snd (withIdempotency env f rq h st)))"
  proof (cases "rq_Header rq ''X-Flux-Idempotency-Key'' = []")
    case True
    then show ?thesis using f by (simp add: withIdempotency_def)
  next
    case False
    obtain hit idem where g: "idem_Get (ae_backend env) (ae_entry env) (ae_lookup env) (rq_Header rq ''X-Flux-Idempotency-Key'')
        (ap_idempotency st) = (hit, idem)" by fastforce
    obtain r st' where i: "f rq h (st\<lparr>ap_idempotency := idem\<rparr>) = (r, st')" by fastforce
    have "own_write (rq_Context rq) (ap_store st) (ap_store st')" using f [of "st\<lparr>ap_idempotency := idem\<rparr>"] i by simp
    then show ?thesis using False g i by (cases hit; cases r) (simp_all add: withIdempotency_def)
  qed
qed

lemma protected_own:
  assumes "ae_store env = memory_full oa oj os" "(p, f) \<in> set (protected_routes env de me)"
  shows "writes_own f"
proof -
  have "writes_own (jobs_route env)" "writes_own (states_route env)" "writes_own (state_route env)"
    using idempotency_own [OF submit_job_own [OF assms(1)], of env] idempotency_own [OF create_state_own [OF assms(1)], of env]
      idempotency_own [OF writes_own_reads [of "handleReconcileState env", OF reconcile_state_reads], of env]
    by (simp_all add: writes_own_def jobs_route_def states_route_def state_route_def Let_def)
  then show ?thesis
    using assms(2) register_own [OF assms(1)] heartbeat_own [OF assms(1)] job_result_own [OF assms(1)]
    by (auto simp: protected_routes_def intro: writes_own_reads)
qed

text \<open>
  A request as a whole: the store stays as it is, or the tenant named by its token writes to it once.
\<close>

lemma serve_store:
  assumes "ae_store env = memory_full oa oj os"
  shows "ap_store (snd (serve env de me rq st)) = ap_store st \<or>
    (\<exists>c w. bearer_claims (me_jwt me) (me_secret me) (me_auth me) rq = Inr c \<and> proper w \<and>
       ap_store (snd (serve env de me rq st)) = ms_write (cl_TenantID c) w (ap_store st))"
proof (cases "snd (serve env de me rq st) = st")
  case False
  then show ?thesis
  proof (cases rule: serve_state_cases)
    case kill_switch
    then show ?thesis
      by (auto simp: handleSetAdmissionMode_def split: sum.split option.split)
  next
    case (protected_ p f)
    show ?thesis
    proof (cases "bearer_claims (me_jwt me) (me_secret me) (me_auth me) rq")
      case (Inl e)
      then show ?thesis using protected_(3) by (simp add: authenticated_def refused_unchanged)
    next
      case (Inr c)
      let ?rq = "rq\<lparr>rq_Context := claims_context c (rq_Context rq)\<rparr>"
      have "own_write (rq_Context ?rq) (ap_store st) (ap_store (snd (f ?rq (cors_headers Map.empty) st)))"
        using protected_own [OF assms protected_(1)] unfolding writes_own_def by blast
      then show ?thesis using protected_(3) Inr
        by (auto simp: authenticated_def AuthMiddleware_def own_write_def)
    qed
  qed
qed simp

section \<open>Properties\<close>

text \<open>
  C9. Only holders of the secret change anything, with one exception: a request that changes the state of the
  process carries an unexpired token signed with the secret, or it goes to the kill switch, whose route
  asks for no token.
\<close>

theorem changes_need_a_token:
  assumes "snd (serve env de me rq st) \<noteq> st" "rq_Path rq \<noteq> ''/admin/admission-mode''"
  shows "\<exists>h p json c. rq_Header rq ''Authorization'' =
       ''Bearer '' @ h @ ''.'' @ p @ ''.'' @ computeHMAC (me_jwt me) (h @ ''.'' @ p) (me_secret me) \<and>
     base64UrlDecode p = Inr json \<and> parse_claims (me_jwt me) json = Inr c \<and> me_auth me \<le> cl_ExpiresAt c"
proof (cases rule: serve_state_cases [OF assms(1)])
  case 1
  then show ?thesis using assms(2) by simp
next
  case (2 p f)
  then obtain c where "bearer_claims (me_jwt me) (me_secret me) (me_auth me) rq = Inr c"
    using assms(1) by (cases "bearer_claims (me_jwt me) (me_secret me) (me_auth me) rq")
      (simp_all add: authenticated_def refused_unchanged)
  from bearer_claims_signed [OF this] show ?thesis by (elim exE) (intro exI)
qed

text \<open>
  Anybody can stop the system: a request without any token freezes admission, and from then on \<open>Submit\<close>
  refuses every task.
\<close>

theorem anyone_can_freeze:
  assumes "rq_Path rq = ''/admin/admission-mode''" "rq_Method rq = ''POST''" "dec_mode (ae_json env) (rq_Body rq) = Inr ''freeze''"
  shows "\<exists>e. fst (Submit c t (ap_scheduler (snd (serve env de me rq st)))) = Inl e"
proof -
  have "longest_match ''/admin/admission-mode'' (mux_routes env de me) =
      Some (''/admin/admission-mode'', handleSetAdmissionMode env)"
    by (simp add: mux_routes_def open_routes_def protected_routes_def pattern_matches_def)
  then have "ap_scheduler (snd (serve env de me rq st)) = SetAdmissionMode AdmissionFreeze (ap_scheduler st)"
    using assms by (simp add: serve_def CORSMiddleware_def mux_def handleSetAdmissionMode_def)
  moreover have "currentAdmission (submit_snapshot t (SetAdmissionMode AdmissionFreeze s)) = AdmissionFreeze" for s
    by (simp add: submit_snapshot_def SetAdmissionMode_def)
  ultimately show ?thesis
    by (auto simp: Submit_def submit_checks_def Let_def split: prod.splits sum.splits)
qed

text \<open>How stored records are formed: each lies under the key of its own tenant and identifier.\<close>

definition store_typed :: "memory_store \<Rightarrow> bool" where
  "store_typed s \<longleftrightarrow>
     (\<forall>k a. ms_agents s k = Some a \<longrightarrow>
        k = TenantKey (a_TenantID a) ResourceAgent (a_NodeID a) \<and> a_NodeID a \<noteq> [] \<and> a_Status a \<noteq> []) \<and>
     (\<forall>k j. ms_jobs s k = Some j \<longrightarrow>
        k = TenantKey (j_TenantID j) ResourceJob (j_JobID j) \<and> j_NodeID j \<noteq> [] \<and> j_Command j \<noteq> []) \<and>
     (\<forall>k ds. ms_states s k = Some ds \<longrightarrow>
        k = TenantKey (ds_TenantID ds) ResourceState (ds_StateID ds) \<and> ds_NodeID ds \<noteq> [])"

lemma proper_write_typed: "store_typed s \<Longrightarrow> proper w \<Longrightarrow> store_typed (ms_write t w s)"
  by (cases w) (simp_all add: store_typed_def ms_write_defs job_status_update_def Let_def split: option.split)



end
