(* ===== verification/HttpBehaviour.thy ===== *)
theory HttpBehaviour
  imports HttpSafety
begin

text \<open>
  What single requests mean, end to end: a submitted job can be read back, a reported result reaches the
  reconciler that waits for it, a repeated request is answered by its idempotency key alone, and one
  malformed path panics.
\<close>

section \<open>Identifiers\<close>

lemma hex_digit_in: "hex_digit n \<in> set ''0123456789abcdef''"
proof -
  have "n mod 16 < length ''0123456789abcdef''" by simp
  then show ?thesis unfolding hex_digit_def by (rule nth_mem)
qed

lemma hex_chars: "set (hex bs) \<subseteq> set ''0123456789abcdef''"
  using hex_digit_in by (auto simp: hex_def hex_byte_def)

lemma length_hex [simp]: "length (hex bs) = 2 * length bs"
  by (induction bs) (simp_all add: hex_def hex_byte_def)

lemma length_stamp [simp]: "length (stamp_uuid b) = length b"
  by (simp add: stamp_uuid_def Let_def)

lemma generateUUID_form:
  assumes "length b = 16"
  shows "length (generateUUID (Some b)) = 36" "set (generateUUID (Some b)) \<subseteq> set ''0123456789abcdef-''"
proof -
  show "length (generateUUID (Some b)) = 36" using assms by (simp add: generateUUID_def Let_def)
  have hex_in: "set (hex bs) \<subseteq> set ''0123456789abcdef-''" for bs
    by (rule subset_trans [OF hex_chars]) simp
  show "set (generateUUID (Some b)) \<subseteq> set ''0123456789abcdef-''"
    unfolding generateUUID_def Let_def option.case set_append by (intro Un_least hex_in) simp_all
qed

section \<open>Jobs\<close>

lemma serve_protected:
  assumes "longest_match (rq_Path rq) (mux_routes env de me) = Some (p, authenticated me f)"
    and "rq_Method rq \<noteq> ''OPTIONS''" "bearer_claims (me_jwt me) (me_secret me) (me_auth me) rq = Inr c"
  shows "serve env de me rq st =
    f (rq\<lparr>rq_Context := claims_context c (rq_Context rq)\<rparr>) (cors_headers Map.empty) st"
  using assms by (simp add: serve_def CORSMiddleware_def mux_def authenticated_def AuthMiddleware_def)

lemmas route_tables = mux_routes_def open_routes_def protected_routes_def pattern_matches_def

lemma jobs_match [simp]: "longest_match ''/jobs'' (mux_routes env de me) = Some (''/jobs'', authenticated me (jobs_route env))"
  by (simp add: route_tables)

lemma job_match: "u \<noteq> ''result'' \<Longrightarrow>
    longest_match (''/jobs/'' @ u) (mux_routes env de me) = Some (''/jobs/'', authenticated me (handleGetJob env))"
  by (simp add: route_tables)

lemma job_result_match [simp]:
  "longest_match ''/jobs/result'' (mux_routes env de me) = Some (''/jobs/result'', authenticated me (handleJobResult env))"
  by (simp add: route_tables)

lemma state_match: "longest_match (''/states/'' @ u) (mux_routes env de me) = Some (''/states/'', authenticated me (state_route env))"
  by (simp add: route_tables)


text \<open>
  C20. A reported result reaches the reconciler: when an agent reports the completion of an open job while the
  reconciler waits for it, by a request of the job's tenant that is served before some poll, \<open>waitForJob\<close>
  returns the reported exit code.
\<close>

theorem reported_result_reaches_reconciler:
  assumes "ae_store env = memory_full oa oj os" "rq_Path rq = ''/jobs/result''" "rq_Method rq = ''POST''"
    and "bearer_claims (me_jwt me) (me_secret me) (me_auth me) rq = Inr c"
    and "dec_job_result (ae_json env) (rq_Body rq) =
      Inr \<lparr>jr_JobID = i, jr_Status = ''completed'', jr_Stdout = out, jr_Stderr = err, jr_ExitCode = code\<rparr>"
    and "ms_GetJob (cl_TenantID c) i s = Some j" "j_Status j \<notin> {''completed'', ''failed''}" "n < polls"
    and "world = (\<lambda>k s. if k = n then ap_store (snd (serve env de me rq (st\<lparr>ap_store := s\<rparr>))) else s)"
  shows "fst (waitForJob memory_api world (cl_TenantID c) i 0 polls s) = Inr code"
proof -
  let ?t = "cl_TenantID c"
  have "serve env de me rq (st\<lparr>ap_store := s\<rparr>) = handleJobResult env (rq\<lparr>rq_Context := claims_context c (rq_Context rq)\<rparr>)
      (cors_headers Map.empty) (st\<lparr>ap_store := s\<rparr>)" for s
    using assms(2,3) by (intro serve_protected [where p = "''/jobs/result''"] assms(4)) simp_all
  then have served: "world n s = snd (ms_UpdateJobStatus (ae_now env 0) ?t i ''completed'' code out err s)" for s
    using assms(1,3,5) by (simp add: assms(9) handleJobResult_def memory_full_simps split: sum.split)
  have quiet: "poll_state world 0 m s = s" if "m < n" for m
    using that by (induction m) (simp_all add: poll_state_def assms(9))
  have at_n: "poll_state world 0 n s = world n s"
  proof (cases n)
    case (Suc m)
    then show ?thesis using quiet [of m] by (simp add: poll_state_def)
  qed (simp add: poll_state_def)
  have "still_open (poll memory_api world ?t i 0 m s)" if "m < n" for m
    using assms(6,7) by (simp add: poll_def quiet [OF that] memory_api_def still_open_def)
  moreover have "\<exists>j'. poll memory_api world ?t i 0 n s = Inr (Some j') \<and> j_Status j' = ''completed'' \<and> j_ExitCode j' = code"
    using assms(6) by (simp add: poll_def at_n served memory_api_def ms_UpdateJobStatus_def ms_GetJob_def
        job_status_update_def Let_def)
  ultimately show ?thesis using assms(8) by (subst waitForJob_result) auto
qed

section \<open>Idempotency keys\<close>

text \<open>
  C19. The idempotency key alone decides: over Redis, once a request with a key has been answered, every request with that
  key within a day gets that answer - status, body and headers - and nothing is done, whatever tenant, route or
  body it has, and whatever the answer was, errors included. Its headers are added to those the middleware has
  already set.
\<close>

theorem idempotency_key_decides:
  assumes "redis_server rd" "ae_backend env = redis_backend rd Delivered Delivered" "ae_backend env' = ae_backend env"
    and "ae_entry env' = ae_entry env" "rq_Header rq ''X-Flux-Idempotency-Key'' = key" "key \<noteq> []"
    and "rq_Header rq' ''X-Flux-Idempotency-Key'' = key"
    and "fst (idem_Get (ae_backend env) (ae_entry env) (ae_lookup env) key (ap_idempotency st)) = None"
    and "withIdempotency env inner rq h st = (Some r, st1)" "id_backend (ap_idempotency st1) \<noteq> None"
    and "100 \<le> rp_Code r" "rp_Code r \<le> 999"
    and "parse_entry (ae_entry env) (entry_json (ae_entry env) \<lparr>ie_Resp = recorded r, ie_Timestamp = ae_saved env\<rparr>) =
       Inr \<lparr>ie_Resp = recorded r, ie_Timestamp = ae_saved env\<rparr>"
    and "entry_json (ae_entry env) \<lparr>ie_Resp = recorded r, ie_Timestamp = ae_saved env\<rparr> \<noteq> []"
    and "ae_saved env \<le> ae_lookup env'" "ae_lookup env' < ae_saved env + 24 * hour"
  shows "withIdempotency env' inner' rq' h' st1 =
    (Some \<lparr>rp_Code = rp_Code r, rp_Header = replay_headers (rp_Header r) h', rp_Body = rp_Body r\<rparr>, st1)"
proof -
  let ?be = "redis_backend rd Delivered Delivered" and ?cd = "ae_entry env"
  obtain idem where g: "idem_Get ?be ?cd (ae_lookup env) key (ap_idempotency st) = (None, idem)"
    using assms(2,8) by (cases "idem_Get ?be ?cd (ae_lookup env) key (ap_idempotency st)") simp
  obtain x st2 where i: "inner rq h (st\<lparr>ap_idempotency := idem\<rparr>) = (x, st2)" by fastforce
  then have st1: "ap_idempotency st1 = idem_Set ?be ?cd (ae_saved env) key (recorded r) (ap_idempotency st2)"
    using assms(2,5,6,9) g by (cases x) (auto simp: withIdempotency_def)
  then obtain b where b: "id_backend (ap_idempotency st2) = Some b"
    using assms(10) by (cases "id_backend (ap_idempotency st2)") (simp_all add: idem_Set_def)
  note cache = redis_server.redis_response_cache [OF assms(1), of ?cd]
  have "fst (idem_Get ?be ?cd (ae_lookup env') key (ap_idempotency st1)) = Some (recorded r)"
    unfolding st1 idem_Get_backend [OF idem_Set_backend [OF b]]
    by (rule response_cache.found_put [OF cache]) (use assms(13-16) in simp_all)
  moreover have "snd (idem_Get ?be ?cd (ae_lookup env') key (ap_idempotency st1)) = ap_idempotency st1"
    by (rule idem_Get_same [OF assms(10)])
  ultimately have "idem_Get ?be ?cd (ae_lookup env') key (ap_idempotency st1) = (Some (recorded r), ap_idempotency st1)"
    by (simp add: prod_eq_iff)
  then show ?thesis using assms(2-4,6,7,11,12)
    by (simp add: withIdempotency_def replayed_def recorded_def reply_def)
qed

section \<open>A path that panics\<close>

text \<open>
  C40. An authenticated \<open>POST\<close> to a path of one character below \<open>/states/\<close> panics: the route slices the last
  ten bytes off a path of nine. Nothing else happens, and no response is sent.
\<close>

theorem short_state_path_panics:
  assumes "rq_Path rq = ''/states/'' @ [x]" "rq_Method rq = ''POST''"
    and "bearer_claims (me_jwt me) (me_secret me) (me_auth me) rq = Inr c"
  shows "serve env de me rq st = (None, st)"
proof -
  have "longest_match (rq_Path rq) (mux_routes env de me) = Some (''/states/'', authenticated me (state_route env))"
    unfolding assms(1) by (rule state_match)
  from serve_protected [OF this _ assms(3)] assms(1,2) show ?thesis by (simp add: state_route_def)
qed

section \<open>Incident reports\<close>

text \<open>
  No job that the reconciler creates is ever in an incident report: it carries no state identifier, and
  the report keeps the jobs of the state only.
\<close>

lemma incident_misses_reconciler_jobs:
  assumes "CaptureIncident fs now evs t i s = Inr (Some report)" "i \<noteq> []"
  shows "new_job je a cmd \<notin> set (ir_Jobs report)"
  using assms by (auto simp: CaptureIncident_def new_job_def zero_job_def split: sum.splits option.splits)

end
