(* ===== verification/HttpDemo.thy ===== *)
theory HttpDemo
  imports HttpBehaviour
begin

text \<open>
  A process over the memory store and a Redis map, with tokens of \<open>plain_jwt\<close> and bodies that are the bare
  identifiers, and the runs of it that instantiate the theorems on the HTTP surface.
\<close>

section \<open>The process\<close>

definition free_rate :: "(unit, unit) rate_api" where
  "free_rate = \<lparr>NewLimiter = (\<lambda>_ _. ()), Limiter_Allow = (\<lambda>_ _. (True, ())), Limiter_Reserve = (\<lambda>_ _. ((), ())),
     Reservation_Delay = (\<lambda>_ _. 0), Reservation_Cancel = (\<lambda>_ _ _. ())\<rparr>"

definition bare_json :: api_json where
  "bare_json =
     \<lparr>dec_agent = (\<lambda>s. Inr (zero_agent\<lparr>a_NodeID := s\<rparr>)),
      dec_job = (\<lambda>s. Inr (zero_job\<lparr>j_NodeID := s, j_Command := ''true''\<rparr>)),
      dec_state = (\<lambda>s. Inr (zero_state\<lparr>ds_NodeID := s\<rparr>)),
      dec_mode = Inr, dec_node = Inr,
      dec_job_result = (\<lambda>s. Inr \<lparr>jr_JobID = s, jr_Status = ''completed'', jr_Stdout = [], jr_Stderr = [], jr_ExitCode = 3\<rparr>),
      enc_strings = (\<lambda>kvs. snd (hd kvs)), enc_agents = (\<lambda>as. concat (map a_NodeID as)), enc_job = j_JobID,
      enc_jobs = (\<lambda>js. concat (map j_JobID js)), enc_state = ds_StateID,
      enc_states = (\<lambda>ds. concat (map ds_StateID ds)), enc_report = ir_StateID\<rparr>"

definition bare_entry :: entry_codec where
  "bare_entry =
     \<lparr>entry_json = (\<lambda>e. CHR ''{'' # ir_Body (ie_Resp e)),
      parse_entry = (\<lambda>s. Inr \<lparr>ie_Resp = \<lparr>ir_StatusCode = 202, ir_Body = tl s, ir_Headers = [''Content-Type'' \<mapsto> [''application/json'']]\<rparr>, ie_Timestamp = 0\<rparr>)\<rparr>"

definition demo_env :: "(memory_store, redis_map, unit, unit) api_env" where
  "demo_env =
     \<lparr>ae_store = memory_full (\<lambda>_. []) (\<lambda>_. []) (\<lambda>_. []), ae_rate = free_rate, ae_json = bare_json,
      ae_backend = redis_backend map_redis Delivered Delivered, ae_entry = bare_entry, ae_now = (\<lambda>k. 10 + int k),
      ae_submit = \<lparr>c_since = 1, c_opened = 1, c_submit = 1, c_enqueued = 1, c_less = (\<lambda>_. 1), c_record = 1\<rparr>,
      ae_random = Some (replicate 16 0xab), ae_jitter = 0, ae_lookup = 0, ae_saved = 0\<rparr>"

definition demo_dash :: dash_env where
  "demo_dash = \<lparr>de_getenv = (\<lambda>_. []), de_late = False, enc_metrics = (\<lambda>_. []), enc_clusters = (\<lambda>_. []),
     enc_snapshots = (\<lambda>_. []), enc_snapshot = (\<lambda>_. []), enc_replay = (\<lambda>_ _ _. [])\<rparr>"

definition demo_main :: main_env where
  "demo_main = \<lparr>me_jwt = plain_jwt, me_secret = ''s'', me_auth = 6000, me_metrics = (\<lambda>_ h. reply 200 [] h),
     me_stream = (\<lambda>_ h. reply 101 [] h), me_fallback = (\<lambda>_ h. http_Error ''404 page not found'' 404 h),
     me_snapshot = (\<lambda>_. [])\<rparr>"

definition demo_request :: "string \<Rightarrow> string \<Rightarrow> string \<Rightarrow> string \<Rightarrow> request" where
  "demo_request tenant method path body =
     \<lparr>rq_Method = method, rq_Path = path, rq_Query = (\<lambda>_. []),
      rq_Header = (\<lambda>k. if k = ''Authorization'' then ''Bearer '' @ GenerateToken plain_jwt ''s'' 5000 tenant ''ops'' else []),
      rq_Body = body, rq_Context = Map.empty\<rparr>"

definition demo_api :: "memory_store \<Rightarrow> (memory_store, redis_map, unit) api" where
  "demo_api s = NewAPI free_rate s (NewScheduler 0 1 DefaultSchedulerConfig) None (idem_NewStore (Some Map.empty))"

lemma demo_request_simps [simp]:
  "rq_Method (demo_request t m p b) = m" "rq_Path (demo_request t m p b) = p" "rq_Body (demo_request t m p b) = b"
  by (simp_all add: demo_request_def)

lemma demo_no_key [simp]: "rq_Header (demo_request t m p b) ''X-Flux-Idempotency-Key'' = []"
  by (simp add: demo_request_def)

lemma demo_token:
  assumes "CHR ''|'' \<notin> set t"
  shows "bearer_claims (me_jwt demo_main) (me_secret demo_main) (me_auth demo_main) (demo_request t m p b) =
    Inr (new_claims 5000 t ''ops'')"
proof -
  let ?tok = "GenerateToken plain_jwt ''s'' 5000 t ''ops''"
  have "parse_claims plain_jwt (claims_json plain_jwt (new_claims 5000 t ''ops'')) = Inr (new_claims 5000 t ''ops'')"
    using assms by (intro plain_jwt_claims) simp_all
  then have v: "ValidateToken plain_jwt ''s'' 6000 ?tok = Inr (new_claims 5000 t ''ops'')"
    by (subst issued_token) (simp_all add: int64_defs)
  have "CHR '' '' \<notin> set ?tok"
    using plain_no_space [OF base64UrlEncode_plain] by (simp add: GenerateToken_def Let_def computeHMAC_def)
  then have "split_on (CHR '' '') (''Bearer'' @ CHR '' '' # ?tok) = [''Bearer'', ?tok]"
    by (subst split_on_append) (simp_all add: split_on_none)
  then show ?thesis using v
    by (simp add: bearer_claims_def demo_request_def demo_main_def Let_def)
qed

lemma demo_refused: "bearer_claims (me_jwt demo_main) (me_secret demo_main) (me_auth demo_main)
    ((demo_request t m p b)\<lparr>rq_Header := (\<lambda>_. [])\<rparr>) = Inl ''Missing Authorization header''"
  by (simp add: bearer_claims_def)

lemma demo_store: "ae_store demo_env = memory_full (\<lambda>_. []) (\<lambda>_. []) (\<lambda>_. [])"
  by (simp add: demo_env_def)

section \<open>Witnesses\<close>

lemma demo_register:
  "serve demo_env demo_dash demo_main (demo_request ''acme'' ''POST'' ''/agent/register'' ''n1'') st =
   handleRegister demo_env ((demo_request ''acme'' ''POST'' ''/agent/register'' ''n1'')
     \<lparr>rq_Context := claims_context (new_claims 5000 ''acme'' ''ops'') Map.empty\<rparr>) (cors_headers Map.empty) st"
  by (subst serve_protected [where p = "''/agent/register''" and f = "handleRegister demo_env", OF _ _ demo_token])
    (simp_all add: route_tables, simp add: demo_request_def)

lemma demo_registered:
  "ms_GetAgent ''acme'' ''n1'' (ap_store (snd (serve demo_env demo_dash demo_main
     (demo_request ''acme'' ''POST'' ''/agent/register'' ''n1'') (demo_api NewMemoryStore)))) \<noteq> None"
  by (subst demo_register) (simp add: handleRegister_def demo_env_def bare_json_def memory_full_simps demo_api_def NewAPI_def
      registered_agent_def Let_def ms_UpsertAgent_def ms_GetAgent_def zero_agent_def)

theorem changes_need_a_token_witness:
  "\<exists>h p. rq_Header (demo_request ''acme'' ''POST'' ''/agent/register'' ''n1'') ''Authorization'' =
     ''Bearer '' @ h @ ''.'' @ p @ ''.'' @ computeHMAC plain_jwt (h @ ''.'' @ p) ''s''"
proof -
  have "snd (serve demo_env demo_dash demo_main (demo_request ''acme'' ''POST'' ''/agent/register'' ''n1'') (demo_api NewMemoryStore))
      \<noteq> demo_api NewMemoryStore"
  proof
    assume "snd (serve demo_env demo_dash demo_main (demo_request ''acme'' ''POST'' ''/agent/register'' ''n1'') (demo_api NewMemoryStore))
      = demo_api NewMemoryStore"
    moreover have "ms_GetAgent ''acme'' ''n1'' (ap_store (demo_api NewMemoryStore)) = None"
      by (simp add: demo_api_def NewAPI_def NewMemoryStore_def ms_GetAgent_def)
    ultimately show False using demo_registered by simp
  qed
  from changes_need_a_token [OF this] show ?thesis by (auto simp: demo_main_def)
qed

theorem anyone_can_freeze_witness:
  "\<exists>e. fst (Submit c t (ap_scheduler (snd (serve demo_env demo_dash demo_main
     ((demo_request [] ''POST'' ''/admin/admission-mode'' ''freeze'')\<lparr>rq_Header := (\<lambda>_. [])\<rparr>) (demo_api NewMemoryStore))))) = Inl e"
  by (rule anyone_can_freeze) (simp_all add: demo_env_def bare_json_def)

text \<open>A tenant registers a node; another tenant sees nothing of it.\<close>

definition demo_registration where
  "demo_registration = (demo_env, demo_dash, demo_main, demo_request ''acme'' ''POST'' ''/agent/register'' ''n1'')"



definition one_agent :: memory_store where
  "one_agent = ms_UpsertAgent ''acme'' (zero_agent\<lparr>a_NodeID := ''n1''\<rparr>) NewMemoryStore"

definition demo_job :: job where
  "demo_job = submitted_job (ae_now demo_env 0) (generateUUID (Some (replicate 16 0xab))) ''acme''
     (zero_job\<lparr>j_NodeID := ''n1'', j_Command := ''true''\<rparr>)"

lemma demo_submit:
  "serve demo_env demo_dash demo_main (demo_request ''acme'' ''POST'' ''/jobs'' ''n1'') st =
   handleSubmitJob demo_env ((demo_request ''acme'' ''POST'' ''/jobs'' ''n1'')
     \<lparr>rq_Context := claims_context (new_claims 5000 ''acme'' ''ops'') Map.empty\<rparr>) (cors_headers Map.empty) st"
  by (subst serve_protected [where p = "''/jobs''" and f = "jobs_route demo_env", OF _ _ demo_token])
    (simp_all add: route_tables, simp add: demo_request_def jobs_route_def withIdempotency_def)

lemma demo_submitted:
  "\<exists>r st1. serve demo_env demo_dash demo_main (demo_request ''acme'' ''POST'' ''/jobs'' ''n1'') (demo_api one_agent) = (Some r, st1) \<and>
     rp_Code r = StatusAccepted"
  by (subst demo_submit) (simp add: handleSubmitJob_def demo_env_def bare_json_def memory_full_simps one_agent_def
      demo_api_def NewAPI_def Let_def ms_UpsertAgent_def ms_GetAgent_def zero_agent_def json_reply_def encoded_def reply_def)


theorem short_state_path_panics_witness:
  "fst (serve demo_env demo_dash demo_main (demo_request ''acme'' ''POST'' ''/states/x'' []) (demo_api NewMemoryStore)) = None"
proof -
  have "bearer_claims (me_jwt demo_main) (me_secret demo_main) (me_auth demo_main) (demo_request ''acme'' ''POST'' ''/states/x'' []) =
      Inr (new_claims 5000 ''acme'' ''ops'')" by (rule demo_token) simp
  then have "serve demo_env demo_dash demo_main (demo_request ''acme'' ''POST'' ''/states/x'' []) (demo_api NewMemoryStore) =
      (None, demo_api NewMemoryStore)" by (intro short_state_path_panics [where x = "CHR ''x''"]) simp_all
  then show ?thesis by simp
qed

theorem reported_result_reaches_reconciler_witness:
  "fst (waitForJob memory_api
     (\<lambda>k s. if k = 4 then ap_store (snd (serve demo_env demo_dash demo_main
         (demo_request ''acme'' ''POST'' ''/jobs/result'' ''j1'') ((demo_api NewMemoryStore)\<lparr>ap_store := s\<rparr>))) else s)
     ''acme'' ''j1'' 0 60 (ms_CreateJob ''acme'' (zero_job\<lparr>j_JobID := ''j1'', j_Status := ''running''\<rparr>) NewMemoryStore)) = Inr 3"
proof -
  have tok: "bearer_claims (me_jwt demo_main) (me_secret demo_main) (me_auth demo_main)
      (demo_request ''acme'' ''POST'' ''/jobs/result'' ''j1'') = Inr (new_claims 5000 ''acme'' ''ops'')" by (rule demo_token) simp
  let ?s = "ms_CreateJob ''acme'' (zero_job\<lparr>j_JobID := ''j1'', j_Status := ''running''\<rparr>) NewMemoryStore"
  have j: "ms_GetJob ''acme'' ''j1'' ?s = Some (zero_job\<lparr>j_JobID := ''j1'', j_TenantID := ''acme'', j_Status := ''running''\<rparr>)"
    by (simp add: ms_CreateJob_def ms_GetJob_def zero_job_def Let_def)
  have dec: "dec_job_result (ae_json demo_env) (rq_Body (demo_request ''acme'' ''POST'' ''/jobs/result'' ''j1'')) =
      Inr \<lparr>jr_JobID = ''j1'', jr_Status = ''completed'', jr_Stdout = [], jr_Stderr = [], jr_ExitCode = 3\<rparr>"
    by (simp add: demo_env_def bare_json_def)
  from reported_result_reaches_reconciler [OF demo_store _ _ tok dec _ _ _ refl, of ?s _ 4 60] j
  show ?thesis by simp
qed

text \<open>Another tenant's request with the same key, to another route, gets the first tenant's job.\<close>

definition keyed :: "string \<Rightarrow> request" where
  "keyed tenant = \<lparr>rq_Method = ''POST'', rq_Path = ''/jobs'', rq_Query = (\<lambda>_. []), rq_Header = (\<lambda>_. ''k1''), rq_Body = ''n1'',
     rq_Context = claims_context (new_claims 5000 tenant ''ops'') Map.empty\<rparr>"

lemma keyed_first:
  "\<exists>st1. withIdempotency demo_env (handleSubmitJob demo_env) (keyed ''acme'') Map.empty (demo_api one_agent) =
     (Some (json_reply StatusAccepted (j_JobID demo_job) Map.empty), st1) \<and> id_backend (ap_idempotency st1) \<noteq> None"
proof -
  have none: "idem_Get (ae_backend demo_env) (ae_entry demo_env) (ae_lookup demo_env) ''k1'' (ap_idempotency (demo_api one_agent)) =
      (None, ap_idempotency (demo_api one_agent))"
    by (simp add: idem_Get_def demo_env_def redis_backend_def rs_Get_def map_redis_def map_get_def demo_api_def NewAPI_def
        idem_NewStore_def)
  have "\<exists>st2. handleSubmitJob demo_env (keyed ''acme'') Map.empty (demo_api one_agent) =
      (Some (json_reply StatusAccepted (j_JobID demo_job) Map.empty), st2) \<and> id_backend (ap_idempotency st2) \<noteq> None"
    by (simp add: handleSubmitJob_def keyed_def demo_env_def bare_json_def memory_full_simps one_agent_def spawn_def
      demo_api_def NewAPI_def Let_def ms_UpsertAgent_def ms_GetAgent_def zero_agent_def demo_job_def idem_NewStore_def)
  then obtain st2 where st2: "handleSubmitJob demo_env (keyed ''acme'') Map.empty (demo_api one_agent) =
      (Some (json_reply StatusAccepted (j_JobID demo_job) Map.empty), st2)" "id_backend (ap_idempotency st2) \<noteq> None"
    by (elim exE conjE)
  have "rq_Header (keyed ''acme'') ''X-Flux-Idempotency-Key'' = ''k1''" by (simp add: keyed_def)
  then show ?thesis using none st2 by (auto simp: withIdempotency_def idem_Set_def)
qed

theorem idempotency_key_decides_witness:
  "\<exists>st1. withIdempotency demo_env (handleCreateState demo_env) (keyed ''globex'') Map.empty st1 =
     (Some \<lparr>rp_Code = StatusAccepted,
        rp_Header = replay_headers [''Content-Type'' \<mapsto> [''application/json'']] Map.empty,
        rp_Body = j_JobID demo_job @ [CHR 0x0A]\<rparr>, st1)"
proof -
  let ?r = "json_reply StatusAccepted (j_JobID demo_job) Map.empty"
  from keyed_first obtain st1 where
    first: "withIdempotency demo_env (handleSubmitJob demo_env) (keyed ''acme'') Map.empty (demo_api one_agent) = (Some ?r, st1)"
      "id_backend (ap_idempotency st1) \<noteq> None" by (elim exE conjE)
  have none: "fst (idem_Get (ae_backend demo_env) (ae_entry demo_env) (ae_lookup demo_env) ''k1''
      (ap_idempotency (demo_api one_agent))) = None"
    by (simp add: idem_Get_def demo_env_def redis_backend_def rs_Get_def map_redis_def map_get_def demo_api_def NewAPI_def
        idem_NewStore_def)
  have r: "rp_Code ?r = 202" "rp_Header ?r = [''Content-Type'' \<mapsto> [''application/json'']]" "rp_Body ?r = j_JobID demo_job @ [CHR 0x0A]"
    by (simp_all add: json_reply_def encoded_def reply_def header_set_def StatusAccepted_def)
  have entry: "parse_entry (ae_entry demo_env) (entry_json (ae_entry demo_env) \<lparr>ie_Resp = recorded ?r, ie_Timestamp = ae_saved demo_env\<rparr>) =
      Inr \<lparr>ie_Resp = recorded ?r, ie_Timestamp = ae_saved demo_env\<rparr>"
    by (simp add: demo_env_def bare_entry_def recorded_def r)
  have body: "entry_json (ae_entry demo_env) \<lparr>ie_Resp = recorded ?r, ie_Timestamp = ae_saved demo_env\<rparr> \<noteq> []"
    by (simp add: demo_env_def bare_entry_def)
  have time: "ae_saved demo_env \<le> ae_lookup demo_env" "ae_lookup demo_env < ae_saved demo_env + 24 * hour"
    and be: "ae_backend demo_env = redis_backend map_redis Delivered Delivered" by (simp_all add: demo_env_def)
  have key: "rq_Header (keyed ''acme'') ''X-Flux-Idempotency-Key'' = ''k1''"
    "rq_Header (keyed ''globex'') ''X-Flux-Idempotency-Key'' = ''k1''" by (simp_all add: keyed_def)
  have code: "''k1'' \<noteq> []" "100 \<le> rp_Code ?r" "rp_Code ?r \<le> 999" by (simp_all only: r, simp_all)
  have "withIdempotency demo_env (handleCreateState demo_env) (keyed ''globex'') Map.empty st1 =
    (Some \<lparr>rp_Code = rp_Code ?r, rp_Header = replay_headers (rp_Header ?r) Map.empty, rp_Body = rp_Body ?r\<rparr>, st1)"
    by (rule idempotency_key_decides [where rq' = "keyed ''globex''" and h' = Map.empty and env' = demo_env
        and inner' = "handleCreateState demo_env", OF map_redis.redis_server_axioms be refl refl key(1) code(1) key(2)
        none first code(2,3) entry body time])
  then show ?thesis unfolding r by (intro exI [of _ st1]) (simp only: StatusAccepted_def)
qed

end
