(* ===== verification/ReconcileStore.thy ===== *)
theory ReconcileStore
  imports Reconciliation
begin

text \<open>
  What a successful reconciliation leaves in the memory store, while agents, clients and the dispatcher write
  to the store at the same time but leave the record of the state alone (\<open>spares\<close>).
\<close>

definition spares :: "string \<Rightarrow> memory_store job_env \<Rightarrow> bool" where
  "spares key je \<longleftrightarrow>
     (\<forall>s. ms_states (je_before_update je s) key = ms_states s key) \<and>
     (\<forall>k s. ms_states (je_world je k s) key = ms_states s key)"

definition state_key :: "desired_state \<Rightarrow> string" where
  "state_key st = TenantKey (ds_TenantID st) ResourceState (ds_StateID st)"

text \<open>A record without what \<open>UpdateStateStatus\<close> writes.\<close>

definition bare :: "desired_state \<Rightarrow> desired_state" where
  "bare st = st\<lparr>ds_Status := [], ds_LastError := [], ds_LastChecked := 0\<rparr>"

definition held :: "desired_state \<Rightarrow> memory_store \<Rightarrow> bool" where
  "held st s \<longleftrightarrow> (\<exists>row. ms_states s (state_key st) = Some row \<and> bare row = bare st)"

lemma bare_upd [simp]:
  "bare (st\<lparr>ds_Status := x\<rparr>) = bare st" "bare (st\<lparr>ds_LastError := x\<rparr>) = bare st"
  "bare (st\<lparr>ds_LastChecked := c\<rparr>) = bare st"
  by (simp_all add: bare_def)

lemma state_key_upd [simp]:
  "state_key (st\<lparr>ds_Status := x\<rparr>) = state_key st" "state_key (st\<lparr>ds_LastError := x\<rparr>) = state_key st"
  "state_key (st\<lparr>ds_LastChecked := c\<rparr>) = state_key st"
  by (simp_all add: state_key_def)

lemma held_upd [simp]:
  "held (st\<lparr>ds_Status := x\<rparr>) s = held st s" "held (st\<lparr>ds_LastError := x\<rparr>) s = held st s"
  "held (st\<lparr>ds_LastChecked := c\<rparr>) s = held st s"
  by (simp_all add: held_def)

lemma bare_eqD:
  assumes "bare row = bare st"
  shows "row\<lparr>ds_Status := x, ds_LastError := y, ds_LastChecked := c\<rparr> = st\<lparr>ds_Status := x, ds_LastError := y, ds_LastChecked := c\<rparr>"
    and "ds_Version row = ds_Version st"
proof -
  have "(bare row)\<lparr>ds_Status := x, ds_LastError := y, ds_LastChecked := c\<rparr> =
      (bare st)\<lparr>ds_Status := x, ds_LastError := y, ds_LastChecked := c\<rparr>" by (simp only: assms)
  then show "row\<lparr>ds_Status := x, ds_LastError := y, ds_LastChecked := c\<rparr> = st\<lparr>ds_Status := x, ds_LastError := y, ds_LastChecked := c\<rparr>"
    by (simp add: bare_def)
  have "ds_Version (bare row) = ds_Version (bare st)" by (simp only: assms)
  then show "ds_Version row = ds_Version st" by (simp add: bare_def)
qed

section \<open>Jobs leave the state alone\<close>

lemma waitForJob_states:
  "(\<And>k s. ms_states (world k s) key = ms_states s key) \<Longrightarrow>
   ms_states (snd (waitForJob memory_api world t i k polls s)) key = ms_states s key"
  by (induction polls arbitrary: k s) (auto simp: memory_api_def Let_def split: option.split)

lemma executeJob_states:
  assumes "spares key je" "executeJob memory_api je a c rc = (res, rc')"
  shows "ms_states (rc_store rc') key = ms_states (rc_store rc) key"
proof -
  have job: "ms_states (ms_CreateJob t j s) k = ms_states s k"
      "ms_states (snd (ms_UpdateJobStatus now t i status code out err s)) k = ms_states s k"
    for t j s k now i status code out err
    by (simp_all add: ms_CreateJob_def ms_UpdateJobStatus_def Let_def split: option.split)
  have disp: "ms_states (DispatchJob memory_api je j s) key = ms_states s key" for j s
    using assms(1) by (simp add: DispatchJob_def memory_api_def error_of_def job spares_def split_beta Let_def)
  have "rc_store rc' = snd (waitForJob memory_api (je_world je) (a_TenantID a) (j_JobID (new_job je a c)) 0 (je_polls je)
      (DispatchJob memory_api je (new_job je a c) (ms_CreateJob (a_TenantID a) (new_job je a c) (rc_store rc))))"
    using assms(2) by (auto simp: executeJob_def Let_def memory_api_def split: prod.splits)
  then show ?thesis
    using assms(1) by (simp add: waitForJob_states spares_def disp job)
qed

lemma updateStatus_stored:
  assumes "held st (rc_store rc)" "updateStatus memory_api status e st rc = (st', rc')"
  shows "ms_states (rc_store rc') (state_key st) = Some st' \<and> st' = st\<lparr>ds_Status := status, ds_LastError := e\<rparr>"
proof -
  from assms(1) obtain row where row: "ms_states (rc_store rc) (state_key st) = Some row" "bare row = bare st"
    unfolding held_def by blast
  let ?row = "row\<lparr>ds_Status := status, ds_LastError := e, ds_LastChecked := ds_LastChecked st\<rparr>"
  have "?row = st\<lparr>ds_Status := status, ds_LastError := e, ds_LastChecked := ds_LastChecked st\<rparr>"
    by (rule bare_eqD(1) [OF row(2)])
  then have r: "?row = st\<lparr>ds_Status := status, ds_LastError := e\<rparr>" by simp
  have st': "st' = st\<lparr>ds_Status := status, ds_LastError := e\<rparr>"
    using arg_cong [OF assms(2), of fst] by simp
  have "ms_UpdateStateStatus (ds_TenantID st) (ds_StateID st) status e (ds_LastChecked st) (ds_Version st) (rc_store rc) =
      (Inr (), rc_store rc\<lparr>ms_states := (ms_states (rc_store rc))(state_key st \<mapsto> ?row)\<rparr>)"
    using row bare_eqD(2) [OF row(2)] by (simp add: ms_UpdateStateStatus_def state_key_def Let_def)
  then have "rc_store rc' = rc_store rc\<lparr>ms_states := (ms_states (rc_store rc))(state_key st \<mapsto> ?row)\<rparr>"
    using assms(2) by (auto simp: updateStatus_def Let_def memory_api_def error_of_def split: if_splits)
  then show ?thesis using st' r by simp
qed

lemma held_stored: "ms_states s (state_key st) = Some st \<Longrightarrow> held st s"
  by (simp add: held_def)

lemma held_states: "held st s \<Longrightarrow> ms_states s' (state_key st) = ms_states s (state_key st) \<Longrightarrow> held st s'"
  by (simp add: held_def)

section \<open>Success is recorded\<close>

lemma reconcile_locked_stored:
  assumes "reconcile_locked memory_api re st rc = (None, rc')" "held st (rc_store rc)"
    and "spares (state_key st) (re_check re)" "spares (state_key st) (re_apply re)" "spares (state_key st) (re_final re)"
  shows "ms_states (rc_store rc') (state_key st) =
    Some (st\<lparr>ds_Status := ''compliant'', ds_LastError := [], ds_LastChecked := re_verified re\<rparr>)"
proof (cases rule: reconcile_locked_cases [where sa = memory_api and re = re and st = st and rc = rc])
  case early
  then show ?thesis using assms(1) by simp
next
  case (agent a)
  obtain drift st1 rc1 where c: "runCheck memory_api (re_check re) (re_checked re) a st rc = (drift, st1, rc1)"
    by (metis prod_cases3)
  obtain ok st2 rc2 where ap: "runApply memory_api (re_apply re) a st1 rc1 = (ok, st2, rc2)" by (metis prod_cases3)
  obtain st3 rc3 where fc: "runFinalCheck memory_api (re_final re) (re_verified re) a st2 rc2 = (st3, rc3)" by fastforce
  have good: drift ok "ds_Status st3 \<noteq> ''failed''" "rc' = rc3"
    using assms(1) by (auto simp: agent(1) c ap fc split: if_splits option.splits)
  have h1: "ms_states (rc_store rc1) (state_key st) = Some st1 \<and> (\<exists>e. st1 = st\<lparr>ds_LastChecked := re_checked re, ds_Status := ''drifted'', ds_LastError := e\<rparr>)"
  proof -
    have "runCheck memory_api (re_check re) (re_checked re) a st rc = (True, st1, rc1)" using c good(1) by simp
    from runCheck_drift [OF this] obtain code rcx where x: "executeJob memory_api (re_check re) a (ds_CheckCmd st) rc = (Inr code, rcx)"
      "code \<noteq> ds_DesiredExitCode st" by blast
    obtain e where "updateStatus memory_api ''drifted'' e (st\<lparr>ds_LastChecked := re_checked re\<rparr>) rcx = (st1, rc1)"
      using c x by (auto simp: runCheck_def Let_def)
    from updateStatus_stored [OF _ this] held_states [OF assms(2) executeJob_states [OF assms(3) x(1)]]
    show ?thesis by auto
  qed
  then obtain e1 where st1: "st1 = st\<lparr>ds_LastChecked := re_checked re, ds_Status := ''drifted'', ds_LastError := e1\<rparr>" by blast
  have h2: "ms_states (rc_store rc2) (state_key st) = Some st2 \<and> st2 = st1\<lparr>ds_Status := ''applying'', ds_LastError := []\<rparr>"
  proof -
    obtain stx rcx where u: "updateStatus memory_api ''applying'' [] st1 rc1 = (stx, rcx)" by fastforce
    have "held st1 (rc_store rc1)" using h1 by (simp add: held_def st1)
    from updateStatus_stored [OF this u] have s: "ms_states (rc_store rcx) (state_key st) = Some stx"
        "stx = st1\<lparr>ds_Status := ''applying'', ds_LastError := []\<rparr>" by (simp_all add: st1)
    have "st2 = stx \<and> (rc2 = rcx \<or> (\<exists>res. executeJob memory_api (re_apply re) a (ds_ApplyCmd stx) rcx = (res, rc2)))"
      using ap good(2) by (auto simp: runApply_def u split: if_splits prod.splits sum.splits)
    then show ?thesis using s executeJob_states [OF assms(4)] by auto
  qed
  from runFinalCheck_success [OF fc good(3)] obtain rcf where
    f: "executeJob memory_api (re_final re) a (ds_CheckCmd st2) rc2 = (Inr (ds_DesiredExitCode st2), rcf)" by blast
  have u: "updateStatus memory_api ''compliant'' [] (st2\<lparr>ds_LastChecked := re_verified re\<rparr>) rcf = (st3, rc3)"
    using fc f by (simp add: runFinalCheck_def Let_def)
  have k: "state_key st2 = state_key st" using h2 by (simp add: st1)
  have "ms_states (rc_store rc2) (state_key st2) = Some st2" unfolding k using h2 by blast
  then have "held st2 (rc_store rc2)" by (rule held_stored)
  then have "held (st2\<lparr>ds_LastChecked := re_verified re\<rparr>) (rc_store rcf)"
    using held_states [of st2] executeJob_states [OF assms(5) f] by (simp add: k)
  from updateStatus_stored [OF this u] show ?thesis using h2 good(4) by (simp add: k st1)
qed

lemma reconcile_stored:
  assumes "Reconcile memory_api re t i rc = (None, rc')" "ms_GetState t i (rc_store rc) = Some st"
    and "ds_TenantID st = t" "ds_StateID st = i" "\<not> IsAgentBusy (ds_NodeID st) rc"
    and "spares (state_key st) (re_check re)" "spares (state_key st) (re_apply re)" "spares (state_key st) (re_final re)"
  shows "ms_GetState t i (rc_store rc') =
    Some (st\<lparr>ds_Status := ''compliant'', ds_LastError := [], ds_LastChecked := re_verified re\<rparr>)"
proof (cases rule: Reconcile_cases [where sa = memory_api and re = re and t = t and i = i and rc = rc])
  case idle
  then show ?thesis using assms(1,2,5) by (simp add: memory_api_def)
next
  case (started st' rc1 res rc2)
  then have e: "st' = st" "res = None" "rc' = releaseLock (ds_NodeID st) rc2" using assms(1,2) by (simp_all add: memory_api_def)
  have "held st (rc_store rc1)"
    using assms(2-4) started(3) by (intro held_stored) (simp add: ms_GetState_def state_key_def)
  from reconcile_locked_stored [OF _ this assms(6-8)] started(4) show ?thesis
    by (simp add: e ms_GetState_def state_key_def assms(3,4) releaseLock_def)
qed

end
