(* ===== verification/EndToEnd.thy ===== *)
theory EndToEnd
  imports HttpDemo ReconcileStore Admission Quarantine
begin

text \<open>
  The program as a whole over the memory store: a request to reconcile a state goes through the routes, the
  middleware, the handler and the scheduler's gates into the queue; the worker takes it and hands it to the
  reconciler, whose three jobs go through the dispatcher and the store; the outcome is what the API then shows.
\<close>

section \<open>One task through the scheduler\<close>

lemma finish_released: "activeTasks (finish_task now t r s) = activeTasks s - 1" "queue (finish_task now t r s) = queue s"
  by (simp_all add: finish_task_def release_task_def Let_def split: task_end.split)

lemma dispatched_started:
  assumes "dispatch rate dc t s = (Dispatched t', s')"
  shows "t' = t \<and> activeTasks s' = activeTasks s + 1 \<and> queue s' = queue s"
  using assms by (auto simp: dispatch_def start_task_def Let_def split: if_splits prod.splits)

lemma only_task_dispatched:
  assumes "Submit c t s = (Inr t1, s1)" "q_Len (queue s) = 0" "processNextTask rate dc s1 = (Dispatched t', s2)"
  shows "t' = stamped c t \<and> activeTasks s2 = activeTasks s + 1 \<and> q_Len (queue s2) = 0"
proof (cases c t s rule: Submit_cases)
  case (rejected e s' cb)
  then show ?thesis using assms(1) by simp
next
  case (accepted s' cb)
  then have s1: "s1 = submit_enqueue c (stamped c t) s'" "activeTasks s1 = activeTasks s" "queue s' = queue s"
    using assms(1) by (simp_all add: submit_enqueue_def)
  have "q_items (queue s) = {#}" using assms(2) by (simp add: q_Len_items)
  then have one: "q_items (queue s1) = {#stamped c t#}" by (simp add: s1 submit_enqueue_def)
  then have ne: "q_Len (queue s1) \<noteq> 0" by (simp add: q_Len_items)
  obtain u q where p: "q_Pop (d_less dc) (queue s1) = (Some u, q)"
    using one by (cases "q_Pop (d_less dc) (queue s1)"; cases "fst (q_Pop (d_less dc) (queue s1))") (auto simp: q_Pop_None)
  from q_Pop_Some(1) [OF p] one have u: "u = stamped c t" "q_items q = {#}" by simp_all
  have "dispatch rate dc u (s1\<lparr>queue := q\<rparr>) = (Dispatched t', s2)"
    using assms(3) ne by (simp add: processNextTask_def p)
  from dispatched_started [OF this] show ?thesis using u s1 by (simp add: q_Len_items)
qed

section \<open>The two requests\<close>

lemma accepted_reconcile:
  assumes "ae_store env = memory_full oa oj os" "ms_GetState (cl_TenantID c) i (ap_store st) = Some ds"
    and "rq_Path rq = ''/states/'' @ i @ ''/reconcile''" "CHR ''/'' \<notin> set i" "rq_Method rq = ''POST''"
    and "rq_Header rq ''X-Flux-Idempotency-Key'' = []"
    and "bearer_claims (me_jwt me) (me_secret me) (me_auth me) rq = Inr c"
    and "serve env de me rq st = (Some r, st1)" "rp_Code r = StatusAccepted"
  shows "\<exists>t t1 sched. Submit (ae_submit env) t (ap_scheduler st) = (Inr t1, sched) \<and> ap_scheduler st1 = sched \<and>
    ap_store st1 = ap_store st \<and> t_TenantID t = cl_TenantID c \<and> t_StateID t = i"
proof -
  let ?h = "cors_headers Map.empty" and ?rq = "rq\<lparr>rq_Context := claims_context c (rq_Context rq)\<rparr>"
  let ?T = "reconcile_task (ae_now env 1) (generateUUID (ae_random env)) (ds_NodeID ds) (cl_TenantID c) i"
  have "longest_match (rq_Path rq) (mux_routes env de me) = Some (''/states/'', authenticated me (state_route env))"
    unfolding assms(3) by (rule state_match)
  from serve_protected [OF this _ assms(7)] assms(5)
  have "serve env de me rq st = state_route env ?rq ?h st" by simp
  also have "\<dots> = handleReconcileState env ?rq ?h st"
    using assms(3,5,6) by (simp add: state_route_def withIdempotency_def)
  finally have h: "handleReconcileState env ?rq ?h st = (Some r, st1)" using assms(8) by simp
  have parts: "split_on (CHR ''/'') (rq_Path rq) = [[], ''states'', i, ''reconcile'']"
    unfolding assms(3) using split_on_append [OF assms(4), of "''reconcile''"] by simp
  obtain t1 sched where s: "Submit (ae_submit env) ?T (ap_scheduler st) = (Inr t1, sched)"
      "ap_scheduler st1 = sched" "ap_store st1 = ap_store st"
    using h assms(1,2,9)
    by (auto simp: handleReconcileState_def parts memory_full_simps Let_def writeRateLimitError_def http_Error_def
        StatusAccepted_def split: if_splits prod.splits sum.splits submit_error.splits)
  show ?thesis
    by (rule exI [of _ ?T], rule exI [of _ t1], rule exI [of _ sched]) (use s in \<open>simp add: reconcile_task_def\<close>)
qed

lemma shown_state:
  assumes "ae_store env = memory_full oa oj os" "ms_GetState (cl_TenantID c) i (ap_store st) = Some ds"
    and "rq_Path rq = ''/states/'' @ i" "CHR ''/'' \<notin> set i" "rq_Method rq = ''GET''"
    and "bearer_claims (me_jwt me) (me_secret me) (me_auth me) rq = Inr c"
  shows "serve env de me rq st = (Some (json_reply StatusOK (enc_state (ae_json env) ds) (cors_headers Map.empty)), st)"
proof -
  let ?rq = "rq\<lparr>rq_Context := claims_context c (rq_Context rq)\<rparr>"
  have "longest_match (rq_Path rq) (mux_routes env de me) = Some (''/states/'', authenticated me (state_route env))"
    unfolding assms(3) by (rule state_match)
  from serve_protected [OF this _ assms(6)] assms(5)
  have "serve env de me rq st = state_route env ?rq (cors_headers Map.empty) st" by simp
  also have "\<dots> = handleGetState env ?rq (cors_headers Map.empty) st"
    using assms(5) by (simp add: state_route_def)
  also have "split_on (CHR ''/'') (rq_Path rq) = [[], ''states'', i]"
    unfolding assms(3) using split_on_none [OF assms(4)] by simp
  then have "handleGetState env ?rq (cors_headers Map.empty) st =
      (Some (json_reply StatusOK (enc_state (ae_json env) ds) (cors_headers Map.empty)), st)"
    using assms(1,2) by (simp add: handleGetState_def memory_full_simps)
  finally show ?thesis .
qed

section \<open>The property\<close>


section \<open>A run\<close>

definition demo_ready :: "(memory_store, redis_map, unit) api" where
  "demo_ready = (demo_api one_state)\<lparr>ap_scheduler := started 0 1\<rparr>"

definition status_env :: "(memory_store, redis_map, unit, unit) api_env" where
  "status_env = demo_env\<lparr>ae_json := bare_json\<lparr>enc_state := ds_Status\<rparr>\<rparr>"

definition demo_state :: desired_state where
  "demo_state = zero_state\<lparr>ds_StateID := ''s'', ds_NodeID := ''n'', ds_CheckCmd := ''c'', ds_ApplyCmd := ''x'',
     ds_DesiredExitCode := 0, ds_TenantID := ''a''\<rparr>"

lemma demo_state_found: "ms_GetState ''a'' ''s'' one_state = Some demo_state"
  using one_state_found by (simp add: memory_api_def demo_state_def)

lemma ready_accepts: "\<exists>t1 s1. Submit (submit_at 1) t (started 0 1) = (Inr t1, s1)"
proof -
  have "(started 0 1)\<lparr>shardCount := 1\<rparr> = started 0 1" by (simp add: started_def Start_def NewScheduler_def)
  then have "accepts (submit_at 1) t (started 0 1)" using started_accepts [of 1 t 0 1] by simp
  then show ?thesis unfolding accepts_def by (cases "Submit (submit_at 1) t (started 0 1)") (auto split: sum.splits)
qed

lemma ready_dispatches:
  assumes "Submit c t (started 0 1) = (Inr t1, s1)" "t_FailureDomain t = []"
  shows "\<exists>s2. processNextTask free_rate one_clock s1 = (Dispatched t1, s2)"
proof (cases c t "started 0 1" rule: Submit_cases)
  case (rejected e s' cb)
  then show ?thesis using assms(1) by simp
next
  case (accepted s' cb)
  then have s1: "t1 = stamped c t" "s1 = submit_enqueue c (stamped c t) s'" using assms(1) by simp_all
  have "queue s1 = \<lparr>pq = [stamped c t]\<rparr>" "nodeHealth s1 = Map.empty" "activeTasks s1 = 0"
    using accepted(2) by (simp_all add: s1 submit_enqueue_def started_def Start_def NewScheduler_def NewThreadSafeQueue_def
        q_Push_def heap_push_def heap_up.simps)
  moreover have "q_Pop clk \<lparr>pq = [stamped c t]\<rparr> = (Some (stamped c t), \<lparr>pq = []\<rparr>)" for clk
    by (simp add: q_Pop_def heap_pop_def heap_down.simps swap_def)
  ultimately show ?thesis using assms(2)
    by (simp add: processNextTask_def q_Len_def dispatch_def quarantined_def free_rate_def one_clock_def
        tb_Reserve_def Let_def stamped_def split_beta s1(1))
qed

lemma demo_reconcile:
  "\<exists>r st1. serve demo_env demo_dash demo_main (demo_request ''a'' ''POST'' ''/states/s/reconcile'' []) demo_ready = (Some r, st1) \<and>
     rp_Code r = StatusAccepted \<and> ap_store st1 = one_state \<and>
     (\<exists>t1 s2. processNextTask (ae_rate demo_env) one_clock (ap_scheduler st1) = (Dispatched t1, s2) \<and>
        t_TenantID t1 = ''a'' \<and> t_StateID t1 = ''s'')"
proof -
  let ?rq = "demo_request ''a'' ''POST'' ''/states/s/reconcile'' []"
  let ?rq' = "?rq\<lparr>rq_Context := claims_context (new_claims 5000 ''a'' ''ops'') Map.empty\<rparr>"
  let ?T = "reconcile_task (ae_now demo_env 1) (generateUUID (ae_random demo_env)) ''n'' ''a'' ''s''"
  obtain t1 s1 where s: "Submit (submit_at 1) ?T (started 0 1) = (Inr t1, s1)" using ready_accepts by blast
  then have t1: "t1 = stamped (submit_at 1) ?T"
    by (cases "submit_at 1" ?T "started 0 1" rule: Submit_cases) simp_all
  obtain s2 where d: "processNextTask free_rate one_clock s1 = (Dispatched t1, s2)"
    using ready_dispatches [OF s] by (auto simp: reconcile_task_def)
  have sub: "ae_submit demo_env = submit_at 1" "ae_rate demo_env = free_rate" by (simp_all add: demo_env_def submit_at_def)
  have tok: "bearer_claims (me_jwt demo_main) (me_secret demo_main) (me_auth demo_main) ?rq = Inr (new_claims 5000 ''a'' ''ops'')"
    by (rule demo_token) simp
  have "serve demo_env demo_dash demo_main ?rq demo_ready = handleReconcileState demo_env ?rq' (cors_headers Map.empty) demo_ready"
    using state_match [of "''s/reconcile''" demo_env demo_dash demo_main]
    by (subst serve_protected [where p = "''/states/''" and f = "state_route demo_env", OF _ _ tok])
      (simp_all, simp add: demo_request_def state_route_def withIdempotency_def)
  moreover have "\<exists>r st1. handleReconcileState demo_env ?rq' (cors_headers Map.empty) demo_ready = (Some r, st1) \<and>
      rp_Code r = StatusAccepted \<and> ap_store st1 = one_state \<and> ap_scheduler st1 = s1"
    using s demo_state_found
    by (simp add: handleReconcileState_def demo_store memory_full_simps demo_ready_def demo_api_def NewAPI_def sub free_rate_def
        demo_state_def encoded_def reply_def Let_def)
  ultimately show ?thesis using d t1 by (auto simp: sub reconcile_task_def stamped_def)
qed


end
