(* ===== verification/Leadership.thy ===== *)
theory Leadership
  imports Routes Admission
begin

text \<open>
  A node as \<open>main\<close> puts it together: the election loop drives the scheduler through its two callbacks.
  \<open>onLost\<close> runs in the loop itself, after the elector's lock is released; \<open>onElected\<close> runs in a goroutine of its
  own, which activates the scheduler, lists the pending states and submits them, and starts the worker under the
  context of the term. A term is one election; its context is cancelled by \<open>stepDown\<close>. A worker polls until it
  sees its context cancelled, which may be later.

  \<open>nd_entered\<close> and \<open>nd_listing\<close> are the goroutines of \<open>onElected\<close> before the activation and before \<open>Start\<close>;
  \<open>nd_stopping\<close> says that the loop has stepped down and not yet called \<open>Stop\<close>. The submissions of
  \<open>RehydrateQueue\<close> are \<open>submit\<close> steps like those of the API.
\<close>

record 'l node =
  nd_elector :: elector
  nd_term :: nat
  nd_cancelled :: "nat set"
  nd_stopping :: bool
  nd_entered :: "nat set"
  nd_listing :: "nat set"
  nd_workers :: "nat set"
  nd_sched :: "'l scheduler"

definition node_start :: "elector \<Rightarrow> 'l scheduler \<Rightarrow> 'l node" where
  "node_start el s =
     \<lparr>nd_elector = el, nd_term = 0, nd_cancelled = {}, nd_stopping = False, nd_entered = {}, nd_listing = {},
      nd_workers = {}, nd_sched = s\<rparr>"

inductive node_step :: "('l, 'r) rate_api \<Rightarrow> 'l node \<Rightarrow> 'l node \<Rightarrow> bool" for rate where
  elect: "\<not> el_isLeader (nd_elector n) \<Longrightarrow> \<not> nd_stopping n \<Longrightarrow>
     node_step rate n (n\<lparr>nd_elector := becomeLeader ((nd_elector n)\<lparr>el_currentEpoch := e\<rparr>),
       nd_term := Suc (nd_term n), nd_entered := insert (Suc (nd_term n)) (nd_entered n)\<rparr>)"
| activate: "t \<in> nd_entered n \<Longrightarrow>
     node_step rate n (n\<lparr>nd_sched := (nd_sched n)\<lparr>active := True\<rparr>, nd_entered := nd_entered n - {t},
       nd_listing := insert t (nd_listing n)\<rparr>)"
| start: "t \<in> nd_listing n \<Longrightarrow>
     node_step rate n (n\<lparr>nd_sched := Start (nd_sched n), nd_listing := nd_listing n - {t},
       nd_workers := insert t (nd_workers n)\<rparr>)"
| lose: "el_isLeader (nd_elector n) \<Longrightarrow>
     node_step rate n (n\<lparr>nd_elector := stepDown now (nd_elector n), nd_cancelled := insert (nd_term n) (nd_cancelled n),
       nd_stopping := True\<rparr>)"
| stop: "nd_stopping n \<Longrightarrow> node_step rate n (n\<lparr>nd_sched := on_lost (nd_sched n), nd_stopping := False\<rparr>)"
| submit: "node_step rate n (n\<lparr>nd_sched := snd (Submit c t (nd_sched n))\<rparr>)"
| work: "t \<in> nd_workers n \<Longrightarrow> node_step rate n (n\<lparr>nd_sched := snd (processNextTask rate dc (nd_sched n))\<rparr>)"
| quit: "t \<in> nd_workers n \<Longrightarrow> t \<in> nd_cancelled n \<Longrightarrow> node_step rate n (n\<lparr>nd_workers := nd_workers n - {t}\<rparr>)"

inductive node_steps :: "('l, 'r) rate_api \<Rightarrow> 'l node \<Rightarrow> 'l node \<Rightarrow> bool" for rate n0 where
  here: "node_steps rate n0 n0"
| more: "node_steps rate n0 n \<Longrightarrow> node_step rate n n' \<Longrightarrow> node_steps rate n0 n'"

section \<open>Workers and leadership\<close>

definition term_inv :: "'l node \<Rightarrow> bool" where
  "term_inv n \<longleftrightarrow>
     nd_entered n \<union> nd_listing n \<union> nd_workers n \<subseteq> {1..nd_term n} \<and>
     {1..nd_term n} - nd_cancelled n \<subseteq> (if el_isLeader (nd_elector n) then {nd_term n} else {})"

lemma elector_flags [simp]: "el_isLeader (becomeLeader el)" "\<not> el_isLeader (stepDown now el)"
  by (simp_all add: becomeLeader_def stepDown_def)

lemma term_inv_step: "node_step rate n n' \<Longrightarrow> term_inv n \<Longrightarrow> term_inv n'"
proof (induction rule: node_step.induct)
  case (elect n e)
  then have "{1..nd_term n} - nd_cancelled n = {}" by (simp add: term_inv_def)
  moreover have "{1..Suc (nd_term n)} = insert (Suc (nd_term n)) {1..nd_term n}" by auto
  ultimately show ?case using elect by (auto simp: term_inv_def)
next
  case (lose n now)
  then show ?case by (auto simp: term_inv_def)
qed (auto simp: term_inv_def)

lemma term_inv_steps: "node_steps rate n n' \<Longrightarrow> term_inv n \<Longrightarrow> term_inv n'"
  by (induction rule: node_steps.induct) (auto intro: term_inv_step)

section \<open>A late start\<close>

lemmas node_stepI = node_steps.here node_steps.more [OF node_steps.here]

lemma node_steps_trans: "node_steps rate b c \<Longrightarrow> node_steps rate a b \<Longrightarrow> node_steps rate a c"
  by (induction rule: node_steps.induct) (auto intro: node_steps.more)

text \<open>A follower without any goroutine left that is not yet elected again.\<close>

definition at_rest :: "'l node \<Rightarrow> bool" where
  "at_rest n \<longleftrightarrow> \<not> el_isLeader (nd_elector n) \<and> \<not> nd_stopping n \<and> nd_entered n = {} \<and> nd_listing n = {} \<and> nd_workers n = {}"

lemma term_grows: "node_steps rate n n' \<Longrightarrow> nd_term n \<le> nd_term n'"
proof (induction rule: node_steps.induct)
  case (more n n')
  from more.hyps(2) have "nd_term n \<le> nd_term n'" by (induction rule: node_step.induct) simp_all
  then show ?case using more.IH by simp
qed simp

lemma Submit_keeps_queue: "q_items (queue s) \<subseteq># q_items (queue (snd (Submit c t s)))"
  by (cases c t s rule: Submit_cases) (simp_all add: submit_enqueue_def)

lemma rest_step:
  assumes "node_step rate n n'" "at_rest n" "nd_term n' = nd_term n"
  shows "at_rest n' \<and> q_items (queue (nd_sched n)) \<subseteq># q_items (queue (nd_sched n'))"
  using assms by (induction rule: node_step.induct) (simp_all add: at_rest_def Submit_keeps_queue)

lemma rest_steps:
  assumes "node_steps rate n n'" "at_rest n" "nd_term n' = nd_term n"
  shows "at_rest n' \<and> q_items (queue (nd_sched n)) \<subseteq># q_items (queue (nd_sched n'))"
  using assms
proof (induction rule: node_steps.induct)
  case (more m m')
  have "nd_term n \<le> nd_term m" by (rule term_grows [OF more.hyps(1)])
  moreover have "nd_term m \<le> nd_term m'" by (rule term_grows [OF node_steps.more [OF node_steps.here more.hyps(2)]])
  ultimately have e: "nd_term m = nd_term n" "nd_term m' = nd_term m" using more.prems(2) by simp_all
  from more.IH [OF more.prems(1) e(1)] rest_step [OF more.hyps(2) _ e(2)] show ?case
    using subset_mset.order_trans by blast
qed simp

text \<open>The election is lost before the goroutine of the callback has activated the scheduler.\<close>

lemma late_start:
  assumes "el_isLeader (nd_elector n)" "nd_term n \<in> nd_entered n"
  shows "\<exists>n'. node_steps rate n n' \<and> \<not> el_isLeader (nd_elector n') \<and> \<not> nd_stopping n' \<and> active (nd_sched n') \<and>
    nd_term n' = nd_term n \<and> queue (nd_sched n') = NewThreadSafeQueue \<and>
    nd_entered n' = nd_entered n - {nd_term n} \<and> nd_listing n' = nd_listing n - {nd_term n} \<and>
    nd_workers n' = nd_workers n - {nd_term n}"
proof -
  let ?t = "nd_term n"
  define a where "a = n\<lparr>nd_elector := stepDown 0 (nd_elector n), nd_cancelled := insert ?t (nd_cancelled n), nd_stopping := True\<rparr>"
  define b where "b = a\<lparr>nd_sched := on_lost (nd_sched a), nd_stopping := False\<rparr>"
  define c where "c = b\<lparr>nd_sched := (nd_sched b)\<lparr>active := True\<rparr>, nd_entered := nd_entered b - {?t}, nd_listing := insert ?t (nd_listing b)\<rparr>"
  define d where "d = c\<lparr>nd_sched := Start (nd_sched c), nd_listing := nd_listing c - {?t}, nd_workers := insert ?t (nd_workers c)\<rparr>"
  define e where "e = d\<lparr>nd_workers := nd_workers d - {?t}\<rparr>"
  have "node_step rate n a" unfolding a_def by (rule node_step.lose [OF assms(1)])
  moreover have "node_step rate a b" unfolding b_def by (rule node_step.stop) (simp add: a_def)
  moreover have "node_step rate b c" unfolding c_def by (rule node_step.activate) (simp add: b_def a_def assms(2))
  moreover have "node_step rate c d" unfolding d_def by (rule node_step.start) (simp add: c_def)
  moreover have "node_step rate d e" unfolding e_def by (rule node_step.quit) (simp_all add: d_def c_def b_def a_def)
  ultimately have "node_steps rate n e" by (meson node_steps.here node_steps.more)
  moreover have "queue (nd_sched e) = NewThreadSafeQueue" "active (nd_sched e)"
    by (simp_all add: e_def d_def c_def b_def a_def on_lost_def Stop_def Start_def)
  ultimately show ?thesis by (intro exI [of _ e]) (simp add: e_def d_def c_def b_def a_def insert_Diff_if)
qed

section \<open>Properties\<close>


text \<open>
  C25. A follower can accept tasks that nobody will run: if a term is lost before the goroutine of its callback
  has come to activate the scheduler, the activation comes after \<open>Stop\<close>. The node can then end as a follower
  with nothing running whose scheduler is active; and whatever is submitted from then on stays in its queue in
  every run, until the node is elected again.
\<close>

theorem quick_loss_strands_tasks:
  assumes "el_isLeader (nd_elector n)" "nd_entered n = {nd_term n}" "nd_listing n = {}" "nd_workers n = {}"
  shows "\<exists>n'. node_steps rate n n' \<and> \<not> el_isLeader (nd_elector n') \<and> active (nd_sched n') \<and>
    {(m, m'). node_steps rate n' m \<and> node_steps rate m m' \<and> nd_term m' = nd_term n} \<subseteq>
    {(m, m'). \<not> el_isLeader (nd_elector m') \<and> q_items (queue (nd_sched m)) \<subseteq># q_items (queue (nd_sched m'))}"
proof -
  from late_start [OF assms(1), of rate] assms(2) obtain n' where n': "node_steps rate n n'"
      "\<not> el_isLeader (nd_elector n')" "active (nd_sched n')" "nd_term n' = nd_term n" "at_rest n'"
    by (auto simp: at_rest_def assms(2-4))
  have "\<not> el_isLeader (nd_elector m') \<and> q_items (queue (nd_sched m)) \<subseteq># q_items (queue (nd_sched m'))"
    if "node_steps rate n' m" "node_steps rate m m'" "nd_term m' = nd_term n" for m m'
  proof -
    have e: "nd_term m = nd_term n'" "nd_term m' = nd_term m"
      using term_grows [OF that(1)] term_grows [OF that(2)] that(3) n'(4) by simp_all
    have "at_rest m" using rest_steps [OF that(1) n'(5) e(1)] by simp
    from rest_steps [OF that(2) this e(2)] show ?thesis by (simp add: at_rest_def)
  qed
  then show ?thesis using n' by blast
qed

section \<open>Witnesses\<close>

definition just_elected :: "unit node" where
  "just_elected =
     (let n = node_start (SetCallbacks (NewLeaderElector ''node-h-uuid'' (30 * second))) (NewScheduler 0 1 DefaultSchedulerConfig)
      in n\<lparr>nd_elector := becomeLeader ((nd_elector n)\<lparr>el_currentEpoch := 1\<rparr>), nd_term := Suc (nd_term n),
           nd_entered := insert (Suc (nd_term n)) (nd_entered n)\<rparr>)"

lemma just_elected_run:
  "node_steps rate (node_start (SetCallbacks (NewLeaderElector ''node-h-uuid'' (30 * second))) (NewScheduler 0 1 DefaultSchedulerConfig))
     just_elected"
  unfolding just_elected_def Let_def
  by (rule node_steps.more [OF node_steps.here node_step.elect])
    (simp_all add: node_start_def SetCallbacks_def NewLeaderElector_def)

definition at_work :: "unit node" where
  "at_work = just_elected\<lparr>nd_sched := Start ((nd_sched just_elected)\<lparr>active := True\<rparr>), nd_entered := {}, nd_listing := {}, nd_workers := {1}\<rparr>"

lemma just_elected_simps:
  "nd_term just_elected = 1" "nd_entered just_elected = {1}" "nd_listing just_elected = {}" "nd_workers just_elected = {}"
  "nd_cancelled just_elected = {}" "el_isLeader (nd_elector just_elected)"
  by (simp_all add: just_elected_def node_start_def Let_def)

lemma at_work_run: "node_steps rate just_elected at_work"
proof -
  let ?a = "just_elected\<lparr>nd_sched := (nd_sched just_elected)\<lparr>active := True\<rparr>, nd_entered := {}, nd_listing := {1}\<rparr>"
  have "node_step rate just_elected ?a"
    using node_step.activate [of 1 just_elected rate] by (simp add: just_elected_simps)
  moreover have "node_step rate ?a at_work"
  proof -
    have "node_step rate ?a (?a\<lparr>nd_sched := Start (nd_sched ?a), nd_listing := nd_listing ?a - {1},
        nd_workers := insert 1 (nd_workers ?a)\<rparr>)" by (rule node_step.start) simp
    also have "(?a\<lparr>nd_sched := Start (nd_sched ?a), nd_listing := nd_listing ?a - {1},
        nd_workers := insert 1 (nd_workers ?a)\<rparr>) = at_work" by (simp add: at_work_def just_elected_simps)
    finally show ?thesis .
  qed
  ultimately show ?thesis by (meson node_steps.here node_steps.more)
qed

definition free_run :: "(unit, unit) rate_api" where
  "free_run = \<lparr>NewLimiter = (\<lambda>_ _. ()), Limiter_Allow = (\<lambda>_ l. (True, l)), Limiter_Reserve = (\<lambda>_ l. ((), l)),
     Reservation_Delay = (\<lambda>_ _. 0), Reservation_Cancel = (\<lambda>_ _ l. l)\<rparr>"


theorem quick_loss_strands_tasks_witness:
  "\<exists>n'. node_steps free_run just_elected n' \<and> \<not> el_isLeader (nd_elector n') \<and> active (nd_sched n')"
  using quick_loss_strands_tasks [of just_elected free_run] by (auto simp: just_elected_simps)

end
