(* ===== verification/ElectionRun.thy ===== *)
theory ElectionRun
  imports LeaderElection
begin

text \<open>
  What the election guarantees and what it does not, over every coordinator that keeps the lease
  contract: epochs are never shared, the retry interval stays within its bounds; but a leader can
  outlive its lease, and the order of leaders is not the order of their epochs.
\<close>

section \<open>Fallible epoch counters\<close>

locale epoch_counter =
  fixes incr :: "'s increment" and get :: "string \<Rightarrow> 's \<Rightarrow> int" and invar :: "'s \<Rightarrow> bool"
  assumes incr_fresh: "invar s \<Longrightarrow> get q s < max_int64 \<Longrightarrow> incr net t q s = (Inr n, s') \<Longrightarrow>
      get q s < n \<and> get q s' = n"
    and incr_mono: "invar s \<Longrightarrow> get q s < max_int64 \<Longrightarrow> incr net t q s = (res, s') \<Longrightarrow> get q s \<le> get q s'"
    and incr_keeps: "invar s \<Longrightarrow> incr net t q s = (res, s') \<Longrightarrow> invar s'"

definition memory_incr :: "memory_store increment" where
  "memory_incr net t q s = call net (ms_IncrementDurableEpoch q) s"

interpretation memory_epochs: epoch_counter memory_incr ms_GetDurableEpoch epochs_int64
proof
  fix s q net t n s'
  assume s: "epochs_int64 s" "ms_GetDurableEpoch q s < max_int64" "memory_incr net t q s = (Inr n, s')"
  obtain m s1 where i: "ms_IncrementDurableEpoch q s = (m, s1)" by fastforce
  then have "n = m" "s' = s1" using s(3) by (cases net; simp add: memory_incr_def)+
  then show "ms_GetDurableEpoch q s < n \<and> ms_GetDurableEpoch q s' = n"
    using ms_epoch.incr_epoch [OF s(1,2) i] by simp
next
  fix s q net t res s'
  assume s: "epochs_int64 s" "ms_GetDurableEpoch q s < max_int64" "memory_incr net t q s = (res, s')"
  obtain m s1 where i: "ms_IncrementDurableEpoch q s = (m, s1)" by fastforce
  then have "s' = s \<or> s' = s1" using s(3) by (cases net) (auto simp: memory_incr_def)
  then show "ms_GetDurableEpoch q s \<le> ms_GetDurableEpoch q s'"
    using ms_epoch.incr_epoch [OF s(1,2) i] by auto
next
  fix s q net t res s'
  assume s: "epochs_int64 s" "memory_incr net t q s = (res, s')"
  obtain m s1 where i: "ms_IncrementDurableEpoch q s = (m, s1)" by fastforce
  then have "s' = s \<or> s' = s1" using s(2) by (cases net) (auto simp: memory_incr_def)
  then show "epochs_int64 s'" using ms_epoch.incr_invar [OF s(1) i] s(1) by auto
qed

section \<open>Runs of many electors\<close>

text \<open>The electors of all nodes; for a node between the two halves of \<open>acquire\<close>, the epoch it got; the
  durable store; and the elections so far, each with its epoch. The coordinator may do anything.\<close>

record 's election =
  en_node :: "string \<Rightarrow> elector"
  en_pending :: "string \<rightharpoonup> int"
  en_store :: 's
  en_log :: "(string \<times> int) list"

inductive election_run :: "'c coord_api \<Rightarrow> 's increment \<Rightarrow> (lock_metadata \<Rightarrow> string) \<Rightarrow> (string \<Rightarrow> 's \<Rightarrow> int) \<Rightarrow>
    's \<Rightarrow> 's election \<Rightarrow> bool"
  for api incr mar get s0
where
  start: "election_run api incr mar get s0
    \<lparr>en_node = (\<lambda>n. NewLeaderElector n ttl), en_pending = Map.empty, en_store = s0, en_log = []\<rparr>"
| epoch: "election_run api incr mar get s0 st \<Longrightarrow> \<not> el_isLeader (en_node st n) \<Longrightarrow> en_pending st n = None \<Longrightarrow>
    get ''leader_election'' (en_store st) < max_int64 \<Longrightarrow>
    incr net t ''leader_election'' (en_store st) = (Inr e, s') \<Longrightarrow>
    election_run api incr mar get s0
      (st\<lparr>en_node := (en_node st)(n := acquire_epoch (Inr e) (en_node st n)),
          en_pending := (en_pending st)(n \<mapsto> e), en_store := s'\<rparr>)"
| no_epoch: "election_run api incr mar get s0 st \<Longrightarrow> get ''leader_election'' (en_store st) < max_int64 \<Longrightarrow>
    incr net t ''leader_election'' (en_store st) = (Inl err, s') \<Longrightarrow>
    election_run api incr mar get s0 (st\<lparr>en_store := s'\<rparr>)"
| elected: "election_run api incr mar get s0 st \<Longrightarrow> en_pending st n = Some e \<Longrightarrow>
    acquire_lease api mar (te :: ('c, 's) tick_env) e (en_node st n) c = (Inr True, el, c') \<Longrightarrow>
    election_run api incr mar get s0
      (st\<lparr>en_node := (en_node st)(n := becomeLeader el), en_pending := (en_pending st)(n := None),
          en_log := en_log st @ [(n, el_currentEpoch el)]\<rparr>)"
| not_elected: "election_run api incr mar get s0 st \<Longrightarrow> en_pending st n = Some e \<Longrightarrow>
    acquire_lease api mar (te :: ('c, 's) tick_env) e (en_node st n) c = (res, el, c') \<Longrightarrow> res \<noteq> Inr True \<Longrightarrow>
    election_run api incr mar get s0
      (st\<lparr>en_node := (en_node st)(n := el), en_pending := (en_pending st)(n := None)\<rparr>)"
| renewal: "election_run api incr mar get s0 st \<Longrightarrow> el_isLeader (en_node st n) \<Longrightarrow>
    renew_round api (te :: ('c, 's) tick_env) (en_node st n) lp c = (res, el, lp', c') \<Longrightarrow>
    election_run api incr mar get s0 (st\<lparr>en_node := (en_node st)(n := el)\<rparr>)"

text \<open>The epochs in use, below the bound \<open>g\<close>: those of past elections and those held between the two
  halves.\<close>

definition epochs_ok :: "int \<Rightarrow> int list \<Rightarrow> (string \<rightharpoonup> int) \<Rightarrow> (string \<Rightarrow> elector) \<Rightarrow> bool" where
  "epochs_ok g es p node \<longleftrightarrow>
     distinct es \<and> (\<forall>e \<in> set es. e \<le> g) \<and> inj_on p (dom p) \<and>
     (\<forall>n e. p n = Some e \<longrightarrow> e \<le> g \<and> e \<notin> set es \<and> el_currentEpoch (node n) = e \<and> \<not> el_isLeader (node n))"

lemma epochs_ok_mono: "epochs_ok g es p node \<Longrightarrow> g \<le> g' \<Longrightarrow> epochs_ok g' es p node"
  by (fastforce simp: epochs_ok_def)

lemma epochs_ok_fresh:
  assumes "epochs_ok g es p node" "g < e" "el_currentEpoch el = e" "\<not> el_isLeader el"
  shows "epochs_ok e es (p(n \<mapsto> e)) (node(n := el))"
proof -
  have below: "\<forall>x \<in> set es. x < e" "\<And>m x. p m = Some x \<Longrightarrow> x < e"
    using assms(1,2) by (fastforce simp: epochs_ok_def)+
  then have "inj_on (p(n \<mapsto> e)) (dom (p(n \<mapsto> e)))"
    using assms(1) by (fastforce simp: epochs_ok_def inj_on_def)
  moreover have "x \<le> e \<and> x \<notin> set es \<and> el_currentEpoch ((node(n := el)) m) = x \<and> \<not> el_isLeader ((node(n := el)) m)"
    if "(p(n \<mapsto> e)) m = Some x" for m x
    using that below assms by (cases "m = n") (fastforce simp: epochs_ok_def)+
  ultimately show ?thesis using assms(1) below(1) by (fastforce simp: epochs_ok_def)
qed

lemma epochs_ok_free:
  assumes "epochs_ok g es p node"
  shows "epochs_ok g es (p(n := None)) (node(n := el))"
proof -
  have "inj_on (p(n := None)) (dom (p(n := None)))"
    using assms by (simp add: epochs_ok_def inj_on_def)
  then show ?thesis using assms by (simp add: epochs_ok_def)
qed

lemma epochs_ok_use:
  assumes "epochs_ok g es p node" "p n = Some e"
  shows "epochs_ok g (es @ [e]) (p(n := None)) (node(n := el))"
proof -
  have "x \<noteq> e" if "p m = Some x" "m \<noteq> n" for m x
    using assms that by (auto simp: epochs_ok_def inj_on_def dom_def)
  then show ?thesis using epochs_ok_free [OF assms(1), of n el] assms by (auto simp: epochs_ok_def)
qed

lemma acquire_lease_frame:
  "acquire_lease api mar te e el c = (res, el', c') \<Longrightarrow>
   el_currentEpoch el' = el_currentEpoch el \<and> el_isLeader el' = el_isLeader el"
  by (auto simp: acquire_lease_def Let_def split: prod.splits sum.splits if_splits)

context epoch_counter
begin

lemma election_epochs:
  "election_run api incr mar get s0 st \<Longrightarrow> invar s0 \<Longrightarrow>
   invar (en_store st) \<and>
   epochs_ok (get ''leader_election'' (en_store st)) (map snd (en_log st)) (en_pending st) (en_node st)"
proof (induction rule: election_run.induct)
  case (start ttl)
  then show ?case by (simp add: epochs_ok_def)
next
  case (epoch st n net t e s')
  have fresh: "get ''leader_election'' (en_store st) < e" "get ''leader_election'' s' = e"
    using incr_fresh [OF _ epoch.hyps(4,5)] epoch by blast+
  have "epochs_ok e (map snd (en_log st)) ((en_pending st)(n \<mapsto> e))
      ((en_node st)(n := acquire_epoch (Inr e) (en_node st n)))"
    by (rule epochs_ok_fresh [OF _ fresh(1)]) (use epoch in \<open>simp_all add: acquire_epoch_def\<close>)
  then show ?case using fresh(2) incr_keeps [OF _ epoch.hyps(5)] epoch by (simp add: fun_upd_def)
next
  case (no_epoch st net t err s')
  have "get ''leader_election'' (en_store st) \<le> get ''leader_election'' s'"
    using incr_mono [OF _ no_epoch.hyps(2,3)] no_epoch by blast
  then show ?case using epochs_ok_mono incr_keeps [OF _ no_epoch.hyps(3)] no_epoch by simp blast
next
  case (elected st n e te c el c')
  have ok: "epochs_ok (get ''leader_election'' (en_store st)) (map snd (en_log st)) (en_pending st) (en_node st)"
    using elected by blast
  have "el_currentEpoch el = e"
    using acquire_lease_frame [OF elected.hyps(3)] ok elected.hyps(2) by (simp add: epochs_ok_def)
  then show ?case using epochs_ok_use [OF ok elected.hyps(2)] elected by (simp add: fun_upd_def)
next
  case (not_elected st n e te c res el c')
  then show ?case using epochs_ok_free by (simp add: fun_upd_def)
next
  case (renewal st n te lp c res el lp' c')
  then have ok: "epochs_ok (get ''leader_election'' (en_store st)) (map snd (en_log st)) (en_pending st) (en_node st)"
    by blast
  then have "en_pending st n = None" using renewal.hyps(2) by (cases "en_pending st n") (auto simp: epochs_ok_def)
  then have "(en_pending st)(n := None) = en_pending st" by auto
  then show ?case using epochs_ok_free [OF ok, of n el] renewal by (simp add: fun_upd_def)
qed

end

section \<open>Rounds of one elector\<close>

lemma renew_round_ttl: "renew_round api te el lp c = (res, el', lp', c') \<Longrightarrow>
    el_ttl el' = el_ttl el \<and> interval lp' = interval lp"
  by (auto simp: renew_round_def stepDown_def Let_def split: prod.splits sum.splits if_splits)

lemma acquire_ttl: "acquire api incr mar te el w = (res, el', w') \<Longrightarrow> el_ttl el' = el_ttl el"
  by (auto simp: acquire_def acquire_lease_def acquire_epoch_def Let_def split: prod.splits sum.splits if_splits)

lemma acquire_round_ttl: "acquire_round api incr mar te el lp w = (res, el', lp', w') \<Longrightarrow>
    el_ttl el' = el_ttl el \<and> interval lp' = interval lp"
proof -
  obtain r el1 w1 where a: "acquire api incr mar te el w = (r, el1, w1)" by (metis prod_cases3)
  moreover assume "acquire_round api incr mar te el lp w = (res, el', lp', w')"
  ultimately show ?thesis
    using acquire_ttl [OF a] by (auto simp: acquire_round_def becomeLeader_def split: if_splits)
qed

lemma tick_interval:
  assumes "tick api incr mar te (el, lp, c, s) = (el', lp', c', s')"
  obtains lp2 and res :: "go_error + bool" where "el_ttl el' = el_ttl el" "interval lp2 = interval lp" "lp' = backoff el res lp2"
proof (cases "el_isLeader el")
  case True
  obtain res el1 lp1 c1 where r: "renew_round api te el lp c = (res, el1, lp1, c1)" by (metis prod_cases4)
  then have "el' = el1" "lp' = backoff el res lp1" using assms True by (auto simp: tick_def)
  then show ?thesis using that renew_round_ttl [OF r] by blast
next
  case False
  obtain res el1 lp1 c1 s1 where r: "acquire_round api incr mar te el lp (c, s) = (res, el1, lp1, c1, s1)"
    by (metis prod_cases5)
  then have "el' = el1" "lp' = backoff el res lp1" using assms False by (auto simp: tick_def)
  then show ?thesis using that acquire_round_ttl [OF r] by blast
qed

lemma rounds_Suc:
  assumes "rounds api incr mar env n (t, st) = (t', st')" "tick api incr mar (env n t') st' = st''"
  shows "rounds api incr mar env (Suc n) (t, st) = (t' + interval (fst (snd st'')), st'')"
  using assms by (simp add: Let_def)

lemma go_div3 [simp]: "0 \<le> x \<Longrightarrow> go_div x 3 = x div 3"
  by (simp add: go_div_def sgn_if)

lemma backoff_bounds:
  assumes "3 \<le> el_ttl el" "10 * el_ttl el \<le> max_int64 div 2"
    and "el_ttl el div 3 \<le> interval lp \<and> interval lp \<le> 10 * el_ttl el"
  shows "el_ttl el div 3 \<le> interval (backoff el err lp) \<and> interval (backoff el err lp) \<le> 10 * el_ttl el"
proof -
  have "0 \<le> interval lp" "interval lp * 2 \<le> max_int64" "10 * el_ttl el \<le> max_int64"
    using assms by (simp_all add: int64_defs, linarith+)
  then have "wrap64 (interval lp * 2) = interval lp * 2" "wrap64 (10 * el_ttl el) = 10 * el_ttl el"
    using assms(1) by (simp_all add: int64_defs)
  then show ?thesis using assms by (auto simp: backoff_def Let_def split: sum.split)
qed

lemma rounds_bounded:
  assumes "3 \<le> ttl" "10 * ttl \<le> max_int64 div 2" "el_ttl el = ttl"
    and "ttl div 3 \<le> interval lp" "interval lp \<le> 10 * ttl"
    and "rounds api incr mar env n (t, el, lp, c, s) = (t', el', lp', c', s')"
  shows "el_ttl el' = ttl \<and> ttl div 3 \<le> interval lp' \<and> interval lp' \<le> 10 * ttl"
  using assms(6)
proof (induction n arbitrary: t' el' lp' c' s')
  case 0
  then show ?case using assms by simp
next
  case (Suc n)
  obtain t1 el1 lp1 c1 s1 where r: "rounds api incr mar env n (t, el, lp, c, s) = (t1, el1, lp1, c1, s1)"
    by (metis prod_cases5)
  have ih: "el_ttl el1 = ttl \<and> ttl div 3 \<le> interval lp1 \<and> interval lp1 \<le> 10 * ttl" by (rule Suc.IH [OF r])
  have "tick api incr mar (env n t1) (el1, lp1, c1, s1) = (el', lp', c', s')"
    using Suc.prems r by (simp add: Let_def split: prod.splits)
  then obtain lp2 and res :: "go_error + bool" where "el_ttl el' = el_ttl el1" "interval lp2 = interval lp1" "lp' = backoff el1 res lp2"
    by (rule tick_interval)
  then show ?case using backoff_bounds [of el1 lp2 res] assms(1,2) ih by simp
qed

text \<open>A leader whose renewal fails.\<close>

lemma tick_fails:
  assumes "el_isLeader el" "fst (renew api te el c) = Inl e"
  shows "\<exists>c'. tick api incr mar te (el, lp, c, s) =
    (if maxRenewFailures \<le> renewFailures lp + 1
     then (stepDown (te_down te) el, backoff el (Inl e :: go_error + bool) (lp\<lparr>renewFailures := 0\<rparr>), c', s)
     else (el, backoff el (Inl e :: go_error + bool) (lp\<lparr>renewFailures := renewFailures lp + 1\<rparr>), c', s))"
  using assms by (cases "renew api te el c") (simp add: tick_def renew_round_def Let_def)

lemma backoff_doubles:
  assumes "0 \<le> interval lp" "interval lp * 2 \<le> 10 * el_ttl el" "10 * el_ttl el \<le> max_int64"
  shows "interval (backoff el (Inl e) lp) = interval lp * 2"
proof -
  have "wrap64 (interval lp * 2) = interval lp * 2" "wrap64 (10 * el_ttl el) = 10 * el_ttl el"
    using assms by (simp_all add: int64_defs)
  then show ?thesis using assms by (simp add: backoff_def)
qed

lemma renewFailures_backoff [simp]: "renewFailures (backoff el err lp) = renewFailures lp"
  by (simp add: backoff_def split: sum.split)

lemma tick_error:
  assumes "el_isLeader el" "fst (renew api te el c) = Inl e" "renewFailures lp = n" "n < 2"
    and "interval lp = i" "0 \<le> i" "i * 2 \<le> 10 * el_ttl el" "10 * el_ttl el \<le> max_int64"
  shows "\<exists>c' lp'. tick api incr mar te (el, lp, c, s) = (el, lp', c', s) \<and>
     renewFailures lp' = n + 1 \<and> interval lp' = i * 2"
proof -
  obtain c' where "tick api incr mar te (el, lp, c, s) =
      (el, backoff el (Inl e :: go_error + bool) (lp\<lparr>renewFailures := n + 1\<rparr>), c', s)"
    using tick_fails [OF assms(1,2), of incr mar lp s] assms(3,4) by (auto simp: maxRenewFailures_def)
  moreover have "interval (backoff el (Inl e :: go_error + bool) (lp\<lparr>renewFailures := n + 1\<rparr>)) = i * 2"
    using backoff_doubles [of "lp\<lparr>renewFailures := n + 1\<rparr>" el e] assms(5-8) by simp
  ultimately show ?thesis by (intro exI conjI) simp_all
qed

lemma three_failures:
  assumes lead: "el_isLeader el" and lp: "interval lp = i" "renewFailures lp = 0"
    and i: "0 \<le> i" "4 * i \<le> 10 * el_ttl el" "10 * el_ttl el \<le> max_int64"
    and fail: "\<forall>n x c. \<exists>e. fst (renew api (env n x) el c) = Inl e"
  shows "\<exists>lp2 c2. rounds api incr mar env 2 (t, el, lp, c, s) = (t + 6 * i, el, lp2, c2, s) \<and>
     \<not> el_isLeader (fst (snd (rounds api incr mar env 3 (t, el, lp, c, s))))"
proof -
  obtain e1 where "fst (renew api (env 0 t) el c) = Inl e1" using fail by blast
  from tick_error [OF lead this lp(2) _ lp(1)] i obtain c1 lp1 where
    1: "tick api incr mar (env 0 t) (el, lp, c, s) = (el, lp1, c1, s)" "renewFailures lp1 = 1"
      "interval lp1 = i * 2" by fastforce
  obtain e2 where "fst (renew api (env 1 (t + 2 * i)) el c1) = Inl e2" using fail by blast
  from tick_error [OF lead this 1(2) _ 1(3)] i obtain c2 lp2 where
    2: "tick api incr mar (env 1 (t + 2 * i)) (el, lp1, c1, s) = (el, lp2, c2, s)" "renewFailures lp2 = 2"
      "interval lp2 = i * 2 * 2" by fastforce
  have r1: "rounds api incr mar env 1 (t, el, lp, c, s) = (t + 2 * i, el, lp1, c1, s)"
    using rounds_Suc [of api incr mar env 0 t _ t, OF _ 1(1)] 1(3) by (simp add: mult.commute)
  have r2: "rounds api incr mar env 2 (t, el, lp, c, s) = (t + 6 * i, el, lp2, c2, s)"
    using rounds_Suc [OF r1 2(1)] 2(3) by (simp add: numeral_2_eq_2)
  obtain e3 where "fst (renew api (env 2 (t + 6 * i)) el c2) = Inl e3" using fail by blast
  from tick_fails [OF lead this, of incr mar lp2 s] 2(2) obtain c3 lp3 where
    3: "tick api incr mar (env 2 (t + 6 * i)) (el, lp2, c2, s) = (stepDown (te_down (env 2 (t + 6 * i))) el, lp3, c3, s)"
    by (auto simp: maxRenewFailures_def)
  have "rounds api incr mar env 3 (t, el, lp, c, s) =
      (t + 6 * i + interval lp3, stepDown (te_down (env 2 (t + 6 * i))) el, lp3, c3, s)"
    using rounds_Suc [OF r2 3] by (simp add: numeral_3_eq_3 numeral_2_eq_2)
  then show ?thesis using r2 by (simp add: stepDown_def lead)
qed

text \<open>A round that finds the lease free.\<close>

lemma tick_not_leader:
  "\<not> el_isLeader el \<Longrightarrow> tick api incr mar te (el, lp, c, s) =
   (case acquire_round api incr mar te el lp (c, s) of (res, el', lp', c', s') \<Rightarrow> (el', backoff el res lp', c', s'))"
  by (simp add: tick_def split: prod.split)

context lease_service
begin

lemma tick_elected:
  assumes "\<not> el_isLeader el" "incr (te_epoch_net te) (te_epoch_time te) ''leader_election'' s = (Inr e, s1)"
    and "te_between te (c, s1) = (c1, s2)" "te_net te = Delivered" "valid_ttl (el_ttl el)"
    and "owner (te_time te) (el_lockKey el) c1 = None"
  shows "\<exists>el' lp' c'. tick api incr mar te (el, lp, c, s) = (el', lp', c', s2) \<and> el_isLeader el' \<and>
     el_leaderCtx el' = Some \<lparr>fencing_epoch = e, cancelled = False\<rparr> \<and>
     (\<forall>x \<ge> te_time te + el_ttl el. owner x (el_lockKey el) c' = None)"
proof -
  let ?el = "acquire_epoch (Inr e) el"
  define val where "val = mar (new_metadata te e ?el)"
  obtain c2 where a: "ca_Acquire api Delivered (te_time te) (el_lockKey el) val (el_ttl el) c1 = (Inr True, c2)"
    using acquire_free [OF assms(6,5), of val] by (metis prod.collapse)
  have el: "el_lockKey ?el = el_lockKey el" "el_ttl ?el = el_ttl el" by (simp_all add: acquire_epoch_def)
  have "acquire api incr mar te el (c, s) = (Inr True, ?el\<lparr>el_currentValue := val\<rparr>, c2, s2)"
    using a by (simp add: acquire_def assms(2,3,4) acquire_lease_def Let_def el val_def)
  then have "tick api incr mar te (el, lp, c, s) =
      (becomeLeader (?el\<lparr>el_currentValue := val\<rparr>), backoff el (Inr True :: go_error + bool) (lp\<lparr>renewFailures := 0\<rparr>), c2, s2)"
    by (simp add: tick_not_leader [OF assms(1)] acquire_round_def)
  moreover have "el_isLeader (becomeLeader (?el\<lparr>el_currentValue := val\<rparr>))"
    "el_leaderCtx (becomeLeader (?el\<lparr>el_currentValue := val\<rparr>)) = Some \<lparr>fencing_epoch = e, cancelled = False\<rparr>"
    by (simp_all add: becomeLeader_def acquire_epoch_def)
  ultimately show ?thesis using acquire_won [OF assms(5) a] by blast
qed

end

section \<open>Properties\<close>


text \<open>
  The retry interval is bounded: in every run of the loop, whatever fails, the next round starts at
  least a third of the time to live and at most ten times the time to live later.
\<close>

theorem retry_interval_bounded:
  assumes "3 \<le> el_ttl el" "10 * el_ttl el \<le> max_int64 div 2"
    and "rounds api incr mar env n (t, el, loop_start el, c, s) = (t', el', lp', c', s')"
  shows "el_ttl el div 3 \<le> interval lp' \<and> interval lp' \<le> 10 * el_ttl el"
  using rounds_bounded [OF assms(1,2) refl _ _ assms(3)] assms(1) by (simp add: loop_start_def)

text \<open>
  C24. A leader outlives its lease: after a renewal at \<open>t0\<close>, a leader that cannot reach the coordinator any
  more still holds itself for the leader when its third attempt starts, at seven thirds of the time to
  live (the backoff doubles the interval between attempts), and steps down only then; but from the end
  of the first time to live on, the coordinator gives the lease to whoever asks.
\<close>

theorem leader_outlives_lease:
  assumes "lease_service owner api" "valid_ttl ttl" "10 * ttl \<le> max_int64"
    and "el_isLeader el" "el_ttl el = ttl" "lp = \<lparr>interval = ttl div 3, renewFailures = 0\<rparr>"
    and "ca_Renew api net t0 (el_lockKey el) (el_currentValue el) ttl c0 = (Inr True, c)"
    and "\<forall>n x c. \<exists>e. fst (renew api (env n x) el c) = Inl e"
  shows "\<exists>lp2 c2. rounds api incr mar env 2 (t0 + ttl div 3, el, lp, c, s) =
       (t0 + 7 * (ttl div 3), el, lp2, c2, s) \<and>
     \<not> el_isLeader (fst (snd (rounds api incr mar env 3 (t0 + ttl div 3, el, lp, c, s)))) \<and>
     t0 + 2 * ttl < t0 + 7 * (ttl div 3) \<and>
     fst (ca_Acquire api Delivered (t0 + ttl) (el_lockKey el) rival ttl c) = Inr True"
proof -
  have ttl: "1000000 \<le> ttl" using assms(2) by (auto simp: valid_ttl_def)
  have "owner (t0 + ttl) (el_lockKey el) c = None"
    using lease_service.renew_own [OF assms(1,2,7)] by simp
  then have "fst (ca_Acquire api Delivered (t0 + ttl) (el_lockKey el) rival ttl c) = Inr True"
    using lease_service.acquire_free [OF assms(1) _ assms(2)] by simp
  moreover have "t0 + 2 * ttl < t0 + 7 * (ttl div 3)" using ttl by linarith
  moreover have "0 \<le> ttl div 3" "4 * (ttl div 3) \<le> 10 * el_ttl el" using ttl assms(5) by simp_all
  moreover have "t0 + ttl div 3 + 6 * (ttl div 3) = t0 + 7 * (ttl div 3)" by simp
  ultimately show ?thesis
    using three_failures [OF assms(4) _ _ _ _ _ assms(8), of lp "ttl div 3" incr mar "t0 + ttl div 3" c s] assms(3,5,6)
    by (metis loop_state.select_convs)
qed

text \<open>
  C26. The fencing tokens are not ordered like the leaders: node A gets its epoch and then pauses; node B
  gets a later epoch, is elected and its lease runs out; A goes on, takes the lease and leads with the
  older epoch, its context neither cancelled nor refused, although the durable epoch is higher.
\<close>

theorem fencing_goes_back:
  assumes "lease_service owner api" "epoch_counter incr get invar" "invar s" "get ''leader_election'' s1 < max_int64"
    and A: "\<not> el_isLeader A" "te_net teA = Delivered" "get ''leader_election'' s < max_int64"
      "incr (te_epoch_net teA) (te_epoch_time teA) ''leader_election'' s = (Inr eA, s1)"
    and B: "\<not> el_isLeader B" "te_net teB = Delivered" "te_between teB = (\<lambda>w. w)"
      "incr (te_epoch_net teB) (te_epoch_time teB) ''leader_election'' s1 = (Inr eB, s2)"
    and same: "el_lockKey B = el_lockKey A" "el_ttl B = el_ttl A" "valid_ttl (el_ttl A)"
    and free: "owner (te_time teB) (el_lockKey A) c = None"
    and pause: "te_between teA = (\<lambda>(c, s). snd (snd (tick api incr mar teB (B, lpB, c, s))))"
      "te_time teB + el_ttl A \<le> te_time teA"
  shows "let B' = fst (tick api incr mar teB (B, lpB, c, s1)); A' = fst (tick api incr mar teA (A, lpA, c, s))
     in el_isLeader B' \<and> el_leaderCtx B' = Some \<lparr>fencing_epoch = eB, cancelled = False\<rparr> \<and>
        el_isLeader A' \<and> el_leaderCtx A' = Some \<lparr>fencing_epoch = eA, cancelled = False\<rparr> \<and> eA < eB"
proof -
  have bB: "te_between teB (c, s2) = (c, s2)" "valid_ttl (el_ttl B)"
    "owner (te_time teB) (el_lockKey B) c = None" using B(3) same free by simp_all
  from lease_service.tick_elected [where incr = incr and te = teB and el = B and mar = mar and lp = lpB,
      OF assms(1) B(1) B(4) bB(1) B(2) bB(2,3)]
  obtain B' lp' c' where
    b: "tick api incr mar teB (B, lpB, c, s1) = (B', lp', c', s2)" "el_isLeader B'"
      "el_leaderCtx B' = Some \<lparr>fencing_epoch = eB, cancelled = False\<rparr>"
      "\<forall>x \<ge> te_time teB + el_ttl B. owner x (el_lockKey B) c' = None" by blast
  then have aA: "te_between teA (c, s1) = (c', s2)" "owner (te_time teA) (el_lockKey A) c' = None"
    using pause same by simp_all
  from lease_service.tick_elected [where incr = incr and te = teA and el = A and mar = mar and lp = lpA,
      OF assms(1) A(1) A(4) aA(1) A(2) same(3) aA(2)]
  obtain A' lp'' c'' where
    a: "tick api incr mar teA (A, lpA, c, s) = (A', lp'', c'', s2)" "el_isLeader A'"
      "el_leaderCtx A' = Some \<lparr>fencing_epoch = eA, cancelled = False\<rparr>" by blast
  have "invar s1" using epoch_counter.incr_keeps [OF assms(2,3) A(4)] .
  then have "eA < eB"
    using epoch_counter.incr_fresh [OF assms(2,3) A(3,4)] epoch_counter.incr_fresh [OF assms(2) _ assms(4) B(4)]
    by simp
  then show ?thesis using a b by (simp add: Let_def)
qed

section \<open>Witnesses\<close>

definition env_at :: "gotime \<Rightarrow> ('c, 's) tick_env" where
  "env_at t = \<lparr>te_epoch_net = Delivered, te_epoch_time = t, te_between = (\<lambda>w. w), te_reqid = ''r'',
     te_created = t, te_now = t, te_net = Delivered, te_time = t, te_down = t\<rparr>"

definition owner_text :: "lock_metadata \<Rightarrow> string" where
  "owner_text m = OwnerPod m @ '':'' @ itoa (lm_Epoch m)"

definition node_a :: elector where "node_a = NewLeaderElector ''a'' (30 * second)"
definition node_b :: elector where "node_b = NewLeaderElector ''b'' (30 * second)"

lemma fresh_epochs: "epochs_int64 NewMemoryStore" "ms_GetDurableEpoch q NewMemoryStore = 0"
  by (simp_all add: epochs_int64_def NewMemoryStore_def ms_GetDurableEpoch_def int64_defs)

lemma thirty_seconds: "valid_ttl (30 * second)"
  by (auto simp: valid_ttl_def)


theorem retry_interval_bounded_witness:
  "10 * second \<le> interval (fst (snd (snd (rounds (redis_coord map_redis) memory_incr owner_text
     (\<lambda>n t. (env_at t)\<lparr>te_epoch_net := Refused ''down''\<rparr>) 7 (10 * second, node_a, loop_start node_a, Map.empty, NewMemoryStore)))))"
proof -
  obtain t' el' lp' c' s' where r: "rounds (redis_coord map_redis) memory_incr owner_text
     (\<lambda>n t. (env_at t)\<lparr>te_epoch_net := Refused ''down''\<rparr>) 7 (10 * second, node_a, loop_start node_a, Map.empty, NewMemoryStore)
     = (t', el', lp', c', s')" by (metis prod_cases5)
  have "el_ttl node_a = 30 * second" by (simp add: node_a_def NewLeaderElector_def)
  then have "10 * second \<le> interval lp'" using retry_interval_bounded [OF _ _ r] by (simp add: int64_defs)
  then show ?thesis by (simp only: r fst_conv snd_conv)
qed

theorem leader_outlives_lease_witness:
  "\<exists>el :: elector. el_isLeader el \<and> el_nodeID el = ''a'' \<and>
     fst (rs_AcquireLease map_redis Delivered (30 * second) (el_lockKey el) ''b'' (30 * second)
       (snd (rs_RenewLease map_redis Delivered 0 (el_lockKey el) (el_currentValue el) (30 * second)
         [el_lockKey el \<mapsto> (el_currentValue el, None)]))) = Inr True"
proof -
  let ?el = "becomeLeader (node_a\<lparr>el_currentValue := ''a:1''\<rparr>)"
  let ?c0 = "[el_lockKey ?el \<mapsto> (el_currentValue ?el, None)] :: redis_map"
  let ?lp = "\<lparr>interval = 30 * second div 3, renewFailures = 0\<rparr>"
  obtain c where c: "ca_Renew (redis_coord map_redis) Delivered 0 (el_lockKey ?el) (el_currentValue ?el) (30 * second) ?c0
      = (Inr True, c)"
    by (simp add: redis_coord_def rs_RenewLease_def rs_RenewLock_def renew_script_def map_redis_def map_get_def unexpired_def)
  have "\<forall>n x c. \<exists>e. fst (renew (redis_coord map_redis) ((env_at x :: (redis_map, memory_store) tick_env)\<lparr>te_net := Refused ''down''\<rparr>) ?el c) = Inl e"
    by (simp add: renew_def becomeLeader_def redis_coord_def rs_RenewLease_def rs_RenewLock_def)
  from leader_outlives_lease [OF map_redis.is_lease_service thirty_seconds _ _ _ refl c this,
      of memory_incr owner_text NewMemoryStore "''b''"]
  have "fst (ca_Acquire (redis_coord map_redis) Delivered (30 * second) (el_lockKey ?el) ''b'' (30 * second) c) = Inr True"
    by (simp add: becomeLeader_def node_a_def NewLeaderElector_def int64_defs)
  moreover have "snd (rs_RenewLease map_redis Delivered 0 (el_lockKey ?el) (el_currentValue ?el) (30 * second) ?c0) = c"
    using arg_cong [OF c, of snd] by (simp only: redis_coord_def coord_api.select_convs snd_conv)
  ultimately have "fst (rs_AcquireLease map_redis Delivered (30 * second) (el_lockKey ?el) ''b'' (30 * second)
       (snd (rs_RenewLease map_redis Delivered 0 (el_lockKey ?el) (el_currentValue ?el) (30 * second) ?c0))) = Inr True"
    by (simp only: redis_coord_def coord_api.select_convs)
  moreover have "el_isLeader ?el" "el_nodeID ?el = ''a''" by (simp_all add: becomeLeader_def node_a_def NewLeaderElector_def)
  ultimately show ?thesis by (intro exI [of _ ?el] conjI)
qed

theorem fencing_goes_back_witness:
  "\<exists>te :: (redis_map, memory_store) tick_env.
     el_leaderCtx (fst (tick (redis_coord map_redis) memory_incr owner_text te (node_a, loop_start node_a, Map.empty, NewMemoryStore))) =
     Some \<lparr>fencing_epoch = 1, cancelled = False\<rparr> \<and>
     ms_GetDurableEpoch ''leader_election'' (snd (te_between te (Map.empty, snd (ms_IncrementDurableEpoch ''leader_election'' NewMemoryStore)))) = 2"
proof -
  let ?teB = "env_at second :: (redis_map, memory_store) tick_env"
  let ?teA = "(env_at (40 * second))\<lparr>te_between := \<lambda>(c, s). snd (snd (tick (redis_coord map_redis) memory_incr owner_text ?teB
      (node_b, loop_start node_b, c, s)))\<rparr> :: (redis_map, memory_store) tick_env"
  let ?s1 = "snd (ms_IncrementDurableEpoch ''leader_election'' NewMemoryStore)"
  let ?s2 = "snd (ms_IncrementDurableEpoch ''leader_election'' ?s1)"
  have i: "memory_incr Delivered t ''leader_election'' NewMemoryStore = (Inr 1, ?s1)"
    "memory_incr Delivered t ''leader_election'' ?s1 = (Inr 2, ?s2)"
    "ms_GetDurableEpoch ''leader_election'' ?s1 = 1" for t
    by (simp_all add: memory_incr_def ms_IncrementDurableEpoch_def NewMemoryStore_def Let_def int64_defs ms_GetDurableEpoch_def)
  have "ms_GetDurableEpoch ''leader_election'' (snd (te_between ?teA (Map.empty, ?s1))) = 2" by code_simp
  moreover have "el_leaderCtx (fst (tick (redis_coord map_redis) memory_incr owner_text ?teA (node_a, loop_start node_a, Map.empty, NewMemoryStore))) =
     Some \<lparr>fencing_epoch = 1, cancelled = False\<rparr>"
    using fencing_goes_back [OF map_redis.is_lease_service memory_epochs.epoch_counter_axioms fresh_epochs(1),
        of ?s1 node_a ?teA 1 node_b ?teB 2 ?s2 Map.empty owner_text "loop_start node_b" "loop_start node_a"] i thirty_seconds
    by (simp add: Let_def env_at_def node_a_def node_b_def NewLeaderElector_def fresh_epochs int64_defs map_redis_def map_get_def)
  ultimately show ?thesis by blast
qed

end
