(* ===== verification/TickerLoop.thy ===== *)
theory TickerLoop
  imports Prelude
begin

text \<open>
  The background loops of the control plane have one shape: \<open>for { select { case <-ctx.Done(): return;
  case <-ticker.C: body() } }\<close>. When both channels are ready Go chooses at random, so the choices made are
  an argument, one per round; the loop is over at the first \<open>ContextDone\<close>. \<open>body k\<close> is the \<open>k\<close>-th round, whose
  environment is its own.
\<close>

datatype select_choice = TickerFired | ContextDone

fun ticker_loop :: "(nat \<Rightarrow> 's \<Rightarrow> 's) \<Rightarrow> nat \<Rightarrow> select_choice list \<Rightarrow> 's \<Rightarrow> 's" where
  "ticker_loop body k [] s = s"
| "ticker_loop body k (ContextDone # cs) s = s"
| "ticker_loop body k (TickerFired # cs) s = ticker_loop body (Suc k) cs (body k s)"

text \<open>The rounds the loop makes.\<close>

definition loop_rounds :: "select_choice list \<Rightarrow> nat" where
  "loop_rounds cs = length (takeWhile (\<lambda>c. c = TickerFired) cs)"

lemma loop_rounds_simps [simp]:
  "loop_rounds [] = 0" "loop_rounds (ContextDone # cs) = 0"
  "loop_rounds (TickerFired # cs) = Suc (loop_rounds cs)"
  by (simp_all add: loop_rounds_def)

lemma ticker_loop_fold: "ticker_loop body k cs s = fold body [k..<k + loop_rounds cs] s"
proof (induction cs arbitrary: k s)
  case (Cons c cs)
  have "[k..<k + Suc n] = k # [Suc k..<Suc k + n]" for n by (simp add: upt_conv_Cons)
  then show ?case using Cons by (cases c) (simp_all del: upt_Suc)
qed simp

lemma ticker_loop_inv:
  assumes "P s" "\<And>k s. P s \<Longrightarrow> P (body k s)"
  shows "P (ticker_loop body k cs s)"
  using assms(1)
proof (induction cs arbitrary: k s)
  case (Cons c cs)
  then show ?case using assms(2) by (cases c) simp_all
qed simp

lemma ticker_loop_id: "(\<And>k s. body k s = s) \<Longrightarrow> ticker_loop body k cs s = s"
  by (rule ticker_loop_inv [where P = "\<lambda>s'. s' = s"]) simp_all

end
