(* ===== verification/Janitor.thy ===== *)
theory Janitor
  imports ElectionRun TickerLoop
begin

text \<open>
  \<open>coordination/janitor.go\<close>: the background worker that force-releases locks whose metadata carry an
  epoch below the durable one, or that expired more than five seconds ago.

  The durable epoch it reads and the keys the scan yields are given by their results, the decoding of
  the lock's JSON text by \<open>unm\<close>; \<open>jan_env\<close> has the network faults and the readings of the clock for a
  key. \<open>janitor_loop\<close> is the goroutine \<open>Start\<close> leaves behind, a ticker around \<open>clean\<close>.
\<close>

record lock_janitor =
  lj_interval :: duration

definition NewLockJanitor :: "duration \<Rightarrow> lock_janitor" where
  "NewLockJanitor i = \<lparr>lj_interval = i\<rparr>"

record jan_env =
  jn_net :: fault
  jn_time :: gotime
  jn_now :: gotime
  jn_release_net :: fault
  jn_release_time :: gotime

definition is_epoch_key :: "string \<Rightarrow> bool" where
  "is_epoch_key key \<longleftrightarrow> 6 < length key \<and> drop (length key - 6) key = '':epoch''"

definition clean_lock ::
  "'c coord_api \<Rightarrow> (string \<Rightarrow> lock_metadata option) \<Rightarrow> int \<Rightarrow> jan_env \<Rightarrow> string \<Rightarrow> 'c \<Rightarrow> 'c" where
  "clean_lock api unm currentEpoch je key c =
     (if is_epoch_key key then c
      else case ca_Owner api (jn_net je) (jn_time je) key c of
          Inl _ \<Rightarrow> c
        | Inr val \<Rightarrow>
            if val = [] then c
            else case unm val of
                None \<Rightarrow> c
              | Some meta \<Rightarrow>
                  if lm_Epoch meta < currentEpoch
                  then snd (ca_Release api (jn_release_net je) (jn_release_time je) key val c)
                  else if ExpiresAt meta + 5 * second < jn_now je
                  then snd (ca_Release api (jn_release_net je) (jn_release_time je) key val c)
                  else c)"

fun clean_locks :: "'c coord_api \<Rightarrow> (string \<Rightarrow> lock_metadata option) \<Rightarrow> int \<Rightarrow> (nat \<Rightarrow> jan_env) \<Rightarrow> nat \<Rightarrow>
  string list \<Rightarrow> 'c \<Rightarrow> 'c"
where
  "clean_locks api unm currentEpoch env i [] c = c"
| "clean_locks api unm currentEpoch env i (key # keys) c =
     clean_locks api unm currentEpoch env (Suc i) keys (clean_lock api unm currentEpoch (env i) key c)"

definition clean ::
  "'c coord_api \<Rightarrow> (string \<Rightarrow> lock_metadata option) \<Rightarrow> (nat \<Rightarrow> jan_env) \<Rightarrow> go_error + int \<Rightarrow>
   go_error + string list \<Rightarrow> 'c \<Rightarrow> 'c"
where
  "clean api unm env epoch keys c =
     (case epoch of
        Inl _ \<Rightarrow> c
      | Inr currentEpoch \<Rightarrow>
          (case keys of Inl _ \<Rightarrow> c | Inr ks \<Rightarrow> clean_locks api unm currentEpoch env 0 ks c))"

text \<open>\<open>ScanLocks\<close>: the keys the iterator yields, unless it ends with an error.\<close>

definition rs_ScanLocks :: "(string \<Rightarrow> string list \<times> go_error option) \<Rightarrow> string \<Rightarrow> go_error + string list" where
  "rs_ScanLocks iterate pattern =
     (case iterate pattern of (keys, None) \<Rightarrow> Inr keys | (keys, Some e) \<Rightarrow> Inl e)"

text \<open>\<open>env k\<close>, \<open>epoch k\<close> and \<open>keys k\<close> are those of the \<open>k\<close>-th round.\<close>

definition janitor_loop ::
  "'c coord_api \<Rightarrow> (string \<Rightarrow> lock_metadata option) \<Rightarrow> (nat \<Rightarrow> nat \<Rightarrow> jan_env) \<Rightarrow> (nat \<Rightarrow> go_error + int) \<Rightarrow>
   (nat \<Rightarrow> go_error + string list) \<Rightarrow> select_choice list \<Rightarrow> 'c \<Rightarrow> 'c"
where
  "janitor_loop api unm env epoch keys cs c =
     ticker_loop (\<lambda>k. clean api unm (env k) (epoch k) (keys k)) 0 cs c"

section \<open>What it leaves alone\<close>

lemma janitor_needs_the_epoch: "(\<And>k. \<exists>e. epoch k = Inl e) \<Longrightarrow> janitor_loop api unm env epoch keys cs c = c"
  unfolding janitor_loop_def by (rule ticker_loop_id) (metis clean_def old.sum.simps(5))

text \<open>A lock of the current epoch, not long expired.\<close>

definition fresh_lock :: "int \<Rightarrow> gotime \<Rightarrow> lock_metadata \<Rightarrow> bool" where
  "fresh_lock currentEpoch now m \<longleftrightarrow> currentEpoch \<le> lm_Epoch m \<and> now \<le> ExpiresAt m + 5 * second"

text \<open>The janitor's calls for one key fall into the time between \<open>t\<close> and \<open>u\<close>, in this order.\<close>

definition jan_within :: "gotime \<Rightarrow> gotime \<Rightarrow> jan_env \<Rightarrow> bool" where
  "jan_within t u je \<longleftrightarrow> t \<le> jn_time je \<and> jn_time je \<le> jn_release_time je \<and> jn_release_time je < u"

context lease_service
begin

lemma clean_lock_keeps:
  assumes "held owner k v t u c" "v \<noteq> []" "unm v = Some m" "fresh_lock currentEpoch (jn_now je) m" "jan_within t u je"
  shows "held owner k v (jn_release_time je) u (clean_lock api unm currentEpoch je q c)"
proof -
  have h: "held owner k v (jn_release_time je) u c"
    using assms(5) by (intro held_later [OF assms(1)]) (simp add: jan_within_def)
  have keep: "held owner k v (jn_release_time je) u
      (snd (ca_Release api (jn_release_net je) (jn_release_time je) q val c))" if "q \<noteq> k"
    for val
  proof -
    obtain res c' where r: "ca_Release api (jn_release_net je) (jn_release_time je) q val c = (res, c')" by fastforce
    then show ?thesis using release_other [OF r that] h by (simp add: held_def)
  qed
  show ?thesis
  proof (cases "ca_Owner api (jn_net je) (jn_time je) q c")
    case (Inl e)
    then show ?thesis using h by (simp add: clean_lock_def)
  next
    case (Inr val)
    show ?thesis
    proof (cases "q = k")
      case False
      then show ?thesis using h keep [OF False] Inr by (simp add: clean_lock_def split: option.split)
    next
      case True
      have "owner (jn_time je) k c = Some v"
        using assms(1,5) by (simp add: held_def jan_within_def)
      then have "val = v" using owner_reading [OF Inr] True by simp
      then show ?thesis using h assms(3,4) Inr by (auto simp: clean_lock_def fresh_lock_def)
    qed
  qed
qed

lemma clean_locks_keep:
  assumes "held owner k v t u c" "v \<noteq> []" "unm v = Some m" "t < u"
    and "\<forall>j. fresh_lock currentEpoch (jn_now (env j)) m"
    and "\<forall>j < length keys. jan_within t u (env (i + j))"
    and "\<forall>j. Suc j < length keys \<longrightarrow> jn_release_time (env (i + j)) \<le> jn_time (env (i + Suc j))"
  shows "\<exists>t'. t \<le> t' \<and> t' < u \<and> held owner k v t' u (clean_locks api unm currentEpoch env i keys c)"
  using assms(1,4,6,7)
proof (induction keys arbitrary: t c i)
  case Nil
  then show ?case by auto
next
  case (Cons q keys)
  have w: "jan_within t u (env i)" using Cons.prems(3) by force
  have h: "held owner k v (jn_release_time (env i)) u (clean_lock api unm currentEpoch (env i) q c)"
    by (rule clean_lock_keeps [where unm = unm and m = m and v = v, OF Cons.prems(1) assms(2,3)]) (use assms(5) w in simp_all)
  have next_in: "jan_within (jn_release_time (env i)) u (env (Suc i + j))" if "j < length keys" for j
  proof -
    have "jn_release_time (env i) \<le> jn_time (env (Suc i + j))" using that
    proof (induction j)
      case 0
      then show ?case using Cons.prems(4) [rule_format, of 0] by simp
    next
      case (Suc j)
      have "jn_time (env (Suc i + j)) \<le> jn_release_time (env (Suc i + j))"
        using Cons.prems(3) [rule_format, of "Suc j"] Suc.prems by (simp add: jan_within_def)
      moreover have "jn_release_time (env (Suc i + j)) \<le> jn_time (env (Suc i + Suc j))"
        using Cons.prems(4) [rule_format, of "Suc j"] Suc.prems by simp
      ultimately show ?case using Suc by simp
    qed
    then show ?thesis using Cons.prems(3) [rule_format, of "Suc j"] that by (simp add: jan_within_def)
  qed
  have "\<exists>t'. jn_release_time (env i) \<le> t' \<and> t' < u \<and>
      held owner k v t' u (clean_locks api unm currentEpoch env (Suc i) keys (clean_lock api unm currentEpoch (env i) q c))"
    using next_in w Cons.prems(4) by (intro Cons.IH [OF h]) (force simp: jan_within_def)+
  moreover have "t \<le> jn_release_time (env i)" using w by (simp add: jan_within_def)
  ultimately show ?case by (metis clean_locks.simps(2) order_trans)
qed

text \<open>A standby's round while another node holds the lease: it takes an epoch and nothing else.\<close>

lemma tick_standby:
  assumes "\<not> el_isLeader el" "incr (te_epoch_net te) (te_epoch_time te) ''leader_election'' s = (Inr e, s1)"
    and "te_between te (c, s1) = (c, s1)" "valid_ttl (el_ttl el)" "owner (te_time te) (el_lockKey el) c \<noteq> None"
  shows "\<exists>el' lp'. tick api incr mar te (el, lp, c, s) = (el', lp', c, s1) \<and> \<not> el_isLeader el'"
proof -
  let ?el = "acquire_epoch (Inr e) el"
  define val where "val = mar (new_metadata te e ?el)"
  obtain res c2 where a: "ca_Acquire api (te_net te) (te_time te) (el_lockKey el) val (el_ttl el) c = (res, c2)"
    by fastforce
  have c2: "c2 = c" "res \<noteq> Inr True" using acquire_held [OF assms(5,4) a] by simp_all
  have el: "el_lockKey ?el = el_lockKey el" "el_ttl ?el = el_ttl el" "\<not> el_isLeader ?el"
    using assms(1) by (simp_all add: acquire_epoch_def)
  have "acquire api incr mar te el (c, s) = (res, ?el, c, s1)"
    using a c2 by (cases res) (auto simp: acquire_def assms(2,3) acquire_lease_def Let_def el val_def)
  then show ?thesis using c2 el(3)
    by (simp add: tick_not_leader [OF assms(1)] acquire_round_def)
qed

text \<open>A lock of an older epoch goes, and its holder steps down at the next renewal.\<close>

lemma clean_fences:
  assumes "owner (jn_time (env 0)) k c = Some v" "owner (jn_release_time (env 0)) k c = Some v" "v \<noteq> []"
    and "unm v = Some m" "lm_Epoch m < currentEpoch" "\<not> is_epoch_key k"
    and "jn_net (env 0) = Delivered" "jn_release_net (env 0) = Delivered" "jn_release_time (env 0) \<le> x"
  shows "owner x k (clean api unm env (Inr currentEpoch) (Inr [k]) c) = None"
proof -
  obtain c' where r: "ca_Release api Delivered (jn_release_time (env 0)) k v c = (Inr (), c')"
    using release_answer by (metis prod.collapse)
  have "clean api unm env (Inr currentEpoch) (Inr [k]) c = c'"
    using assms(1,3-8) r by (simp add: clean_def clean_lock_def owner_read)
  then show ?thesis using release_own [OF r assms(2,9)] by simp
qed

lemma tick_deposed:
  assumes "el_isLeader el" "el_currentValue el \<noteq> []" "te_net te = Delivered"
    and "owner (te_time te) (el_lockKey el) c \<noteq> Some (el_currentValue el)"
  shows "\<not> el_isLeader (fst (tick api incr mar te (el, lp, c, s)))"
proof -
  have "fst (renew api te el c) = Inr False" using renew_refused [OF assms(4)] assms(2,3) by (simp add: renew_def)
  then show ?thesis using assms(1)
    by (cases "renew api te el c") (simp add: tick_def renew_round_def stepDown_def)
qed

end

section \<open>Properties\<close>

text \<open>
  The janitor spares current locks: while it works through any list of keys within the life of a
  lease whose metadata carry at least the durable epoch and have not expired for five seconds, the lease
  is kept, whatever other locks it releases and whatever requests are lost.
\<close>

theorem janitor_spares_current_locks:
  assumes "lease_service owner api" "held owner k v t u c" "v \<noteq> []" "unm v = Some m" "t < u"
    and "\<forall>j. fresh_lock currentEpoch (jn_now (env j)) m"
    and "\<forall>j < length keys. jan_within t u (env j)"
    and "\<forall>j. Suc j < length keys \<longrightarrow> jn_release_time (env j) \<le> jn_time (env (Suc j))"
  shows "\<exists>t'. t \<le> t' \<and> t' < u \<and> held owner k v t' u (clean api unm env (Inr currentEpoch) (Inr keys) c)"
  using lease_service.clean_locks_keep [OF assms(1), where unm = unm and m = m and v = v and env = env and i = 0, OF assms(2-6)]
    assms(7,8) by (simp add: clean_def)

text \<open>
  C15. The janitor deposes a healthy leader: a leader holds the lease with the current durable epoch; one
  standby runs one round, which fails to take the lease but has raised the durable epoch; the next
  \<open>clean\<close> takes the leader's lock for fenced and deletes it, and the leader's next renewal makes it step
  down, although its lease was in time.
\<close>

theorem janitor_deposes_leader:
  assumes "lease_service owner api" "epoch_counter incr get invar" "invar s" "get ''leader_election'' s < max_int64"
    and A: "el_isLeader A" "el_currentValue A \<noteq> []" "held owner (el_lockKey A) (el_currentValue A) t u c"
      "unm (el_currentValue A) = Some m" "lm_Epoch m = get ''leader_election'' s" "\<not> is_epoch_key (el_lockKey A)"
    and B: "\<not> el_isLeader B" "el_lockKey B = el_lockKey A" "valid_ttl (el_ttl B)" "te_between teB = (\<lambda>w. w)"
      "incr (te_epoch_net teB) (te_epoch_time teB) ''leader_election'' s = (Inr e, s')" "t \<le> te_time teB" "te_time teB < u"
    and J: "jn_net (env 0) = Delivered" "jn_release_net (env 0) = Delivered" "jan_within t u (env 0)"
    and after: "te_net teA = Delivered" "jn_release_time (env 0) \<le> te_time teA"
  shows "\<exists>B' lpB'. tick api incr mar teB (B, lpB, c, s) = (B', lpB', c, s') \<and> \<not> el_isLeader B' \<and>
     (let c' = clean api unm env (Inr (get ''leader_election'' s')) (Inr [el_lockKey A]) c
      in owner (te_time teA) (el_lockKey A) c' = None \<and>
         \<not> el_isLeader (fst (tick api incr mar teA (A, lpA, c', s'))))"
proof -
  have own: "owner x (el_lockKey A) c = Some (el_currentValue A)" if "t \<le> x" "x < u" for x
    using A(3) that by (simp add: held_def)
  have "te_between teB (c, s') = (c, s')" "owner (te_time teB) (el_lockKey B) c \<noteq> None"
    using B own by simp_all
  from lease_service.tick_standby [where incr = incr and te = teB and mar = mar and lp = lpB, OF assms(1) B(1) B(5) this(1) B(3) this(2)]
  obtain B' lpB' where b: "tick api incr mar teB (B, lpB, c, s) = (B', lpB', c, s')" "\<not> el_isLeader B'" by blast
  have e: "lm_Epoch m < get ''leader_election'' s'"
    using epoch_counter.incr_fresh [OF assms(2,3,4) B(5)] A(5) by simp
  let ?c = "clean api unm env (Inr (get ''leader_election'' s')) (Inr [el_lockKey A]) c"
  have gone: "owner (te_time teA) (el_lockKey A) ?c = None"
    by (rule lease_service.clean_fences [where unm = unm and m = m and v = "el_currentValue A" and env = env, OF assms(1) _ _ A(2,4) e A(6) J(1,2) after(2)])
      (use J(3) own in \<open>simp_all add: jan_within_def\<close>)
  then have "\<not> el_isLeader (fst (tick api incr mar teA (A, lpA, ?c, s')))"
    by (intro lease_service.tick_deposed [OF assms(1) A(1,2) after(1)]) simp
  then show ?thesis using b gone by (auto simp: Let_def)
qed

section \<open>Witnesses\<close>

definition jan_at :: "gotime \<Rightarrow> jan_env" where
  "jan_at t = \<lparr>jn_net = Delivered, jn_time = t, jn_now = t, jn_release_net = Delivered, jn_release_time = t\<rparr>"

definition first_lease :: lock_metadata where
  "first_lease = \<lparr>OwnerPod = ''a'', lm_Epoch = 1, ReqID = ''r'', lm_CreatedAt = 0, ExpiresAt = 30 * second\<rparr>"

definition leading :: elector where
  "leading = becomeLeader (node_a\<lparr>el_currentEpoch := 1, el_currentValue := ''a:1''\<rparr>)"

definition leased :: redis_map where
  "leased = [''fluxforge:lock:leader'' \<mapsto> (''a:1'', Some (30 * second))]"

definition epoch_one :: memory_store where
  "epoch_one = snd (ms_IncrementDurableEpoch ''leader_election'' NewMemoryStore)"

lemma leased_held: "held (rd_get map_redis) ''fluxforge:lock:leader'' ''a:1'' 0 (30 * second) leased"
  by (simp add: held_def leased_def map_redis_def map_get_def unexpired_def)

theorem janitor_spares_current_locks_witness:
  "\<exists>t'. 0 \<le> t' \<and> t' < 30 * second \<and> held (rd_get map_redis) ''fluxforge:lock:leader'' ''a:1'' t' (30 * second)
     (clean (redis_coord map_redis) (\<lambda>_. Some first_lease) (\<lambda>j. jan_at second) (Inr 1)
        (Inr [''fluxforge:lock:x'', ''fluxforge:lock:leader'']) leased)"
  by (rule janitor_spares_current_locks [OF map_redis.is_lease_service leased_held, where m = first_lease])
    (simp_all add: fresh_lock_def first_lease_def jan_at_def jan_within_def)

theorem janitor_deposes_leader_witness:
  "\<not> el_isLeader (fst (tick (redis_coord map_redis) memory_incr owner_text (env_at (10 * second))
     (leading, loop_start leading,
      clean (redis_coord map_redis) (\<lambda>_. Some first_lease) (\<lambda>j. jan_at (6 * second)) (Inr 2)
        (Inr [''fluxforge:lock:leader'']) leased,
      snd (ms_IncrementDurableEpoch ''leader_election'' epoch_one))))"
proof -
  have A: "el_lockKey leading = ''fluxforge:lock:leader''" "el_currentValue leading = ''a:1''" "el_isLeader leading"
    by (simp_all add: leading_def becomeLeader_def node_a_def NewLeaderElector_def)
  let ?s' = "snd (ms_IncrementDurableEpoch ''leader_election'' epoch_one)"
  have e: "epochs_int64 epoch_one" "ms_GetDurableEpoch ''leader_election'' epoch_one = 1"
    "memory_incr Delivered (5 * second) ''leader_election'' epoch_one = (Inr 2, ?s')"
    "ms_GetDurableEpoch ''leader_election'' ?s' = 2"
    by (simp_all add: epoch_one_def epochs_int64_def memory_incr_def ms_IncrementDurableEpoch_def NewMemoryStore_def
        Let_def int64_defs ms_GetDurableEpoch_def)
  from janitor_deposes_leader [where unm = "\<lambda>_. Some first_lease" and m = first_lease and A = leading and B = node_b
      and c = leased and t = 0 and u = "30 * second" and s = epoch_one and s' = ?s' and e = 2
      and teB = "env_at (5 * second)" and teA = "env_at (10 * second)" and env = "\<lambda>j. jan_at (6 * second)"
      and lpA = "loop_start leading" and mar = owner_text and lpB = "loop_start node_b" and incr = memory_incr,
      OF map_redis.is_lease_service memory_epochs.epoch_counter_axioms e(1)]
  show ?thesis
    using leased_held e thirty_seconds
    by (auto simp: A first_lease_def is_epoch_key_def node_b_def NewLeaderElector_def env_at_def jan_at_def jan_within_def
        int64_defs Let_def)
qed

end
