(* ===== verification/AgentMonitor.thy ===== *)
theory AgentMonitor
  imports MemoryStore TickerLoop
begin

text \<open>
  \<open>coordination/agent_monitor.go\<close>: a ticker around \<open>checkLiveness\<close>, which marks agents offline whose
  last heartbeat is older than the threshold and counts the others.

  The result of the listing is an argument, and so is the store's upsert. The result is the value the
  gauge of connected agents is set to, if it is set. \<open>monitor_loop\<close> is the goroutine \<open>Start\<close> leaves behind.
\<close>

record agent_monitor =
  am_interval :: duration
  am_threshold :: duration

definition NewAgentMonitor :: "duration \<Rightarrow> duration \<Rightarrow> agent_monitor" where
  "NewAgentMonitor i th = \<lparr>am_interval = i, am_threshold = th\<rparr>"

definition marked_offline :: "gotime \<Rightarrow> agent \<Rightarrow> agent" where
  "marked_offline now a = a\<lparr>a_Status := ''offline'', a_UpdatedAt := now\<rparr>"

definition expired :: "agent_monitor \<Rightarrow> gotime \<Rightarrow> agent \<Rightarrow> bool" where
  "expired m now a \<longleftrightarrow> am_threshold m < time_sub now (a_LastHeartbeat a)"

fun check_agents ::
  "agent_monitor \<Rightarrow> gotime \<Rightarrow> (string \<Rightarrow> agent \<Rightarrow> 's \<Rightarrow> go_error option \<times> 's) \<Rightarrow> agent list \<Rightarrow> int \<times> 's \<Rightarrow> int \<times> 's"
where
  "check_agents m now upsert [] (activeCount, s) = (activeCount, s)"
| "check_agents m now upsert (a # as) (activeCount, s) =
     (if a_Status a = ''offline'' then check_agents m now upsert as (activeCount, s)
      else if expired m now a
      then check_agents m now upsert as (activeCount, snd (upsert (a_TenantID a) (marked_offline now a) s))
      else check_agents m now upsert as (activeCount + 1, s))"

definition checkLiveness ::
  "agent_monitor \<Rightarrow> gotime \<Rightarrow> (string \<Rightarrow> agent \<Rightarrow> 's \<Rightarrow> go_error option \<times> 's) \<Rightarrow> go_error + agent list \<Rightarrow> 's \<Rightarrow>
   int option \<times> 's"
where
  "checkLiveness m now upsert listing s =
     (case listing of
        Inl _ \<Rightarrow> (None, s)
      | Inr as \<Rightarrow> (case check_agents m now upsert as (0, s) of (n, s') \<Rightarrow> (Some n, s')))"

text \<open>The value of the gauge and the store; \<open>now k\<close> and \<open>listing k\<close> are those of the \<open>k\<close>-th round.\<close>

definition monitor_loop ::
  "agent_monitor \<Rightarrow> (nat \<Rightarrow> gotime) \<Rightarrow> (string \<Rightarrow> agent \<Rightarrow> 's \<Rightarrow> go_error option \<times> 's) \<Rightarrow>
   (nat \<Rightarrow> 's \<Rightarrow> go_error + agent list) \<Rightarrow> select_choice list \<Rightarrow> int option \<times> 's \<Rightarrow> int option \<times> 's"
where
  "monitor_loop m now upsert listing cs gs =
     ticker_loop (\<lambda>k (g, s).
       case checkLiveness m (now k) upsert (listing k s) s of (n, s') \<Rightarrow> (if n = None then g else n, s')) 0 cs gs"

definition memory_upsert :: "string \<Rightarrow> agent \<Rightarrow> memory_store \<Rightarrow> go_error option \<times> memory_store" where
  "memory_upsert t a s = (None, ms_UpsertAgent t a s)"

section \<open>Lemmas\<close>

definition dead :: "agent_monitor \<Rightarrow> gotime \<Rightarrow> agent \<Rightarrow> bool" where
  "dead m now a \<longleftrightarrow> a_Status a \<noteq> ''offline'' \<and> expired m now a"

lemma check_agents_count:
  "fst (check_agents m now upsert as (n, s)) =
   n + int (length (filter (\<lambda>a. a_Status a \<noteq> ''offline'' \<and> \<not> expired m now a) as))"
  by (induction as arbitrary: n s) auto

lemma check_agents_store:
  "snd (check_agents m now memory_upsert as (n, s)) =
   fold (\<lambda>(t, a). ms_UpsertAgent t a) (map (\<lambda>a. (a_TenantID a, marked_offline now a)) (filter (dead m now) as)) s"
  by (induction as arbitrary: n s) (auto simp: dead_def memory_upsert_def)

lemma filter_distinct_key:
  assumes "distinct (map f xs)"
  shows "filter (\<lambda>x. f x = y \<and> P x) xs =
    (case List.find (\<lambda>x. f x = y \<and> P x) xs of None \<Rightarrow> [] | Some x \<Rightarrow> [x])"
  using assms
proof (induction xs)
  case (Cons z xs)
  have "f x \<noteq> f z" if "x \<in> set xs" for x using Cons.prems that by (metis distinct.simps(2) image_eqI list.map(2) list.set_map)
  then have "filter (\<lambda>x. f x = f z \<and> P x) xs = []" by (simp add: filter_empty_conv)
  then show ?case using Cons by auto
qed simp

text \<open>What \<open>ListAgents\<close> with no tenant can find.\<close>

lemma unnamed_prefix:
  assumes "t \<noteq> []" "no_colon t"
  shows "\<not> prefix (TenantPrefix [] ResourceAgent) (TenantKey t r i)"
  using assms by (cases t) (auto simp: TenantPrefix_def TenantKey_def no_colon_def)

lemma ms_writes_keys:
  assumes "\<forall>(t, w) \<in> set ws. t \<noteq> [] \<and> no_colon t"
    and "\<forall>k \<in> dom (ms_agents s). \<not> prefix (TenantPrefix [] ResourceAgent) k"
  shows "\<forall>k \<in> dom (ms_agents (ms_writes ws s)). \<not> prefix (TenantPrefix [] ResourceAgent) k"
  using assms
proof (induction ws arbitrary: s)
  case (Cons tw ws)
  obtain t w where tw: "tw = (t, w)" by (cases tw)
  have "\<forall>k \<in> dom (ms_agents (ms_write t w s)). \<not> prefix (TenantPrefix [] ResourceAgent) k"
    using Cons.prems unnamed_prefix [of t] by (cases w) (auto simp: tw ms_write_defs Let_def split: option.splits)
  then show ?case using Cons by (simp add: tw ms_writes_def)
qed (simp add: ms_writes_def)

section \<open>Properties\<close>

text \<open>
  The monitor marks the dead and nobody else: over the memory store, for a listing without
  duplicates, an agent that is listed, not offline and whose heartbeat is older than the threshold reads
  as offline afterwards, with nothing else of it changed but its update time; every other agent reads
  as before; and the gauge is the number of the listed agents that are alive.
\<close>

theorem monitor_marks_the_dead:
  assumes "distinct (map (\<lambda>a. (a_TenantID a, a_NodeID a)) as)" "\<forall>a \<in> set as. no_colon (a_TenantID a)" "no_colon t"
    and "checkLiveness m now memory_upsert (Inr as) s = (n, s')"
  shows "n = Some (int (length (filter (\<lambda>a. a_Status a \<noteq> ''offline'' \<and> \<not> expired m now a) as))) \<and>
     ms_GetAgent t i s' =
       (case List.find (\<lambda>a. (a_TenantID a, a_NodeID a) = (t, i) \<and> dead m now a) as of
          Some a \<Rightarrow> Some (marked_offline now a)
        | None \<Rightarrow> ms_GetAgent t i s)"
proof -
  let ?mark = "\<lambda>a. (a_TenantID a, marked_offline now a)"
  let ?puts = "map ?mark (filter (dead m now) as)"
  let ?is = "\<lambda>a. (a_TenantID a, a_NodeID a) = (t, i) \<and> dead m now a"
  have s': "s' = fold (\<lambda>(t, a). ms_UpsertAgent t a) ?puts s"
    using assms(4) check_agents_store [of m now as 0 s] by (auto simp: checkLiveness_def split: prod.splits)
  have "filter (\<lambda>(u, a). u = t \<and> a_NodeID a = i) ?puts = map ?mark (filter ?is as)"
    by (auto simp: filter_map o_def marked_offline_def conj_commute conj_left_commute intro: filter_cong)
  then have "filter (\<lambda>(u, a). u = t \<and> a_NodeID a = i) (rev ?puts) =
      (case List.find ?is as of None \<Rightarrow> [] | Some a \<Rightarrow> [?mark a])"
    unfolding rev_filter [symmetric] filter_distinct_key [OF assms(1)] by (simp split: option.split)
  moreover have "a_TenantID a = t" if "List.find ?is as = Some a" for a
    using that by (auto simp: find_Some_iff)
  ultimately have "ms_GetAgent t i s' =
      (case List.find ?is as of Some a \<Rightarrow> Some (marked_offline now a) | None \<Rightarrow> ms_GetAgent t i s)"
    using ms_agent_records.get_puts [of t ?puts i s] assms(2,3) s'
    by (auto simp: marked_offline_def split: option.splits)
  then show ?thesis
    using assms(4) check_agents_count [of m now memory_upsert as 0 s]
    by (auto simp: checkLiveness_def split: prod.splits)
qed

lemma idle_round:
  assumes "\<forall>(t, w) \<in> set ws. t \<noteq> [] \<and> no_colon t" "s = ms_writes ws NewMemoryStore"
    and "map_order (ms_agents s) ks"
  shows "checkLiveness m now memory_upsert (Inr (ms_ListAgents ks [] s)) s = (Some 0, s)"
proof -
  have "\<forall>k \<in> dom (ms_agents s). \<not> prefix (TenantPrefix [] ResourceAgent) k"
    unfolding assms(2) by (rule ms_writes_keys [OF assms(1)]) (simp add: NewMemoryStore_def)
  then have "filter (\<lambda>key. prefix (TenantPrefix [] ResourceAgent) key) ks = []"
    using assms(3) by (simp add: filter_empty_conv map_order_def)
  then show ?thesis by (simp add: ms_ListAgents_def map_values_def List.map_filter_def checkLiveness_def)
qed

text \<open>
  The monitor sees no tenant: it lists the agents of the empty tenant, and the memory store reads
  that as a tenant of its own; after any writes of named tenants (without colons) it changes nothing
  and reports zero connected agents, however many agents are stale.
\<close>

theorem monitor_sees_no_tenant:
  assumes "\<forall>(t, w) \<in> set ws. t \<noteq> [] \<and> no_colon t" "s = ms_writes ws NewMemoryStore"
    and "map_order (ms_agents s) ks"
  shows "checkLiveness m now memory_upsert (Inr (ms_ListAgents ks [] s)) s = (Some 0, s)"
  by (rule idle_round [OF assms])

text \<open>So its goroutine never changes the memory store, however long it runs.\<close>

lemma monitor_loop_idle:
  assumes "\<forall>(t, w) \<in> set ws. t \<noteq> [] \<and> no_colon t" "s = ms_writes ws NewMemoryStore" "\<forall>k. map_order (ms_agents s) (ks k)"
  shows "snd (monitor_loop m now memory_upsert (\<lambda>k s'. Inr (ms_ListAgents (ks k) [] s')) cs (g, s)) = s"
  unfolding monitor_loop_def
proof (rule ticker_loop_inv [where P = "\<lambda>gs. snd gs = s"])
  fix k and gs :: "int option \<times> memory_store"
  assume "snd gs = s"
  moreover have "checkLiveness m (now k) memory_upsert (Inr (ms_ListAgents (ks k) [] s)) s = (Some 0, s)"
    by (rule idle_round [OF assms(1,2)]) (use assms(3) in simp)
  ultimately show "snd ((\<lambda>(g, s'). case checkLiveness m (now k) memory_upsert (Inr (ms_ListAgents (ks k) [] s')) s' of
      (n, s'') \<Rightarrow> (if n = None then g else n, s'')) gs) = s"
    by (simp add: split_beta)
qed simp

section \<open>Witnesses\<close>

definition stale_agent :: agent where
  "stale_agent = zero_agent\<lparr>a_NodeID := ''n'', a_TenantID := ''a'', a_Status := ''active''\<rparr>"

definition monitor5 :: agent_monitor where
  "monitor5 = NewAgentMonitor (5 * second) (10 * second)"

theorem monitor_marks_the_dead_witness:
  "ms_GetAgent ''a'' ''n'' (snd (checkLiveness monitor5 minute memory_upsert (Inr [stale_agent])
     (ms_UpsertAgent ''a'' stale_agent NewMemoryStore))) = Some (marked_offline minute stale_agent)"
proof -
  let ?s = "ms_UpsertAgent ''a'' stale_agent NewMemoryStore"
  obtain n s' where c: "checkLiveness monitor5 minute memory_upsert (Inr [stale_agent]) ?s = (n, s')" by fastforce
  have "dead monitor5 minute stale_agent"
    by (simp add: dead_def expired_def monitor5_def NewAgentMonitor_def stale_agent_def zero_agent_def time_sub_def int64_defs)
  moreover have "a_TenantID stale_agent = ''a''" "a_NodeID stale_agent = ''n''" by (simp_all add: stale_agent_def)
  ultimately have "ms_GetAgent ''a'' ''n'' s' = Some (marked_offline minute stale_agent)"
    using monitor_marks_the_dead [OF _ _ _ c, of "''a''" "''n''"] by (simp add: no_colon_def)
  then show ?thesis by (simp only: c snd_conv)
qed

theorem monitor_sees_no_tenant_witness:
  "fst (checkLiveness monitor5 minute memory_upsert
     (Inr (ms_ListAgents [TenantKey ''a'' ResourceAgent ''n''] [] (ms_UpsertAgent ''a'' stale_agent NewMemoryStore)))
     (ms_UpsertAgent ''a'' stale_agent NewMemoryStore)) = Some 0"
proof -
  have "map_order (ms_agents (ms_UpsertAgent ''a'' stale_agent NewMemoryStore)) [TenantKey ''a'' ResourceAgent ''n'']"
    by (simp add: map_order_def ms_UpsertAgent_def NewMemoryStore_def Let_def stale_agent_def)
  then show ?thesis
    using monitor_sees_no_tenant [of "[(''a'', WAgent stale_agent)]"] by (simp add: ms_writes_def no_colon_def)
qed

end
