(* ===== verification/Metrics.thy ===== *)
theory Metrics
  imports Float64
begin

text \<open>
  \<open>observability/metrics.go\<close>: the Prometheus metrics of the control plane, one definition per variable with its
  name, labels and buckets (help texts are left out), and \<open>promauto\<close>'s registration of them when the
  package is initialised, in the order of the file.

  The client library is not part of this repository. It is the record \<open>prometheus\<close> over a state \<open>'m\<close>, with its
  documented behaviour as the locale \<open>metrics_registry\<close>: a name is registered once and buckets increase, or
  registration panics (\<open>None\<close>); label values are as many as the labels and text in UTF-8, or the update
  panics; an update changes its own series only. \<open>Telemetry\<close> has the updates the program makes.
\<close>

section \<open>Descriptions and updates\<close>

datatype metric_kind = CounterKind | GaugeKind | HistogramKind

datatype bucket_spec = NoBuckets | DefBuckets | ExponentialBuckets real real nat

record metric_desc =
  md_kind :: metric_kind
  md_Name :: string
  md_labels :: "string list"
  md_buckets :: bucket_spec

definition NewCounterVec :: "string \<Rightarrow> string list \<Rightarrow> metric_desc" where
  "NewCounterVec name ls = \<lparr>md_kind = CounterKind, md_Name = name, md_labels = ls, md_buckets = NoBuckets\<rparr>"

definition NewGaugeVec :: "string \<Rightarrow> string list \<Rightarrow> metric_desc" where
  "NewGaugeVec name ls = \<lparr>md_kind = GaugeKind, md_Name = name, md_labels = ls, md_buckets = NoBuckets\<rparr>"

definition NewCounter :: "string \<Rightarrow> metric_desc" where
  "NewCounter name = NewCounterVec name []"

definition NewGauge :: "string \<Rightarrow> metric_desc" where
  "NewGauge name = NewGaugeVec name []"

definition NewHistogram :: "string \<Rightarrow> bucket_spec \<Rightarrow> metric_desc" where
  "NewHistogram name b = \<lparr>md_kind = HistogramKind, md_Name = name, md_labels = [], md_buckets = b\<rparr>"

lemmas new_metric_defs = NewCounterVec_def NewGaugeVec_def NewCounter_def NewGauge_def NewHistogram_def

text \<open>\<open>Inc\<close>, \<open>Set\<close> and \<open>Observe\<close>, on the series of the label values.\<close>

datatype metric_update =
    Inc (updated: metric_desc) (label_values: "string list")
  | SetTo (updated: metric_desc) (label_values: "string list") f64
  | Observe (updated: metric_desc) (label_values: "string list") f64

section \<open>The client library\<close>

record 'm prometheus =
  pr_buckets :: "bucket_spec \<Rightarrow> real list"
  pr_register :: "metric_desc \<Rightarrow> 'm \<Rightarrow> 'm option"
  pr_update :: "metric_update \<Rightarrow> 'm \<Rightarrow> 'm option"
  pr_counter :: "metric_desc \<Rightarrow> string list \<Rightarrow> 'm \<Rightarrow> nat"
  pr_gauge :: "metric_desc \<Rightarrow> string list \<Rightarrow> 'm \<Rightarrow> f64 option"

text \<open>Names and labels the data model of Prometheus allows.\<close>

definition name_char :: "char \<Rightarrow> bool" where
  "name_char c \<longleftrightarrow> (let n = (of_char c :: nat) in
     97 \<le> n \<and> n \<le> 122 \<or> 65 \<le> n \<and> n \<le> 90 \<or> 48 \<le> n \<and> n \<le> 57 \<or> n = 95)"

definition valid_name :: "string \<Rightarrow> bool" where
  "valid_name s \<longleftrightarrow> s \<noteq> [] \<and> list_all name_char s \<and> \<not> (48 \<le> (of_char (hd s) :: nat) \<and> (of_char (hd s) :: nat) \<le> 57)"

definition valid_desc :: "metric_desc \<Rightarrow> bool" where
  "valid_desc d \<longleftrightarrow> valid_name (md_Name d) \<and> list_all valid_name (md_labels d) \<and> distinct (md_labels d)"

definition ascii :: "string \<Rightarrow> bool" where
  "ascii s \<longleftrightarrow> list_all (\<lambda>c. of_char c < (128::nat)) s"

definition labels_fit :: "(string \<Rightarrow> bool) \<Rightarrow> metric_update \<Rightarrow> bool" where
  "labels_fit utf8 u \<longleftrightarrow> length (label_values u) = length (md_labels (updated u)) \<and> list_all utf8 (label_values u)"

locale metrics_registry =
  fixes pr :: "'m prometheus" and registered :: "'m \<Rightarrow> metric_desc list" and utf8 :: "string \<Rightarrow> bool"
  assumes register_new: "md_Name d \<notin> md_Name ` set (registered m) \<Longrightarrow> valid_desc d \<Longrightarrow>
      sorted_wrt (<) (pr_buckets pr (md_buckets d)) \<Longrightarrow>
      \<exists>m'. pr_register pr d m = Some m' \<and> registered m' = d # registered m"
    and register_twice: "md_Name d \<in> md_Name ` set (registered m) \<Longrightarrow> pr_register pr d m = None"
    and update_fits: "updated u \<in> set (registered m) \<Longrightarrow> labels_fit utf8 u \<Longrightarrow>
      \<exists>m'. pr_update pr u m = Some m' \<and> registered m' = registered m"
    and update_misfits: "length (label_values u) \<noteq> length (md_labels (updated u)) \<Longrightarrow> pr_update pr u m = None"
    and counter: "pr_update pr u m = Some m' \<Longrightarrow>
      pr_counter pr d ls m' = pr_counter pr d ls m + (if u = Inc d ls then 1 else 0)"
    and gauge: "pr_update pr u m = Some m' \<Longrightarrow>
      pr_gauge pr d ls m' = (case u of SetTo d' ls' v \<Rightarrow> if d' = d \<and> ls' = ls then Some v else pr_gauge pr d ls m
        | _ \<Rightarrow> pr_gauge pr d ls m)"
    and no_buckets: "pr_buckets pr NoBuckets = []"
    and def_buckets: "sorted_wrt (<) (pr_buckets pr DefBuckets)"
    and exponential: "0 < start \<Longrightarrow> 1 < factor \<Longrightarrow> 0 < n \<Longrightarrow>
      pr_buckets pr (ExponentialBuckets start factor n) = map (\<lambda>i. start * factor ^ i) [0..<n]"
    and utf8_ascii: "ascii s \<Longrightarrow> utf8 s"

fun register_all :: "'m prometheus \<Rightarrow> metric_desc list \<Rightarrow> 'm \<Rightarrow> 'm option" where
  "register_all pr [] m = Some m"
| "register_all pr (d # ds) m = (case pr_register pr d m of None \<Rightarrow> None | Some m' \<Rightarrow> register_all pr ds m')"

fun update_all :: "'m prometheus \<Rightarrow> metric_update list \<Rightarrow> 'm \<Rightarrow> 'm option" where
  "update_all pr [] m = Some m"
| "update_all pr (u # us) m = (case pr_update pr u m of None \<Rightarrow> None | Some m' \<Rightarrow> update_all pr us m')"

section \<open>The metrics\<close>

definition TaskQueueDepth :: metric_desc where
  "TaskQueueDepth = NewGaugeVec ''flux_queue_depth'' [''priority'']"

definition SchedulerDecisions :: metric_desc where
  "SchedulerDecisions = NewCounterVec ''flux_scheduler_decisions_total'' [''decision'', ''reason'']"

definition DomainHealth :: metric_desc where
  "DomainHealth = NewGaugeVec ''flux_domain_health'' [''domain'']"

definition SchedulerLoopDuration :: metric_desc where
  "SchedulerLoopDuration = NewHistogram ''flux_scheduler_loop_duration_seconds'' DefBuckets"

definition QueueOldestTaskAge :: metric_desc where
  "QueueOldestTaskAge = NewGaugeVec ''flux_queue_oldest_task_age_seconds'' [''tenant'', ''priority'']"

definition SchedulerModeMetric :: metric_desc where
  "SchedulerModeMetric = NewGaugeVec ''flux_scheduler_mode'' [''mode'']"

definition LeadershipEpoch :: metric_desc where
  "LeadershipEpoch = NewGaugeVec ''flux_leader_epoch'' [''node_id'']"

definition LeadershipTransitions :: metric_desc where
  "LeadershipTransitions = NewCounterVec ''flux_leader_transitions_total'' [''node_id'', ''event'']"

definition TaskTimeouts :: metric_desc where
  "TaskTimeouts = NewCounterVec ''flux_task_timeouts_total'' [''state_id'', ''phase'', ''timeout_reason'']"

definition TaskRuntimeSeconds :: metric_desc where
  "TaskRuntimeSeconds = NewHistogram ''flux_task_runtime_seconds'' (ExponentialBuckets 1 2 10)"

definition SchedulerQueueDepth :: metric_desc where
  "SchedulerQueueDepth = NewGauge ''flux_scheduler_queue_depth''"

definition SchedulerWorkerSaturation :: metric_desc where
  "SchedulerWorkerSaturation = NewGauge ''flux_scheduler_worker_saturation''"

definition SchedulerRejections :: metric_desc where
  "SchedulerRejections = NewCounterVec ''flux_scheduler_rejections_total'' [''reason'']"

definition SchedulerCircuitState :: metric_desc where
  "SchedulerCircuitState = NewGaugeVec ''flux_scheduler_circuit_state'' [''state'']"

definition EventPublishFailures :: metric_desc where
  "EventPublishFailures = NewCounterVec ''flux_event_publish_failures_total'' [''event_type'', ''reason'']"

definition IntentAgeSeconds :: metric_desc where
  "IntentAgeSeconds = NewHistogram ''flux_intent_age_seconds'' (ExponentialBuckets 1 2 12)"

definition TaskRetries :: metric_desc where
  "TaskRetries = NewCounter ''flux_task_retries_total''"

definition TaskSuccesses :: metric_desc where
  "TaskSuccesses = NewCounter ''flux_task_success_total''"

definition DBPendingStates :: metric_desc where
  "DBPendingStates = NewGaugeVec ''flux_db_pending_states'' [''tenant'']"

definition SchedulerAdmissionWaitSeconds :: metric_desc where
  "SchedulerAdmissionWaitSeconds = NewHistogram ''flux_scheduler_admission_wait_seconds'' (ExponentialBuckets (1 / 100) 2 12)"

definition RuntimeMode_gauge :: metric_desc where
  "RuntimeMode_gauge = NewGaugeVec ''flux_runtime_mode'' [''mode'']"

definition IntegritySkew :: metric_desc where
  "IntegritySkew = NewGaugeVec ''flux_integrity_skew_count'' [''tenant'']"

definition LeadershipTransitionDuration :: metric_desc where
  "LeadershipTransitionDuration = NewHistogram ''flux_leader_transition_duration_seconds'' (ExponentialBuckets (1 / 10) 2 10)"

definition APIRateLimited :: metric_desc where
  "APIRateLimited = NewCounterVec ''flux_api_rate_limited_total'' [''endpoint'']"

definition SchedulerTaskWaitSeconds :: metric_desc where
  "SchedulerTaskWaitSeconds = NewHistogram ''flux_scheduler_task_wait_seconds'' (ExponentialBuckets (1 / 10) 2 10)"

definition RedisLatency :: metric_desc where
  "RedisLatency = NewHistogram ''flux_redis_roundtrip_latency_seconds'' (ExponentialBuckets (1 / 1000) 2 10)"

definition VersionedWriteSuccess :: metric_desc where
  "VersionedWriteSuccess = NewCounter ''flux_versioned_write_success_total''"

definition VersionedWriteConflict :: metric_desc where
  "VersionedWriteConflict = NewCounter ''flux_versioned_write_conflict_total''"

definition ReconciliationEpochAbort :: metric_desc where
  "ReconciliationEpochAbort = NewCounter ''flux_reconciliation_epoch_abort_total''"

definition LeaderStatus :: metric_desc where
  "LeaderStatus = NewGauge ''flux_leader_status''"

definition IdempotencyLockAcquired :: metric_desc where
  "IdempotencyLockAcquired = NewCounter ''flux_idempotency_lock_acquired_total''"

definition IdempotencyLockExpired :: metric_desc where
  "IdempotencyLockExpired = NewCounter ''flux_idempotency_lock_expired_total''"

definition ConnectedAgents :: metric_desc where
  "ConnectedAgents = NewGauge ''flux_connected_agents''"

definition program_metrics :: "metric_desc list" where
  "program_metrics =
     [TaskQueueDepth, SchedulerDecisions, DomainHealth, SchedulerLoopDuration, QueueOldestTaskAge,
      SchedulerModeMetric, LeadershipEpoch, LeadershipTransitions, TaskTimeouts, TaskRuntimeSeconds,
      SchedulerQueueDepth, SchedulerWorkerSaturation, SchedulerRejections, SchedulerCircuitState,
      EventPublishFailures, IntentAgeSeconds, TaskRetries, TaskSuccesses, DBPendingStates,
      SchedulerAdmissionWaitSeconds, RuntimeMode_gauge, IntegritySkew, LeadershipTransitionDuration,
      APIRateLimited, SchedulerTaskWaitSeconds, RedisLatency, VersionedWriteSuccess,
      VersionedWriteConflict, ReconciliationEpochAbort, LeaderStatus, IdempotencyLockAcquired,
      IdempotencyLockExpired, ConnectedAgents]"

lemmas metric_defs =
  TaskQueueDepth_def SchedulerDecisions_def DomainHealth_def SchedulerLoopDuration_def
  QueueOldestTaskAge_def SchedulerModeMetric_def LeadershipEpoch_def LeadershipTransitions_def
  TaskTimeouts_def TaskRuntimeSeconds_def SchedulerQueueDepth_def SchedulerWorkerSaturation_def
  SchedulerRejections_def SchedulerCircuitState_def EventPublishFailures_def IntentAgeSeconds_def
  TaskRetries_def TaskSuccesses_def DBPendingStates_def SchedulerAdmissionWaitSeconds_def
  RuntimeMode_gauge_def IntegritySkew_def LeadershipTransitionDuration_def APIRateLimited_def
  SchedulerTaskWaitSeconds_def RedisLatency_def VersionedWriteSuccess_def VersionedWriteConflict_def
  ReconciliationEpochAbort_def LeaderStatus_def IdempotencyLockAcquired_def IdempotencyLockExpired_def
  ConnectedAgents_def

lemma program_metrics_valid: "list_all valid_desc program_metrics"
  by code_simp

lemma program_metrics_names: "distinct (map md_Name program_metrics)"
  by code_simp

text \<open>The buckets the program asks for.\<close>

fun buckets_ok :: "bucket_spec \<Rightarrow> bool" where
  "buckets_ok (ExponentialBuckets start factor n) \<longleftrightarrow> 0 < start \<and> 1 < factor \<and> 0 < n"
| "buckets_ok b \<longleftrightarrow> True"

lemma program_metrics_buckets: "list_all (\<lambda>d. buckets_ok (md_buckets d)) program_metrics"
  by (simp add: program_metrics_def metric_defs new_metric_defs)

section \<open>What the library gives its users\<close>

text \<open>The last value a list of updates gives a gauge.\<close>

fun last_set :: "metric_desc \<Rightarrow> string list \<Rightarrow> metric_update list \<Rightarrow> f64 option" where
  "last_set d ls [] = None"
| "last_set d ls (u # us) =
     (case last_set d ls us of
        Some v \<Rightarrow> Some v
      | None \<Rightarrow> (case u of SetTo d' ls' v \<Rightarrow> if d' = d \<and> ls' = ls then Some v else None | _ \<Rightarrow> None))"

lemma last_set_append:
  "last_set d ls (us @ vs) = (case last_set d ls vs of None \<Rightarrow> last_set d ls us | Some v \<Rightarrow> Some v)"
  by (induction us) (simp_all split: option.splits)

context metrics_registry
begin

lemma sorted_buckets: "buckets_ok b \<Longrightarrow> sorted_wrt (<) (pr_buckets pr b)"
proof (cases b)
  case (ExponentialBuckets start factor n)
  assume "buckets_ok b"
  then show ?thesis
    by (auto simp: ExponentialBuckets exponential sorted_wrt_iff_nth_less
        intro!: mult_strict_left_mono power_strict_increasing)
qed (simp_all add: no_buckets def_buckets)

lemma register_all_new:
  assumes "distinct (map md_Name ds)" "md_Name ` set ds \<inter> md_Name ` set (registered m) = {}"
    and "list_all valid_desc ds" "list_all (\<lambda>d. buckets_ok (md_buckets d)) ds"
  shows "\<exists>m'. register_all pr ds m = Some m' \<and> set (registered m') = set ds \<union> set (registered m)"
  using assms
proof (induction ds arbitrary: m)
  case (Cons d ds)
  then obtain m1 where m1: "pr_register pr d m = Some m1" "registered m1 = d # registered m"
    using register_new [of d m] sorted_buckets by auto
  have "\<exists>m'. register_all pr ds m1 = Some m' \<and> set (registered m') = set ds \<union> set (registered m1)"
    by (rule Cons.IH) (use Cons.prems m1(2) in auto)
  then show ?case using m1 by auto
qed simp

lemma register_all_program:
  "registered m = [] \<Longrightarrow>
   \<exists>m'. register_all pr program_metrics m = Some m' \<and> set (registered m') = set program_metrics"
  using register_all_new [OF program_metrics_names, of m] program_metrics_valid program_metrics_buckets by simp

lemma update_all_fits:
  assumes "\<forall>u \<in> set us. updated u \<in> set (registered m) \<and> labels_fit utf8 u"
  shows "\<exists>m'. update_all pr us m = Some m' \<and> registered m' = registered m"
  using assms
proof (induction us arbitrary: m)
  case (Cons u us)
  then obtain m1 where m1: "pr_update pr u m = Some m1" "registered m1 = registered m"
    using update_fits [of u m] by auto
  with Cons obtain m' where "update_all pr us m1 = Some m'" "registered m' = registered m1"
    by (metis list.set_intros(2))
  then show ?case using m1 by simp
qed simp

lemma update_all_counter:
  "update_all pr us m = Some m' \<Longrightarrow> pr_counter pr d ls m' = pr_counter pr d ls m + count_list us (Inc d ls)"
  by (induction us arbitrary: m) (auto split: option.splits dest: counter [of _ _ _ d ls])

lemma update_all_gauge:
  "update_all pr us m = Some m' \<Longrightarrow>
   pr_gauge pr d ls m' = (case last_set d ls us of None \<Rightarrow> pr_gauge pr d ls m | Some v \<Rightarrow> Some v)"
proof (induction us arbitrary: m)
  case (Cons u us)
  then obtain m1 where m1: "pr_update pr u m = Some m1" "update_all pr us m1 = Some m'"
    by (auto split: option.splits)
  show ?case using Cons.IH [OF m1(2)] gauge [OF m1(1), of d ls] by (auto split: option.splits metric_update.splits)
qed simp

end

section \<open>The laws can be met\<close>

record map_prom =
  mp_registered :: "metric_desc list"
  mp_counters :: "metric_desc \<times> string list \<Rightarrow> nat"
  mp_gauges :: "metric_desc \<times> string list \<rightharpoonup> f64"

definition map_register :: "(bucket_spec \<Rightarrow> real list) \<Rightarrow> metric_desc \<Rightarrow> map_prom \<Rightarrow> map_prom option" where
  "map_register buckets d m =
     (if md_Name d \<in> md_Name ` set (mp_registered m) \<or> \<not> valid_desc d \<or> \<not> sorted_wrt (<) (buckets (md_buckets d)) then None
      else Some (m\<lparr>mp_registered := d # mp_registered m\<rparr>))"

definition map_update :: "metric_update \<Rightarrow> map_prom \<Rightarrow> map_prom option" where
  "map_update u m =
     (if \<not> labels_fit ascii u then None
      else Some (case u of
          Inc d ls \<Rightarrow> m\<lparr>mp_counters := (mp_counters m)((d, ls) := mp_counters m (d, ls) + 1)\<rparr>
        | SetTo d ls v \<Rightarrow> m\<lparr>mp_gauges := (mp_gauges m)((d, ls) \<mapsto> v)\<rparr>
        | Observe d ls v \<Rightarrow> m))"

fun map_buckets :: "bucket_spec \<Rightarrow> real list" where
  "map_buckets NoBuckets = []"
| "map_buckets DefBuckets = [5 / 1000, 1 / 100, 25 / 1000, 5 / 100, 1 / 10, 25 / 100, 5 / 10, 1, 25 / 10, 5, 10]"
| "map_buckets (ExponentialBuckets start factor n) = map (\<lambda>i. start * factor ^ i) [0..<n]"

definition map_prom :: "map_prom prometheus" where
  "map_prom =
     \<lparr>pr_buckets = map_buckets, pr_register = map_register map_buckets, pr_update = map_update,
      pr_counter = (\<lambda>d ls m. mp_counters m (d, ls)), pr_gauge = (\<lambda>d ls m. mp_gauges m (d, ls))\<rparr>"

interpretation map_prom: metrics_registry map_prom mp_registered ascii
  by unfold_locales
    (auto simp: map_prom_def map_register_def map_update_def labels_fit_def split: metric_update.splits if_splits)

end
