(* ===== verification/LeaderSync.thy ===== *)
theory LeaderSync
  imports PendingSync TickerLoop
begin

text \<open>
  \<open>resilience/leader_reconciliation.go\<close>: only the leader synchronises the pending writes, and only
  while its epoch is current; or, alternatively, the holder of a distributed lock does.

  The degraded mode and the versioned store are the \<open>sync_state\<close> of \<open>PendingSync\<close>. \<open>getLeaderInfo\<close> is
  a parameter, given by its result (\<open>None\<close> is a nil pointer, which the code dereferences), and
  \<open>later\<close> is what \<open>UpdateLeadershipStatus\<close> calls of other goroutines make of the coordinator while
  the writes are being sent.
\<close>

record leader_epoch =
  le_Epoch :: int
  le_LeaderID :: string
  le_StartTime :: gotime

record coordinator =
  co_nodeID :: string
  currentEpoch :: int
  leaderID :: string
  isLeader :: bool

definition NewReconciliationCoordinator :: "string \<Rightarrow> coordinator" where
  "NewReconciliationCoordinator nodeID =
     \<lparr>co_nodeID = nodeID, currentEpoch = 0, leaderID = [], isLeader = False\<rparr>"

definition UpdateLeadershipStatus :: "int \<Rightarrow> string \<Rightarrow> bool \<Rightarrow> coordinator \<Rightarrow> coordinator" where
  "UpdateLeadershipStatus epoch leader is c =
     c\<lparr>currentEpoch := epoch, leaderID := leader, isLeader := is\<rparr>"

datatype coordinator_error =
    LeaderInfoFailed go_error
  | NilLeaderInfo
  | LeadershipChanged int int
  | ReconciliationFailed reconciliation_error

type_synonym leader_info = "go_error + leader_epoch option"

definition ReconcileIfLeader ::
  "('r, 'v) versioned_writer \<Rightarrow> ('r, 'v) sync_env \<Rightarrow> (nat \<Rightarrow> gotime) \<Rightarrow> leader_info \<Rightarrow>
   (coordinator \<Rightarrow> coordinator) \<Rightarrow> coordinator \<Rightarrow> ('r, 'v) sync_state \<Rightarrow>
   (coordinator_error + unit) \<times> ('r, 'v) sync_state"
where
  "ReconcileIfLeader w env clk info later c st =
     (if \<not> isLeader c then (Inr (), st)
      else
        let startEpoch = currentEpoch c in
        if GetPendingWriteCount (fst st) = 0 then (Inr (), st)
        else case info of
            Inl e \<Rightarrow> (Inl (LeaderInfoFailed e), st)
          | Inr None \<Rightarrow> (Inl NilLeaderInfo, st)
          | Inr (Some li) \<Rightarrow>
              if le_Epoch li \<noteq> startEpoch then (Inl (LeadershipChanged startEpoch (le_Epoch li)), st)
              else
                let (res, st') = ReconcilePendingWrites w env clk st;
                    epoch = currentEpoch (later c)
                in if epoch \<noteq> startEpoch then (Inl (LeadershipChanged startEpoch epoch), st')
                   else case res of
                       Inl e \<Rightarrow> (Inl (ReconciliationFailed e), st')
                     | Inr _ \<Rightarrow> (Inr (), st'))"

text \<open>One tick of \<open>StartPeriodicReconciliation\<close>; an error is only logged.\<close>

definition periodic_tick ::
  "('r, 'v) versioned_writer \<Rightarrow> ('r, 'v) sync_env \<Rightarrow> (nat \<Rightarrow> gotime) \<Rightarrow> leader_info \<Rightarrow>
   (coordinator \<Rightarrow> coordinator) \<Rightarrow> coordinator \<Rightarrow> ('r, 'v) sync_state \<Rightarrow> ('r, 'v) sync_state"
where
  "periodic_tick w env clk info later c st =
     (if \<not> isLeader c then st else snd (ReconcileIfLeader w env clk info later c st))"

text \<open>The loop around it; \<open>c k\<close> is the coordinator as the \<open>k\<close>-th tick finds it.\<close>

definition StartPeriodicReconciliation ::
  "('r, 'v) versioned_writer \<Rightarrow> (nat \<Rightarrow> ('r, 'v) sync_env) \<Rightarrow> (nat \<Rightarrow> nat \<Rightarrow> gotime) \<Rightarrow> (nat \<Rightarrow> leader_info) \<Rightarrow>
   (nat \<Rightarrow> coordinator \<Rightarrow> coordinator) \<Rightarrow> (nat \<Rightarrow> coordinator) \<Rightarrow> select_choice list \<Rightarrow>
   ('r, 'v) sync_state \<Rightarrow> ('r, 'v) sync_state"
where
  "StartPeriodicReconciliation w env clk info later c cs st =
     ticker_loop (\<lambda>k. periodic_tick w (env k) (clk k) (info k) (later k) (c k)) 0 cs st"

lemma followers_never_sync:
  "(\<And>k. \<not> isLeader (c k)) \<Longrightarrow> StartPeriodicReconciliation w env clk info later c cs st = st"
  unfolding StartPeriodicReconciliation_def by (rule ticker_loop_id) (simp add: periodic_tick_def)

section \<open>The distributed lock\<close>

record 'k lock_store =
  AcquireLock :: "string \<Rightarrow> duration \<Rightarrow> 'k \<Rightarrow> (go_error + bool) \<times> 'k"
  ReleaseLock :: "string \<Rightarrow> 'k \<Rightarrow> 'k"

definition reconciliationLockKey :: string where
  "reconciliationLockKey = ''reconciliation-global-lock''"

definition reconciliationLockTTL :: duration where
  "reconciliationLockTTL = 5 * minute"

datatype lock_error = LockFailed go_error | LockedReconciliationFailed reconciliation_error

definition ReconcileWithDistributedLock ::
  "'k lock_store \<Rightarrow> ('r, 'v) versioned_writer \<Rightarrow> ('r, 'v) sync_env \<Rightarrow> (nat \<Rightarrow> gotime) \<Rightarrow> 'k \<Rightarrow>
   ('r, 'v) sync_state \<Rightarrow> (lock_error + unit) \<times> 'k \<times> ('r, 'v) sync_state"
where
  "ReconcileWithDistributedLock ls w env clk k st =
     (case AcquireLock ls reconciliationLockKey reconciliationLockTTL k of
        (Inl e, k') \<Rightarrow> (Inl (LockFailed e), k', st)
      | (Inr False, k') \<Rightarrow> (Inr (), k', st)
      | (Inr True, k') \<Rightarrow>
          (let (res, st') = ReconcilePendingWrites w env clk st in
           (case res of Inl e \<Rightarrow> Inl (LockedReconciliationFailed e) | Inr _ \<Rightarrow> Inr (),
            ReleaseLock ls reconciliationLockKey k', st')))"

text \<open>The lock store of the tests: locks with their expiry.\<close>

definition mock_AcquireLock ::
  "gotime \<Rightarrow> gotime \<Rightarrow> string \<Rightarrow> duration \<Rightarrow> (string \<rightharpoonup> gotime) \<Rightarrow> (go_error + bool) \<times> (string \<rightharpoonup> gotime)"
where
  "mock_AcquireLock now now' key ttl locks =
     (case locks key of
        Some expiry \<Rightarrow>
          if now < expiry then (Inr False, locks) else (Inr True, locks(key \<mapsto> now' + ttl))
      | None \<Rightarrow> (Inr True, locks(key \<mapsto> now' + ttl)))"

definition mock_ReleaseLock :: "string \<Rightarrow> (string \<rightharpoonup> gotime) \<Rightarrow> (string \<rightharpoonup> gotime)" where
  "mock_ReleaseLock key locks = locks(key := None)"

section \<open>Properties\<close>

text \<open>
  A deposed leader does not start: the synchronisation touches the pending writes or the store
  only if the node holds itself for the leader and the leader info it has just read confirms its
  epoch.
\<close>

theorem only_current_leader_syncs:
  assumes "snd (ReconcileIfLeader w env clk info later c st) \<noteq> st"
  shows "isLeader c \<and> (\<exists>li. info = Inr (Some li) \<and> le_Epoch li = currentEpoch c)"
  using assms
  by (auto simp: ReconcileIfLeader_def Let_def split: if_splits sum.splits option.splits)

text \<open>
  What the second check is worth: once the first one has passed, the writes are sent and stay in
  the store whatever happens to the leadership meanwhile; a change of epoch only turns the result into
  an error. Success is reported only for an unchanged epoch and a complete synchronisation.
\<close>

theorem late_epoch_change_keeps_writes:
  assumes "isLeader c" "info = Inr (Some li)" "le_Epoch li = currentEpoch c" "pendingWrites (fst st) \<noteq> []"
  shows "snd (ReconcileIfLeader w env clk info later c st) = snd (ReconcilePendingWrites w env clk st) \<and>
     (fst (ReconcileIfLeader w env clk info later c st) = Inr () \<longleftrightarrow>
        currentEpoch (later c) = currentEpoch c \<and> fst (ReconcilePendingWrites w env clk st) = Inr ())"
proof -
  obtain res st' where "ReconcilePendingWrites w env clk st = (res, st')" by (cases "ReconcilePendingWrites w env clk st")
  then show ?thesis
    using assms by (cases res) (auto simp: ReconcileIfLeader_def GetPendingWriteCount_def Let_def)
qed

section \<open>Witnesses\<close>

definition leader5 :: coordinator where
  "leader5 = UpdateLeadershipStatus 5 ''node-1'' True (NewReconciliationCoordinator ''node-1'')"

definition epoch5 :: leader_epoch where
  "epoch5 = \<lparr>le_Epoch = 5, le_LeaderID = ''node-1'', le_StartTime = 0\<rparr>"

theorem only_current_leader_syncs_witness:
  "isLeader leader5 \<and> currentEpoch leader5 = 5 \<and>
   (\<exists>li. Inr (Some epoch5) = (Inr (Some li) :: leader_info) \<and> le_Epoch li = 5)"
proof -
  let ?st = "(two_pending, Map.empty) :: (string \<rightharpoonup> nat versioned_value, nat) sync_state"
  let ?r = "ReconcilePendingWrites mockVersionedRedis third_write (\<lambda>_. 1 * second) ?st"
  obtain res st' where r: "?r = (res, st')" by (cases ?r)
  have "pendingWrites (fst st') = []" using third_write_run r by (auto split: prod.splits)
  then have ne: "st' \<noteq> ?st" by (auto simp: two_pending_eq)
  have "snd (ReconcileIfLeader mockVersionedRedis third_write (\<lambda>_. 1 * second) (Inr (Some epoch5))
      (\<lambda>c. c) leader5 ?st) = st'"
    using r by (cases res) (simp_all add: ReconcileIfLeader_def GetPendingWriteCount_def two_pending_eq
        leader5_def epoch5_def UpdateLeadershipStatus_def Let_def)
  then have "isLeader leader5 \<and> (\<exists>li. Inr (Some epoch5) = (Inr (Some li) :: leader_info) \<and>
      le_Epoch li = currentEpoch leader5)"
    using ne by (intro only_current_leader_syncs [where w = mockVersionedRedis and env = third_write
        and clk = "\<lambda>_. 1 * second" and later = "\<lambda>c. c" and st = ?st]) simp
  then show ?thesis by (simp add: leader5_def UpdateLeadershipStatus_def)
qed

theorem late_epoch_change_keeps_writes_witness:
  "fst (ReconcileIfLeader mockVersionedRedis quiet (\<lambda>_. 1 * second) (Inr (Some epoch5))
     (UpdateLeadershipStatus 6 ''node-2'' False) leader5 (two_pending, Map.empty)) \<noteq> Inr ()"
  using late_epoch_change_keeps_writes [of leader5 "Inr (Some epoch5)" epoch5 "(two_pending, Map.empty)"
      mockVersionedRedis quiet "\<lambda>_. 1 * second" "UpdateLeadershipStatus 6 ''node-2'' False"]
  by (simp add: leader5_def epoch5_def UpdateLeadershipStatus_def two_pending_eq)

end
