(* ===== verification/WorkerLoop.thy ===== *)
theory WorkerLoop
  imports TickerLoop Scheduler
begin

text \<open>
  The two goroutines \<open>Start\<close> leaves behind in \<open>scheduler/scheduler.go\<close>: \<open>worker\<close>, which takes a task every 100
  milliseconds after a freeze window of five seconds, and \<open>poller\<close>, whose rounds do nothing.

  The worker is a step relation over its own state, its clock and the scheduler it shares with the rest of the
  process: \<open>others\<close> is anything other goroutines do to it. A timer or ticker is never early, and a ticker drops
  the ticks nobody takes, so the \<open>n\<close>-th tick received comes at least \<open>n\<close> periods after the ticker was made. A
  select statement that finds the context cancelled may still take a tick that is there as well.
\<close>

section \<open>The worker\<close>

definition freeze_window :: duration where "freeze_window = 5 * second"
definition worker_period :: duration where "worker_period = 100 * millisecond"

text \<open>In the freeze window, polling since a time, or returned.\<close>

datatype worker_phase = Frozen | Polling gotime | Returned_worker

record 'l worker =
  w_phase :: worker_phase
  w_ticks :: nat
  w_now :: gotime
  w_cancelled :: bool
  w_log :: "(gotime \<times> dispatch_decision) list"
  w_sched :: "'l scheduler"

definition worker_start :: "gotime \<Rightarrow> 'l scheduler \<Rightarrow> 'l worker" where
  "worker_start now s =
     \<lparr>w_phase = Frozen, w_ticks = 0, w_now = now, w_cancelled = False, w_log = [], w_sched = s\<rparr>"

text \<open>One round of the loop: \<open>processNextTask\<close>, its decision noted with the time.\<close>

definition worker_round :: "('l, 'r) rate_api \<Rightarrow> dispatch_clock \<Rightarrow> 'l worker \<Rightarrow> 'l worker" where
  "worker_round rate dc w =
     (let (d, s) = processNextTask rate dc (w_sched w)
      in w\<lparr>w_ticks := Suc (w_ticks w), w_log := (w_now w, d) # w_log w, w_sched := s\<rparr>)"

definition tick_ready :: "gotime \<Rightarrow> 'l worker \<Rightarrow> bool" where
  "tick_ready ticker w \<longleftrightarrow> ticker + worker_period * (int (w_ticks w) + 1) \<le> w_now w"

inductive worker_step :: "('l, 'r) rate_api \<Rightarrow> gotime \<Rightarrow> 'l worker \<Rightarrow> 'l worker \<Rightarrow> bool" for rate started where
  thaw: "w_phase w = Frozen \<Longrightarrow> started + freeze_window \<le> w_now w \<Longrightarrow>
     worker_step rate started w (w\<lparr>w_phase := Polling (w_now w)\<rparr>)"
| poll: "w_phase w = Polling ticker \<Longrightarrow> tick_ready ticker w \<Longrightarrow>
     worker_step rate started w (worker_round rate dc w)"
| quit: "w_cancelled w \<Longrightarrow> worker_step rate started w (w\<lparr>w_phase := Returned_worker\<rparr>)"
| clock: "w_now w \<le> t \<Longrightarrow> worker_step rate started w (w\<lparr>w_now := t\<rparr>)"
| cancel: "worker_step rate started w (w\<lparr>w_cancelled := True\<rparr>)"
| others: "worker_step rate started w (w\<lparr>w_sched := s\<rparr>)"

inductive worker_run :: "('l, 'r) rate_api \<Rightarrow> gotime \<Rightarrow> 'l scheduler \<Rightarrow> 'l worker \<Rightarrow> bool" for rate started s0 where
  run_start: "worker_run rate started s0 (worker_start started s0)"
| run_step: "worker_run rate started s0 w \<Longrightarrow> worker_step rate started w w' \<Longrightarrow> worker_run rate started s0 w'"

inductive_cases worker_stepE: "worker_step rate started w w'"

section \<open>The poller\<close>

text \<open>A tick reads the mode and does nothing in either case.\<close>

definition poller_round :: "'l scheduler \<Rightarrow> 'l scheduler" where
  "poller_round s = (if s_mode s \<noteq> ModeNormal \<and> s_mode s \<noteq> ModeDegraded then s else s)"

definition poller :: "select_choice list \<Rightarrow> 'l scheduler \<Rightarrow> 'l scheduler" where
  "poller cs s = ticker_loop (\<lambda>_. poller_round) 0 cs s"

lemma poller_idle: "poller cs s = s"
  unfolding poller_def by (rule ticker_loop_id) (simp add: poller_round_def)

section \<open>Pace\<close>

text \<open>
  Where the worker is, its ticks have had the time they need, and every entry of the log was made at a tick of
  its own.
\<close>

definition paced :: "gotime \<Rightarrow> 'l worker \<Rightarrow> bool" where
  "paced started w \<longleftrightarrow>
     started \<le> w_now w \<and> length (w_log w) = w_ticks w \<and>
     (w_phase w = Frozen \<longrightarrow> w_ticks w = 0) \<and>
     (\<forall>ticker. w_phase w = Polling ticker \<longrightarrow>
        started + freeze_window \<le> ticker \<and> ticker \<le> w_now w \<and> ticker + worker_period * int (w_ticks w) \<le> w_now w) \<and>
     (0 < w_ticks w \<longrightarrow> started + freeze_window + worker_period * int (w_ticks w) \<le> w_now w) \<and>
     (\<forall>i < w_ticks w. fst (w_log w ! i) \<le> w_now w \<and>
        started + freeze_window + worker_period * int (w_ticks w - i) \<le> fst (w_log w ! i))"

lemma worker_round_simps [simp]:
  "w_phase (worker_round rate dc w) = w_phase w" "w_now (worker_round rate dc w) = w_now w"
  "w_ticks (worker_round rate dc w) = Suc (w_ticks w)"
  "w_log (worker_round rate dc w) = (w_now w, fst (processNextTask rate dc (w_sched w))) # w_log w"
  "w_sched (worker_round rate dc w) = snd (processNextTask rate dc (w_sched w))"
  by (simp_all add: worker_round_def split_beta)

lemma paced_poll:
  assumes "paced started w" "w_phase w = Polling ticker" "tick_ready ticker w"
  shows "paced started (worker_round rate dc w)"
proof -
  have t: "started + freeze_window \<le> ticker" "ticker + worker_period * (int (w_ticks w) + 1) \<le> w_now w"
    using assms by (simp_all add: paced_def tick_ready_def)
  have "fst (((w_now w, d) # w_log w) ! i) \<le> w_now w \<and>
      started + freeze_window + worker_period * int (Suc (w_ticks w) - i) \<le> fst (((w_now w, d) # w_log w) ! i)"
    if "i < Suc (w_ticks w)" for i d
  proof (cases i)
    case 0
    then show ?thesis using t by (simp add: algebra_simps)
  next
    case (Suc j)
    then show ?thesis using assms(1) that by (simp add: paced_def)
  qed
  then show ?thesis using assms t by (simp add: paced_def algebra_simps)
qed

lemma paced_step: "worker_step rate started w w' \<Longrightarrow> paced started w \<Longrightarrow> paced started w'"
proof (induction rule: worker_step.induct)
  case (poll w ticker dc)
  then show ?case by (rule_tac paced_poll)
next
  case (clock w t)
  then show ?case by (fastforce simp: paced_def)
qed (auto simp: paced_def)

lemma paced_run: "worker_run rate started s0 w \<Longrightarrow> paced started w"
proof (induction rule: worker_run.induct)
  case run_start
  then show ?case by (simp add: paced_def worker_start_def)
qed (rule paced_step)

section \<open>Properties\<close>

fun is_dispatch :: "dispatch_decision \<Rightarrow> bool" where
  "is_dispatch (Dispatched t) = True"
| "is_dispatch d = False"


section \<open>Witnesses\<close>

definition idle_worker :: "unit worker" where
  "idle_worker = (worker_start 7 (NewScheduler 0 1 DefaultSchedulerConfig))
     \<lparr>w_phase := Polling (6 * second), w_ticks := 1, w_now := 7 * second, w_log := [(7 * second, Idle)]\<rparr>"

lemma idle_worker_run: "worker_run rate 7 (NewScheduler 0 1 DefaultSchedulerConfig) idle_worker"
proof -
  define w0 :: "unit worker" where "w0 = worker_start 7 (NewScheduler 0 1 DefaultSchedulerConfig)"
  define w1 where "w1 = w0\<lparr>w_now := 6 * second\<rparr>"
  define w2 where "w2 = w1\<lparr>w_phase := Polling (w_now w1)\<rparr>"
  define w3 where "w3 = w2\<lparr>w_now := 7 * second\<rparr>"
  have "worker_step rate 7 w0 w1" unfolding w1_def by (rule worker_step.clock) (simp add: w0_def worker_start_def)
  moreover have "worker_step rate 7 w1 w2"
    unfolding w2_def by (rule worker_step.thaw) (simp_all add: w1_def w0_def worker_start_def freeze_window_def)
  moreover have "worker_step rate 7 w2 w3"
    unfolding w3_def by (rule worker_step.clock) (simp add: w2_def w1_def)
  moreover have "worker_step rate 7 w3 (worker_round rate dc w3)" for dc
    by (rule worker_step.poll [of _ "6 * second"])
      (simp_all add: w3_def w2_def w1_def w0_def worker_start_def tick_ready_def worker_period_def)
  moreover have "worker_round rate undefined w3 = idle_worker"
    by (simp add: worker_round_def idle_worker_def w3_def w2_def w1_def w0_def worker_start_def processNextTask_def
        NewScheduler_def NewThreadSafeQueue_def q_Len_def)
  ultimately show ?thesis unfolding w0_def by (metis run_start run_step)
qed


end
