(* ===== verification/Telemetry.thy ===== *)
theory Telemetry
  imports Metrics Routes Admission LeaderSync AgentMonitor WorkerLoop
begin

text \<open>
  The updates of metrics the program makes, beside the definitions of the other theories, which leave them out:
  for each operation the list of its updates in the order of the code. Durations are what \<open>Seconds()\<close> gives for
  the difference of two readings of the clock. \<open>emitted\<close> collects them; every \<open>observability.\<close> of the source is
  one of its cases (the two type arguments are those of the rate limiters and of the reconciler's store).
\<close>

section \<open>Scheduler\<close>

definition set_mode_updates :: "string \<Rightarrow> metric_update list" where
  "set_mode_updates mode = [SetTo SchedulerModeMetric [mode] (Fin 1)]"

fun circuit_number :: "CircuitState \<Rightarrow> int" where
  "circuit_number CircuitClosed = 0"
| "circuit_number CircuitHalfOpen = 1"
| "circuit_number CircuitOpen = 2"

definition rejection :: "string \<Rightarrow> metric_update" where
  "rejection reason = Inc SchedulerRejections [reason]"

text \<open>\<open>Submit\<close>: the updates up to the queue-length check; behind it there are none.\<close>

definition submit_updates :: "submit_clock \<Rightarrow> snapshot \<Rightarrow> task \<Rightarrow> 'l scheduler \<Rightarrow> metric_update list" where
  "submit_updates c snap t s =
     (if \<not> isActive snap then [rejection ''not_leader'']
      else if currentAdmission snap = AdmissionFreeze \<or> currentAdmission snap = AdmissionDrain then []
      else
        [SetTo SchedulerQueueDepth [] (f64_of_int (int (q_Len (queue s)))),
         SetTo SchedulerWorkerSaturation [] (saturation snap),
         SetTo SchedulerCircuitState [CircuitState_String (cb_GetState (circuitBreaker s))]
           (f64_of_int (circuit_number (cb_GetState (circuitBreaker s))))] @
        (if \<not> fst (breaker_check c snap s) then [rejection ''circuit_open'']
         else if currentMode snap = ModeReadOnly \<or> currentMode snap = ModeDraining then [rejection ''read_only_mode'']
         else if currentMode snap = ModeDegraded \<and> 5 < t_Priority t then [rejection ''degraded_mode'']
         else []))"

text \<open>The worker after each round: the loop's duration, the queue's length, the age of its oldest task.\<close>

definition worker_updates :: "f64 \<Rightarrow> gotime \<Rightarrow> 'l scheduler \<Rightarrow> metric_update list" where
  "worker_updates took now s =
     [Observe SchedulerLoopDuration [] took,
      SetTo TaskQueueDepth [''all''] (f64_of_int (int (q_Len (queue s)))),
      (case q_Peek (queue s) of
         Some t \<Rightarrow> SetTo QueueOldestTaskAge [t_TenantID t, itoa (t_Priority t)]
                     (duration_seconds (time_sub now (t_SubmitTime t)))
       | None \<Rightarrow> SetTo QueueOldestTaskAge [''unknown'', ''unknown''] (Fin 0))]"

definition wait_updates :: "gotime \<Rightarrow> task \<Rightarrow> metric_update list" where
  "wait_updates now t =
     (if t_EnqueuedAt t \<noteq> 0
      then [Observe SchedulerAdmissionWaitSeconds [] (duration_seconds (time_sub now (t_EnqueuedAt t)))] else [])"

text \<open>\<open>logDecision\<close>, with the decision and the reason \<open>processNextTask\<close> gives it.\<close>

definition logDecision :: "string \<Rightarrow> string \<Rightarrow> metric_update list" where
  "logDecision decision reason = [Inc SchedulerDecisions [decision, reason]]"

fun decision_updates :: "dispatch_decision \<Rightarrow> metric_update list" where
  "decision_updates Idle = []"
| "decision_updates (QuarantineDrop t) = logDecision ''QUARANTINE_DROP'' ''Node quarantined due to low health score''"
| "decision_updates (Delayed DomainThrottle t d) = logDecision ''DOMAIN_THROTTLE'' ''Failure domain saturation''"
| "decision_updates (Delayed NodeThrottle t d) = []"
| "decision_updates (Delayed TenantThrottle t d) = logDecision ''TENANT_THROTTLE'' ''Tenant rate limit exceeded''"
| "decision_updates (Delayed BudgetThrottle t d) = []"
| "decision_updates (Dispatched t) = logDecision ''DISPATCH'' []"

section \<open>Reconciler\<close>

definition intent_age :: "gotime \<Rightarrow> desired_state \<Rightarrow> f64" where
  "intent_age now st =
     (let ref = (if ds_UpdatedAt st = 0 then ds_CreatedAt st else ds_UpdatedAt st)
      in duration_seconds (time_sub now ref))"

definition outcome_updates :: "'s store_api \<Rightarrow> 's rec_env \<Rightarrow> gotime \<Rightarrow> string \<Rightarrow> string \<Rightarrow> 's reconciler \<Rightarrow> metric_update list" where
  "outcome_updates sa re now tenantID stateID rc =
     (if re_ctx0 re \<noteq> None then []
      else case st_GetState sa tenantID stateID (rc_store rc) of
          Inl e \<Rightarrow> [Inc TaskRetries []]
        | Inr None \<Rightarrow> [Inc TaskRetries []]
        | Inr (Some st) \<Rightarrow>
            [Observe IntentAgeSeconds [] (intent_age now st),
             (if fst (reconcileWithContext sa re tenantID stateID rc) \<noteq> None
              then Inc TaskRetries [] else Inc TaskSuccesses [])])"

text \<open>
  The deferred function of \<open>Reconcile\<close>. \<open>timed_out\<close> says that the task's own context ended by its deadline,
  \<open>parent\<close> is the error of the scheduler's context.
\<close>

definition canceled :: go_error where "canceled = ''context canceled''"

definition runtime_updates :: "f64 \<Rightarrow> bool \<Rightarrow> go_error option \<Rightarrow> string \<Rightarrow> metric_update list" where
  "runtime_updates runtime timed_out parent stateID =
     Observe TaskRuntimeSeconds [] runtime #
     (if timed_out then [Inc TaskTimeouts [stateID, ''reconcile'', ''runtime_limit'']]
      else if parent = Some canceled
      then let reason = (if parent \<noteq> None then ''shutdown'' else ''leadership_loss'')
           in [Inc TaskTimeouts [stateID, ''reconcile'', reason]]
      else [])"

definition publish_updates :: "go_error option \<Rightarrow> metric_update list" where
  "publish_updates err = (if err \<noteq> None then [Inc EventPublishFailures [''state.transition'', ''publish_error'']] else [])"

section \<open>Leadership\<close>

definition epoch_updates :: "int \<Rightarrow> elector \<Rightarrow> metric_update list" where
  "epoch_updates epoch el =
     (if 0 < el_currentEpoch el \<and> wrap64 (el_currentEpoch el + 1) < epoch
      then [Inc LeadershipTransitions [el_nodeID el, ''epoch_drift'']] else [])"

text \<open>\<open>el\<close> is the elector before the call.\<close>

definition becomeLeader_updates :: "gotime \<Rightarrow> elector \<Rightarrow> metric_update list" where
  "becomeLeader_updates now el =
     (if el_stepDownTime el \<noteq> 0
      then [Observe LeadershipTransitionDuration [] (duration_seconds (time_sub now (el_stepDownTime el)))] else []) @
     [Inc LeadershipTransitions [el_nodeID el, ''acquired''],
      SetTo LeadershipEpoch [el_nodeID el] (f64_of_int (el_currentEpoch el)), SetTo LeaderStatus [] (Fin 1)]"

definition stepDown_updates :: "elector \<Rightarrow> metric_update list" where
  "stepDown_updates el =
     (if \<not> el_isLeader el then []
      else [SetTo LeaderStatus [] (Fin 0), Inc LeadershipTransitions [el_nodeID el, ''lost'']])"

text \<open>The updates of one round of the election loop, and of its first \<open>n\<close> rounds.\<close>

definition tick_updates :: "'c coord_api \<Rightarrow> 's increment \<Rightarrow> (lock_metadata \<Rightarrow> string) \<Rightarrow> ('c, 's) tick_env \<Rightarrow> gotime \<Rightarrow>
  elector \<times> loop_state \<times> 'c \<times> 's \<Rightarrow> metric_update list"
where
  "tick_updates api incr mar te now st =
     (case st of (el, lp, c, s) \<Rightarrow>
        if el_isLeader el
        then (case renew_round api te el lp c of (res, el', lp', c') \<Rightarrow>
                if el_isLeader el' then [] else stepDown_updates el)
        else
          (case fst (incr (te_epoch_net te) (te_epoch_time te) ''leader_election'' s) of
             Inl e \<Rightarrow> []
           | Inr epoch \<Rightarrow>
               epoch_updates epoch el @
               (case acquire api incr mar te el (c, s) of (res, el', w') \<Rightarrow>
                  if res = Inr True then becomeLeader_updates now el' else [])))"

fun rounds_updates :: "'c coord_api \<Rightarrow> 's increment \<Rightarrow> (lock_metadata \<Rightarrow> string) \<Rightarrow> (nat \<Rightarrow> gotime \<Rightarrow> ('c, 's) tick_env) \<Rightarrow>
  (nat \<Rightarrow> gotime) \<Rightarrow> nat \<Rightarrow> gotime \<times> elector \<times> loop_state \<times> 'c \<times> 's \<Rightarrow> metric_update list"
where
  "rounds_updates api incr mar env clk 0 st = []"
| "rounds_updates api incr mar env clk (Suc n) st =
     rounds_updates api incr mar env clk n st @
     (case rounds api incr mar env n st of (t, st') \<Rightarrow> tick_updates api incr mar (env n t) (clk n) st')"

section \<open>The other components\<close>

definition monitor_updates :: "int option \<Rightarrow> metric_update list" where
  "monitor_updates alive = (case alive of None \<Rightarrow> [] | Some n \<Rightarrow> [SetTo ConnectedAgents [] (f64_of_int n)])"

definition rate_limit_updates :: "metric_update list" where
  "rate_limit_updates = [Inc APIRateLimited [''heartbeat'']]"

definition latency_updates :: "f64 \<Rightarrow> metric_update list" where
  "latency_updates took = [Observe RedisLatency [] took]"

text \<open>The two epoch checks of \<open>ReconcileIfLeader\<close>.\<close>

definition abort_updates :: "coordinator_error + unit \<Rightarrow> metric_update list" where
  "abort_updates res = (case res of Inl (LeadershipChanged a b) \<Rightarrow> [Inc ReconciliationEpochAbort []] | _ \<Rightarrow> [])"

definition startup_updates :: "metric_update list" where
  "startup_updates = [SetTo RuntimeMode_gauge [''pilot''] (Fin 1)]"

definition collector_updates :: "f64 \<times> f64 \<Rightarrow> metric_update list" where
  "collector_updates g = [SetTo DBPendingStates [''default''] (fst g), SetTo IntegritySkew [''default''] (snd g)]"

text \<open>\<open>runMetricsCollector\<close>: the updates made and the store; \<open>world k\<close> is what happens to it before the \<open>k\<close>-th tick.\<close>

definition runMetricsCollector ::
  "'s full_store \<Rightarrow> (nat \<Rightarrow> 's \<Rightarrow> 's) \<Rightarrow> select_choice list \<Rightarrow> metric_update list \<times> 's \<Rightarrow> metric_update list \<times> 's"
where
  "runMetricsCollector fs world cs us_s =
     ticker_loop (\<lambda>k (us, s). let s' = world k s in (us @ collector_updates (telemetry fs s'), s')) 0 cs us_s"

section \<open>All updates\<close>

inductive emitted :: "'l itself \<Rightarrow> 's itself \<Rightarrow> metric_update \<Rightarrow> bool" for l s where
  "u \<in> set (set_mode_updates mode) \<Longrightarrow> emitted l s u"
| "u \<in> set (submit_updates c snap t (sc :: 'l scheduler)) \<Longrightarrow> emitted l s u"
| "u \<in> set (worker_updates took now (sc :: 'l scheduler)) \<Longrightarrow> emitted l s u"
| "u \<in> set (wait_updates now t) \<Longrightarrow> emitted l s u"
| "u \<in> set (decision_updates d) \<Longrightarrow> emitted l s u"
| "u \<in> set (outcome_updates sa re now tenantID stateID (rc :: 's reconciler)) \<Longrightarrow> emitted l s u"
| "u \<in> set (runtime_updates runtime timed_out parent stateID) \<Longrightarrow> emitted l s u"
| "u \<in> set (publish_updates err) \<Longrightarrow> emitted l s u"
| "u \<in> set (epoch_updates epoch el) \<Longrightarrow> emitted l s u"
| "u \<in> set (becomeLeader_updates now el) \<Longrightarrow> emitted l s u"
| "u \<in> set (stepDown_updates el) \<Longrightarrow> emitted l s u"
| "u \<in> set (monitor_updates alive) \<Longrightarrow> emitted l s u"
| "u \<in> set rate_limit_updates \<Longrightarrow> emitted l s u"
| "u \<in> set (latency_updates took) \<Longrightarrow> emitted l s u"
| "u \<in> set (abort_updates res) \<Longrightarrow> emitted l s u"
| "u \<in> set startup_updates \<Longrightarrow> emitted l s u"
| "u \<in> set (collector_updates g) \<Longrightarrow> emitted l s u"

lemmas update_defs = set_mode_updates_def submit_updates_def worker_updates_def wait_updates_def logDecision_def
  rejection_def outcome_updates_def runtime_updates_def publish_updates_def epoch_updates_def
  becomeLeader_updates_def stepDown_updates_def monitor_updates_def rate_limit_updates_def latency_updates_def
  abort_updates_def startup_updates_def collector_updates_def

lemma decision_updates_cases:
  "u \<in> set (decision_updates d) \<Longrightarrow> \<exists>decision reason. u = Inc SchedulerDecisions [decision, reason]"
  by (cases d rule: decision_updates.cases) (auto simp: logDecision_def)

lemma emitted_fits:
  "emitted l s u \<Longrightarrow> updated u \<in> set program_metrics \<and> length (label_values u) = length (md_labels (updated u))"
proof (induction rule: emitted.induct)
  case (5 u d)
  then show ?case by (auto dest!: decision_updates_cases simp: program_metrics_def metric_defs new_metric_defs)
qed (auto simp: update_defs program_metrics_def metric_defs new_metric_defs split: if_splits option.splits sum.splits
    coordinator_error.splits)

section \<open>What the metrics say\<close>

text \<open>The reason under which a rejection is counted; freeze, drain, a full queue and a wrong shard have none.\<close>

fun rejection_reason :: "submit_error \<Rightarrow> string option" where
  "rejection_reason NotActive = Some ''not_leader''"
| "rejection_reason (CircuitBreakerOpen n f) = Some ''circuit_open''"
| "rejection_reason ReadOnlyOrDraining = Some ''read_only_mode''"
| "rejection_reason DegradedLowPriority = Some ''degraded_mode''"
| "rejection_reason e = None"

lemma submit_updates_rejections:
  "count_list (submit_updates c (submit_snapshot t s) t s) (rejection r) =
   (case fst (Submit c t s) of
      Inl e \<Rightarrow> if rejection_reason e = Some r then 1 else 0
    | Inr _ \<Rightarrow> 0)"
proof -
  let ?snap = "submit_snapshot t s"
  have d: "SchedulerQueueDepth \<noteq> SchedulerRejections" "SchedulerWorkerSaturation \<noteq> SchedulerRejections"
    "SchedulerCircuitState \<noteq> SchedulerRejections" by (simp_all add: metric_defs new_metric_defs)
  obtain admit cb where b: "breaker_check c ?snap s = (admit, cb)" by fastforce
  have f: "fst (Submit c t s) = fst (submit_checks c ?snap t s)"
    by (simp add: Submit_def split: prod.split sum.split)
  show ?thesis
    unfolding f submit_checks_def submit_updates_def
    by (auto simp: b rejection_def gate_error_def admission_defs Let_def split: option.splits if_splits)
qed

lemma outcome_updates_counts:
  "count_list (outcome_updates sa re now tenantID stateID rc) (Inc TaskSuccesses []) =
     (if fst (reconcileWithContext sa re tenantID stateID rc) = None then 1 else 0) \<and>
   count_list (outcome_updates sa re now tenantID stateID rc) (Inc TaskRetries []) =
     (if re_ctx0 re = None \<and> fst (reconcileWithContext sa re tenantID stateID rc) \<noteq> None then 1 else 0)"
proof -
  have d: "TaskSuccesses \<noteq> TaskRetries" by (simp add: metric_defs new_metric_defs)
  show ?thesis
    by (simp add: outcome_updates_def reconcileWithContext_def d d [symmetric] split: option.split sum.split)
qed

section \<open>The leader's metrics\<close>

text \<open>What a list of updates says of leadership: the gauge's last value and how often it was won and lost.\<close>

definition wins :: "string \<Rightarrow> metric_update list \<Rightarrow> nat" where
  "wins nodeID us = count_list us (Inc LeadershipTransitions [nodeID, ''acquired''])"

definition losses :: "string \<Rightarrow> metric_update list \<Rightarrow> nat" where
  "losses nodeID us = count_list us (Inc LeadershipTransitions [nodeID, ''lost''])"

abbreviation status :: "metric_update list \<Rightarrow> f64 option" where
  "status us \<equiv> last_set LeaderStatus [] us"

lemma leadership_append [simp]:
  "wins nodeID (us @ vs) = wins nodeID us + wins nodeID vs"
  "losses nodeID (us @ vs) = losses nodeID us + losses nodeID vs"
  by (simp_all add: wins_def losses_def)

lemma leadership_nil [simp]: "wins nodeID [] = 0" "losses nodeID [] = 0"
  by (simp_all add: wins_def losses_def)

lemma status_metrics [simp]:
  "LeadershipEpoch \<noteq> LeaderStatus" "LeadershipTransitions \<noteq> LeaderStatus" "LeadershipTransitionDuration \<noteq> LeaderStatus"
  "LeadershipTransitionDuration \<noteq> LeadershipTransitions"
  by (simp_all add: metric_defs new_metric_defs)

lemma leadership_epoch [simp]:
  "wins nodeID (epoch_updates epoch el) = 0" "losses nodeID (epoch_updates epoch el) = 0"
  "status (epoch_updates epoch el) = None"
  by (simp_all add: epoch_updates_def wins_def losses_def)

lemma leadership_win [simp]:
  "wins (el_nodeID el) (becomeLeader_updates now el) = 1" "losses (el_nodeID el) (becomeLeader_updates now el) = 0"
  "status (becomeLeader_updates now el) = Some (Fin 1)"
  by (simp_all add: becomeLeader_updates_def wins_def losses_def)

lemma leadership_loss [simp]:
  "el_isLeader el \<Longrightarrow> wins (el_nodeID el) (stepDown_updates el) = 0"
  "el_isLeader el \<Longrightarrow> losses (el_nodeID el) (stepDown_updates el) = 1"
  "el_isLeader el \<Longrightarrow> status (stepDown_updates el) = Some (Fin 0)"
  by (simp_all add: stepDown_updates_def wins_def losses_def)

lemma renew_round_elector:
  "renew_round api te el lp c = (res, el', lp', c') \<Longrightarrow> el' = el \<or> el' = stepDown (te_down te) el"
  by (auto simp: renew_round_def Let_def split: prod.splits sum.splits if_splits)

lemma acquire_elector:
  "acquire api incr mar te el w = (res, el', w') \<Longrightarrow> el_nodeID el' = el_nodeID el \<and> el_isLeader el' = el_isLeader el"
  by (auto simp: acquire_def acquire_lease_def acquire_epoch_def Let_def split: prod.splits sum.splits if_splits)

text \<open>The metrics of a node that has led \<open>wins\<close> times and leads now or not.\<close>

definition leader_metrics :: "string \<Rightarrow> metric_update list \<Rightarrow> elector \<Rightarrow> bool" where
  "leader_metrics nodeID us el \<longleftrightarrow>
     el_nodeID el = nodeID \<and>
     wins nodeID us = losses nodeID us + (if el_isLeader el then 1 else 0) \<and>
     (case status us of None \<Rightarrow> \<not> el_isLeader el | Some v \<Rightarrow> v = (if el_isLeader el then Fin 1 else Fin 0))"

lemma leader_metrics_tick:
  assumes "leader_metrics nodeID us (fst st)"
  shows "leader_metrics nodeID (us @ tick_updates api incr mar te now st) (fst (tick api incr mar te st))"
proof -
  obtain el lp c s where st: "st = (el, lp, c, s)" by (cases st)
  show ?thesis
  proof (cases "el_isLeader el")
    case True
    obtain res el' lp' c' where r: "renew_round api te el lp c = (res, el', lp', c')" by (cases "renew_round api te el lp c")
    have t: "fst (tick api incr mar te st) = el'" by (simp add: tick_def st r True)
    have u: "tick_updates api incr mar te now st = (if el_isLeader el' then [] else stepDown_updates el)"
      by (simp add: tick_updates_def st r True)
    from renew_round_elector [OF r] show ?thesis
      unfolding t u using assms True
      by (auto simp: leader_metrics_def st stepDown_def last_set_append split: option.splits)
  next
    case False
    obtain res el' w' where a: "acquire api incr mar te el (c, s) = (res, el', w')"
      by (cases "acquire api incr mar te el (c, s)")
    note e = acquire_elector [OF a]
    have t: "fst (tick api incr mar te st) = (if res = Inr True then becomeLeader el' else el')"
      by (cases w') (simp add: tick_def st False acquire_round_def a)
    have n: "res \<noteq> Inr True" if "fst (incr (te_epoch_net te) (te_epoch_time te) ''leader_election'' s) = Inl err" for err
      using a that by (auto simp: acquire_def split: prod.splits sum.splits)
    show ?thesis
    proof (cases "fst (incr (te_epoch_net te) (te_epoch_time te) ''leader_election'' s)")
      case (Inl err)
      then have "tick_updates api incr mar te now st = []" by (simp add: tick_updates_def st False)
      then show ?thesis unfolding t using n [OF Inl] assms e by (simp add: leader_metrics_def st split: option.splits)
    next
      case (Inr epoch)
      then have "tick_updates api incr mar te now st =
          epoch_updates epoch el @ (if res = Inr True then becomeLeader_updates now el' else [])"
        by (simp add: tick_updates_def st False a)
      then show ?thesis unfolding t using assms e False leadership_win(1,2) [of el' now]
        by (auto simp: leader_metrics_def st becomeLeader_def last_set_append split: option.splits)
    qed
  qed
qed

lemma leader_metrics_rounds:
  assumes "\<not> el_isLeader (fst st)"
  shows "leader_metrics (el_nodeID (fst st)) (rounds_updates api incr mar env clk n (t, st))
    (fst (snd (rounds api incr mar env n (t, st))))"
proof (induction n)
  case 0
  then show ?case using assms by (simp add: leader_metrics_def)
next
  case (Suc n)
  obtain t' st' where r: "rounds api incr mar env n (t, st) = (t', st')" by (metis prod.exhaust)
  show ?case using leader_metrics_tick [of _ _ st'] Suc by (simp add: r Let_def)
qed

section \<open>Lemmas on single metrics\<close>

text \<open>Switching the mode leaves the gauge of the old mode at 1.\<close>

lemma mode_gauges_accumulate:
  assumes "metrics_registry pr registered utf8" "update_all pr (set_mode_updates a @ set_mode_updates b) m = Some m'"
  shows "pr_gauge pr SchedulerModeMetric [a] m' = Some (Fin 1) \<and> pr_gauge pr SchedulerModeMetric [b] m' = Some (Fin 1)"
  using metrics_registry.update_all_gauge [OF assms] by (simp add: set_mode_updates_def)

text \<open>A reconciliation that finds its agent busy does nothing and is counted as a success.\<close>

lemma busy_counts_as_success:
  assumes "re_ctx0 re = None" "st_GetState sa t i (rc_store rc) = Inr (Some st)" "IsAgentBusy (ds_NodeID st) rc"
  shows "count_list (outcome_updates sa re now t i rc) (Inc TaskSuccesses []) = 1 \<and>
    snd (reconcileWithContext sa re t i rc) = rc"
  using assms by (simp add: outcome_updates_counts reconcileWithContext_def acquireLock_def IsAgentBusy_def)

text \<open>A cancelled reconciliation is never put down to the loss of leadership.\<close>

lemma leadership_loss_never_counted:
  "Inc TaskTimeouts [stateID, ''reconcile'', ''leadership_loss''] \<notin> set (runtime_updates runtime timed_out parent stateID)"
  by (auto simp: runtime_updates_def)

text \<open>After at least one tick the gauge of the backlog shows the store of the last one.\<close>

lemma collector_shows_last_tick:
  assumes "loop_rounds cs = Suc n" "runMetricsCollector fs world cs ([], s) = (us, s')"
  shows "last_set DBPendingStates [''default''] us = Some (fst (telemetry fs s'))"
proof -
  have d: "IntegritySkew \<noteq> DBPendingStates" by (simp add: metric_defs new_metric_defs)
  let ?f = "\<lambda>k (us, s). let s' = world k s in (us @ collector_updates (telemetry fs s'), s')"
  obtain vs r where r: "fold ?f [0..<n] ([], s) = (vs, r)" by fastforce
  have "(us, s') = ?f n (vs, r)"
    using assms(2) r unfolding runMetricsCollector_def ticker_loop_fold assms(1) by simp
  then show ?thesis by (simp add: Let_def last_set_append collector_updates_def d)
qed

text \<open>Six metrics are declared and never updated.\<close>

lemma silent_metrics:
  "emitted l s u \<Longrightarrow> updated u \<notin> {DomainHealth, SchedulerTaskWaitSeconds, VersionedWriteSuccess, VersionedWriteConflict,
     IdempotencyLockAcquired, IdempotencyLockExpired}"
proof (induction rule: emitted.induct)
  case (5 u d)
  then show ?case by (auto dest!: decision_updates_cases simp: metric_defs new_metric_defs)
qed (auto simp: update_defs metric_defs new_metric_defs split: if_splits option.splits sum.splits coordinator_error.splits)

text \<open>The last buckets: 512 and 2048 seconds, 51.2 seconds, half a second.\<close>

lemma last_buckets:
  assumes "metrics_registry pr registered utf8"
  shows "last (pr_buckets pr (md_buckets TaskRuntimeSeconds)) = 512"
    "last (pr_buckets pr (md_buckets IntentAgeSeconds)) = 2048"
    "last (pr_buckets pr (md_buckets LeadershipTransitionDuration)) = 512 / 10"
    "last (pr_buckets pr (md_buckets RedisLatency)) = 512 / 1000"
  using metrics_registry.exponential [OF assms]
  by (simp_all add: metric_defs new_metric_defs last_map)

section \<open>Properties\<close>

text \<open>
  C30. Telemetry cannot bring the process down: all metrics can be registered at start, and whatever the program
  updates, in any order, fits the labels it was declared with, so no update panics as long as the tenants, nodes,
  states and modes in them are text.
\<close>

theorem metrics_never_panic:
  assumes "metrics_registry pr registered utf8" "registered m0 = []"
    and "\<forall>u \<in> set us. emitted l s u \<and> list_all utf8 (label_values u)"
  shows "\<exists>m. register_all pr program_metrics m0 = Some m \<and> update_all pr us m \<noteq> None"
proof -
  obtain m where m: "register_all pr program_metrics m0 = Some m" "set (registered m) = set program_metrics"
    using metrics_registry.register_all_program [OF assms(1,2)] by blast
  have "\<forall>u \<in> set us. updated u \<in> set (registered m) \<and> labels_fit utf8 u"
    using assms(3) emitted_fits by (auto simp: labels_fit_def m(2))
  then show ?thesis using metrics_registry.update_all_fits [OF assms(1)] m(1) by blast
qed

text \<open>
  C29. The counters of rejections agree with \<open>Submit\<close>: a call adds one to the counter of a reason exactly when it
  returns the error of that reason. Freeze, drain, a full queue and a foreign shard are counted nowhere.
\<close>

theorem rejections_counted:
  assumes "metrics_registry pr registered utf8" "update_all pr (submit_updates c (submit_snapshot t sc) t sc) m = Some m'"
  shows "pr_counter pr SchedulerRejections [r] m' = pr_counter pr SchedulerRejections [r] m +
    (case fst (Submit c t sc) of Inl e \<Rightarrow> if rejection_reason e = Some r then 1 else 0 | Inr _ \<Rightarrow> 0)"
  using metrics_registry.update_all_counter [OF assms] submit_updates_rejections [of c t sc r]
  by (simp add: rejection_def)


section \<open>Witnesses\<close>

definition no_metrics :: map_prom where
  "no_metrics = \<lparr>mp_registered = [], mp_counters = (\<lambda>_. 0), mp_gauges = Map.empty\<rparr>"

theorem metrics_never_panic_witness:
  "\<exists>m. register_all map_prom program_metrics no_metrics = Some m \<and>
     update_all map_prom (set_mode_updates ''NORMAL'' @ startup_updates @ stepDown_updates (becomeLeader (NewLeaderElector ''n1'' second))) m \<noteq> None"
proof (rule metrics_never_panic [OF map_prom.metrics_registry_axioms, of no_metrics _ "TYPE(unit)" "TYPE(unit)"])
  have "emitted TYPE(unit) TYPE(unit) u"
    if "u \<in> set (set_mode_updates ''NORMAL'' @ startup_updates @ stepDown_updates (becomeLeader (NewLeaderElector ''n1'' second)))" for u
    using that by (auto intro: emitted.intros)
  moreover have "list_all ascii (label_values u)"
    if "u \<in> set (set_mode_updates ''NORMAL'' @ startup_updates @ stepDown_updates (becomeLeader (NewLeaderElector ''n1'' second)))" for u
    using that by (auto simp: update_defs becomeLeader_def NewLeaderElector_def ascii_def)
  ultimately show "\<forall>u \<in> set (set_mode_updates ''NORMAL'' @ startup_updates @ stepDown_updates (becomeLeader (NewLeaderElector ''n1'' second))).
      emitted TYPE(unit) TYPE(unit) u \<and> list_all ascii (label_values u)" by blast
qed (simp add: no_metrics_def)

definition fresh_scheduler :: "unit scheduler" where
  "fresh_scheduler = NewScheduler 0 1 DefaultSchedulerConfig"

theorem rejections_counted_witness:
  "\<exists>m'. update_all map_prom (submit_updates (submit_at 1) (submit_snapshot zero_task fresh_scheduler) zero_task fresh_scheduler) no_metrics = Some m' \<and>
     pr_counter map_prom SchedulerRejections [''not_leader''] m' = 1"
proof -
  have inactive: "\<not> active fresh_scheduler" by (simp add: fresh_scheduler_def NewScheduler_def)
  then have "submit_updates (submit_at 1) (submit_snapshot zero_task fresh_scheduler) zero_task fresh_scheduler = [rejection ''not_leader'']"
    by (simp add: submit_updates_def submit_snapshot_def)
  then have "\<exists>m'. update_all map_prom (submit_updates (submit_at 1) (submit_snapshot zero_task fresh_scheduler) zero_task fresh_scheduler) no_metrics = Some m'"
    by (simp add: rejection_def map_prom_def map_update_def labels_fit_def ascii_def SchedulerRejections_def new_metric_defs)
  then obtain m' where m': "update_all map_prom (submit_updates (submit_at 1) (submit_snapshot zero_task fresh_scheduler) zero_task fresh_scheduler) no_metrics = Some m'"
    by blast
  have "fst (Submit (submit_at 1) zero_task fresh_scheduler) = Inl NotActive"
    using inactive by (simp add: Submit_def submit_checks_def submit_snapshot_def)
  then have "pr_counter map_prom SchedulerRejections [''not_leader''] m' = pr_counter map_prom SchedulerRejections [''not_leader''] no_metrics + 1"
    using rejections_counted [OF map_prom.metrics_registry_axioms m', of "''not_leader''"] by simp
  then show ?thesis using m' by (simp add: map_prom_def no_metrics_def)
qed

text \<open>A coordinator that grants every lease and renews none: a node is elected and steps down.\<close>

definition short_leases :: "unit coord_api" where
  "short_leases = \<lparr>ca_Acquire = (\<lambda>_ _ _ _ _ c. (Inr True, c)), ca_Renew = (\<lambda>_ _ _ _ _ c. (Inr False, c)),
     ca_Release = (\<lambda>_ _ _ _ c. (Inr (), c)), ca_Owner = (\<lambda>_ _ _ _. Inr [])\<rparr>"

definition calm_round :: "(unit, int) tick_env" where
  "calm_round = \<lparr>te_epoch_net = Delivered, te_epoch_time = 0, te_between = id, te_reqid = [], te_created = 0, te_now = 0,
     te_net = Delivered, te_time = 0, te_down = 5\<rparr>"

definition next_epoch :: "int increment" where
  "next_epoch net t k s = (Inr (s + 1), s + 1)"


end
