(* ===== verification/Startup.thy ===== *)
theory Startup
  imports Leadership Janitor AgentMonitor Telemetry
begin

text \<open>
  How the process comes up: \<open>NewRedisStore\<close> (\<open>store/redis.go\<close>), \<open>NewPostgresStore\<close> (\<open>store/postgres.go\<close>), which
  \<open>main\<close> does not use, and \<open>main\<close> itself, down to the goroutines it starts and the values it passes on.

  The clients of the two databases are parameters, given by what their calls return. \<open>main\<close> leaves a process:
  what it has built and the goroutines in the order of their start. Its second half, the routes, is \<open>Routes\<close>.
\<close>

section \<open>Connecting\<close>

datatype lua_script = VersionedSetScript | VersionedGetScript

record redis_handle =
  rh_addr :: string
  rh_password :: string
  rh_db :: int
  versionedSetSHA :: string
  versionedGetSHA :: string

text \<open>\<open>ping\<close> and \<open>load\<close> are the replies to \<open>PING\<close> and \<open>SCRIPT LOAD\<close> at the address.\<close>

definition NewRedisStore ::
  "(string \<Rightarrow> go_error option) \<Rightarrow> (string \<Rightarrow> lua_script \<Rightarrow> go_error + string) \<Rightarrow> string \<Rightarrow> string \<Rightarrow> int \<Rightarrow>
   go_error + redis_handle"
where
  "NewRedisStore ping load addr password db =
     (case ping addr of
        Some e \<Rightarrow> Inl e
      | None \<Rightarrow>
          (case load addr VersionedSetScript of
             Inl e \<Rightarrow> Inl (''failed to preload versioned set script: '' @ e)
           | Inr set_sha \<Rightarrow>
               (case load addr VersionedGetScript of
                  Inl e \<Rightarrow> Inl (''failed to preload versioned get script: '' @ e)
                | Inr get_sha \<Rightarrow>
                    Inr \<lparr>rh_addr = addr, rh_password = password, rh_db = db, versionedSetSHA = set_sha,
                         versionedGetSHA = get_sha\<rparr>)))"

record pool_config =
  MaxConns :: int
  MinConns :: int
  MaxConnLifetime :: duration
  HealthCheckPeriod :: duration

text \<open>The connection string is parsed to a configuration, whose limits are then set; the pool is \<open>'p\<close>.\<close>

definition NewPostgresStore ::
  "(string \<Rightarrow> go_error + pool_config) \<Rightarrow> (pool_config \<Rightarrow> go_error + 'p) \<Rightarrow> ('p \<Rightarrow> go_error option) \<Rightarrow> string \<Rightarrow> go_error + 'p"
where
  "NewPostgresStore parse new_pool ping connString =
     (case parse connString of
        Inl e \<Rightarrow> Inl e
      | Inr cfg \<Rightarrow>
          (case new_pool (cfg\<lparr>MaxConns := 50, MinConns := 5, MaxConnLifetime := hour, HealthCheckPeriod := 30 * second\<rparr>) of
             Inl e \<Rightarrow> Inl e
           | Inr pool \<Rightarrow> (case ping pool of Some e \<Rightarrow> Inl e | None \<Rightarrow> Inr pool)))"

section \<open>The process\<close>

datatype process_goroutine =
    JanitorLoop lock_janitor
  | MonitorLoop agent_monitor
  | ElectionLoop
  | HubLoop
  | CollectorLoop

record ('s, 'b, 'l) process =
  ps_redis :: redis_handle
  ps_reconcileInterval :: duration
  ps_reconciler :: "'s reconciler"
  ps_api :: "('s, 'b, 'l) api"
  ps_goroutines :: "process_goroutine list"
  ps_updates :: "metric_update list"
  ps_listen :: string

definition redis_address :: "(string \<Rightarrow> string) \<Rightarrow> string" where
  "redis_address getenv = (if getenv ''REDIS_ADDR'' = [] then ''localhost:6379'' else getenv ''REDIS_ADDR'')"

definition reconcile_interval :: "(string \<Rightarrow> string) \<Rightarrow> duration" where
  "reconcile_interval getenv = (if getenv ''PRODUCTION_MODE'' = ''true'' then 30 * second else 5 * second)"

text \<open>
  Without Redis the process ends (\<open>log.Fatalf\<close>); so the branches of \<open>main\<close> for a missing Redis are never
  taken. \<open>store\<close> and \<open>backend\<close> are the two views of the server through the handle.
\<close>

definition main_start ::
  "('l, 'r) rate_api \<Rightarrow> (string \<Rightarrow> go_error option) \<Rightarrow> (string \<Rightarrow> lua_script \<Rightarrow> go_error + string) \<Rightarrow>
   (string \<Rightarrow> string) \<Rightarrow> string \<Rightarrow> (redis_handle \<Rightarrow> 's) \<Rightarrow> (redis_handle \<Rightarrow> 'b) \<Rightarrow> go_error + ('s, 'b, 'l) process"
where
  "main_start rate ping load getenv hostname store backend =
     (case NewRedisStore ping load (redis_address getenv) [] 0 of
        Inl e \<Rightarrow> Inl (''Failed to connect to Redis (required for leader election): '' @ e)
      | Inr rs \<Rightarrow>
          Inr \<lparr>ps_redis = rs, ps_reconcileInterval = reconcile_interval getenv,
               ps_reconciler = NewReconciler (store rs) True,
               ps_api = initial_api rate getenv hostname (store rs) (backend rs),
               ps_goroutines =
                 [JanitorLoop (NewLockJanitor (60 * second)), MonitorLoop (NewAgentMonitor (5 * second) (10 * second)),
                  ElectionLoop, HubLoop, CollectorLoop],
               ps_updates = startup_updates, ps_listen = '':8080''\<rparr>)"

section \<open>What main leaves\<close>

lemma NewRedisStore_Inr:
  "NewRedisStore ping load addr pw db = Inr rs \<longleftrightarrow>
     ping addr = None \<and> load addr VersionedSetScript = Inr (versionedSetSHA rs) \<and>
     load addr VersionedGetScript = Inr (versionedGetSHA rs) \<and> rh_addr rs = addr \<and> rh_password rs = pw \<and> rh_db rs = db"
  by (cases rs) (auto simp: NewRedisStore_def split: option.splits sum.splits)

lemma main_start_Inr:
  "main_start rate ping load getenv hostname store backend = Inr p \<Longrightarrow>
   NewRedisStore ping load (redis_address getenv) [] 0 = Inr (ps_redis p) \<and>
   ps_api p = initial_api rate getenv hostname (store (ps_redis p)) (backend (ps_redis p)) \<and>
   ps_reconciler p = NewReconciler (store (ps_redis p)) True"
  by (auto simp: main_start_def split: sum.splits)

text \<open>
  The process starts as a follower: no part of it works before an election, and the elector and the scheduler
  are in the first state of the runs of \<open>Leadership\<close>.
\<close>

lemma main_starts_as_follower:
  assumes "main_start rate ping load getenv hostname store backend = Inr p"
  shows "\<exists>el. ap_elector (ps_api p) = Some el \<and> \<not> el_isLeader el \<and> \<not> active (ap_scheduler (ps_api p)) \<and>
    at_rest (node_start el (ap_scheduler (ps_api p))) \<and> ElectionLoop \<in> set (ps_goroutines p)"
proof -
  have "ElectionLoop \<in> set (ps_goroutines p)" using assms by (auto simp: main_start_def split: sum.splits)
  then show ?thesis
    using main_start_Inr [OF assms]
    by (simp add: initial_api_def NewAPI_def NewScheduler_def NewLeaderElector_def SetCallbacks_def at_rest_def node_start_def)
qed

text \<open>The interval of the reconciliation is read from the environment and reaches nothing.\<close>

lemma interval_is_unused:
  assumes "\<forall>k. k \<noteq> ''PRODUCTION_MODE'' \<longrightarrow> getenv' k = getenv k"
    and "main_start rate ping load getenv hostname store backend = Inr p"
    and "main_start rate ping load getenv' hostname store backend = Inr p'"
  shows "p' = p\<lparr>ps_reconcileInterval := ps_reconcileInterval p'\<rparr>"
proof -
  have "getenv' k = getenv k" if "k \<noteq> ''PRODUCTION_MODE''" for k using assms(1) that by blast
  then have e: "redis_address getenv' = redis_address getenv" "shard_config getenv' = shard_config getenv"
    "scheduler_config_of getenv' = scheduler_config_of getenv"
    by (simp_all add: redis_address_def shard_config_def scheduler_config_of_def)
  then show ?thesis using assms(2,3) by (auto simp: main_start_def initial_api_def split: sum.splits)
qed

end
