(* ===== verification/Spec2Isabelle.thy ===== *)
theory Spec2Isabelle
  imports SchedulerRun RedisStates TwoPhase PostgresStore Attestation MetricsHub Streaming EndToEnd Startup
begin

text \<open>
  The control plane of FluxForge (\<open>src/control_plane\<close>): agents register, clients declare desired states and ask
  for their reconciliation, and the leader of several replicas sends the check and apply commands to the agents.

  \<^bold>\<open>The parts and how they interact.\<close>

  An HTTP request passes CORS, the routes of \<open>main.go\<close> and the authentication middleware, which puts the token's
  tenant into its context; the handlers of \<open>api.go\<close> read and write the store. A request to reconcile becomes a
  task: \<open>Submit\<close> lets it through its gates (leadership, kill switch, circuit breaker, mode, queue bound, shard)
  into a heap, the scheduler's worker pops it, asks quarantine, failure domain, token buckets and the global
  budget, and starts a goroutine that calls the reconciler. The reconciler takes the agent's lock and runs check,
  apply and check as jobs, which the dispatcher posts to the agent and whose results come back through
  \<open>/jobs/result\<close>. Redis holds the leader's lease, the epochs that fence it and the records; the lock janitor
  and the agent monitor clean up behind the others; degraded mode keeps a cache and pending writes while Redis is
  away and synchronises them afterwards. Dashboards are pushed to WebSockets by one hub.

  \<^bold>\<open>Theories and sources.\<close>

  \<^item> \<open>Prelude\<close> (times, \<open>int64\<close>, results, Go maps, decimal numerals), \<open>Float64\<close> (binary64 with round to nearest
    even, which the scheduler's scores and rates are computed in), \<open>Base64\<close> (\<open>encoding/base64\<close>),
    \<open>BinaryHeap\<close> (\<open>container/heap\<close>): the parts of Go's standard library the code relies on.
  \<^item> \<open>StoreTypes\<close> (\<open>store/types.go\<close>, \<open>store/keys.go\<close>), \<open>StoreInterface\<close> (\<open>store/interface.go\<close> as contracts),
    \<open>MemoryStore\<close> (\<open>store/memory.go\<close>), \<open>PostgresStore\<close> (\<open>store/postgres.go\<close> over the tables of a schema),
    \<open>RedisServer\<close> (the commands of a Redis server and their laws), \<open>RedisLocks\<close> (\<open>store/redis.go\<close>: locks, leases,
    epochs; \<open>store/coordinator.go\<close>), \<open>RedisVersioned\<close> (\<open>store/redis_versioned.go\<close>), \<open>RedisStates\<close> (\<open>store/redis.go\<close>:
    agents, jobs, states), \<open>TwoPhase\<close> (\<open>store/redis_idempotency.go\<close>).
  \<^item> \<open>TaskQueue\<close> (\<open>scheduler/queue.go\<close>), \<open>CircuitBreaker\<close>, \<open>RateLimiter\<close> (\<open>scheduler/limiter.go\<close>), \<open>Timeline\<close>
    (\<open>timeline/store.go\<close>), \<open>Scheduler\<close> (\<open>scheduler/scheduler.go\<close>, \<open>scheduler/types.go\<close>); \<open>Admission\<close> and
    \<open>Quarantine\<close> prove what its operations promise, \<open>SchedulerRun\<close> every interleaving of its goroutines,
    \<open>WorkerLoop\<close> the loops of its worker and poller over time. \<open>TickerLoop\<close> is the shape of all background loops.
  \<^item> \<open>Reconciler\<close> (\<open>reconciler.go\<close>, \<open>jobs.go\<close>), \<open>Reconciliation\<close> and \<open>ReconcileStore\<close> (its properties).
  \<^item> \<open>LeaderElection\<close> (\<open>coordination/leader.go\<close>), \<open>ElectionRun\<close> (all electors together), \<open>Janitor\<close>,
    \<open>AgentMonitor\<close> (\<open>coordination/\<close>), \<open>Leadership\<close> (the callbacks of \<open>main.go\<close> between elector and scheduler).
  \<^item> \<open>DegradedMode\<close>, \<open>PendingSync\<close>, \<open>LeaderSync\<close> (\<open>resilience/\<close>).
  \<^item> \<open>Jwt\<close> (\<open>auth/jwt.go\<close>), \<open>Middleware\<close> (\<open>middleware/\<close>), \<open>Idempotency\<close> (\<open>idempotency/store.go\<close>), \<open>Api\<close> (\<open>api.go\<close>,
    \<open>utils.go\<close>, \<open>incident/capture.go\<close>), \<open>Dashboard\<close> (\<open>dashboard_service.go\<close> and the views), \<open>Routes\<close>
    (\<open>main.go\<close>), \<open>MetricsHub\<close> (\<open>ws_hub.go\<close>, \<open>api_stream.go\<close>), \<open>Streaming\<close> (\<open>streaming/\<close>), \<open>Attestation\<close>
    (\<open>attestation/\<close>); \<open>HttpSafety\<close>, \<open>HttpBehaviour\<close> and \<open>HttpDemo\<close> hold their properties and a process on which
    they are instantiated; \<open>EndToEnd\<close> follows one request through all layers.
  \<^item> \<open>Metrics\<close> (\<open>observability/metrics.go\<close>) declares the metrics over the client library, \<open>Telemetry\<close> has the
    updates of them, beside the operations of the other theories; \<open>Startup\<close> builds the process (the first half of
    \<open>main\<close>, \<open>NewRedisStore\<close>, \<open>NewPostgresStore\<close>).

  \<^bold>\<open>State and operations.\<close> A struct is a \<open>record\<close> with its fields, a method a function that returns the new record;
  a mutex makes a method one step, and where a method releases its lock in between it is cut there. Go's maps are
  partial functions, and what ranges over one takes the runtime's order of the keys as an argument. Errors are
  values (\<open>go_error + 'a\<close>), panics are \<open>None\<close> or an error of their own. Every reading of a clock, every network
  fault and everything other goroutines and nodes do at a point where they can is an argument, so the theorems
  hold for all of it. The interleavings themselves are inductive step relations: \<open>sys_step\<close> (scheduler),
  \<open>election_run\<close> (electors), \<open>dm_reach\<close> (degraded mode), \<open>lock_run\<close> (agent locks), \<open>hub_step\<close> (WebSockets),
  \<open>node_step\<close> (leadership and scheduler of a node) and \<open>worker_step\<close> (the worker against the clock). The other
  background loops take the choices of their select statements as a list (\<open>ticker_loop\<close>).

  \<^bold>\<open>Interfaces.\<close> Where a component relies on another one it does so through a locale, and every locale is
  interpreted on the code's own definitions: a priority queue over a fixed comparison (the task heap), lookup
  and update of records (the memory store), durable epochs (memory, Redis and Postgres counters), leases
  (\<open>RedisStore\<close>), versioned writes (its Lua scripts and the store of the tests), a cache of responses
  (process-local and Redis), alphabets of base64. \<open>redis_server\<close> states what the documentation of Redis says
  about single commands (a write is read back until it expires, \<open>SET NX\<close> writes only if there is
  nothing, scripts are atomic); a map of keys to values with expiry is an instance. \<open>metrics_registry\<close> does the
  same for the Prometheus client.

  \<^bold>\<open>What is shown.\<close>

  \<^item> Scheduler: the concurrency counters are exact and bounded by 100 and by 10 per failure domain; no task is lost
    or doubled; what \<open>Stop\<close> fences off; the exact admission policy; when a dispatch is allowed; the budget of a
    half-open breaker; the heap drains in order; the pace of the worker.
  \<^item> One request end to end: a reconcile request that was accepted, dispatched and carried out is shown as
    compliant. A reconciliation sends its commands in order, its success means that both checks were made, agents
    are reconciled one at a time, results reported in time are seen.
  \<^item> Coordination: epochs are never shared, leases exclude, workers with a live context belong to a leader; and
    what fails: a leader can outlive its lease, epochs do not follow the order of leaders, the janitor deposes
    a healthy leader, a short term leaves an active follower.
  \<^item> Degraded mode: its invariant in every run; the synchronisation never replaces newer values and loses nothing
    when undisturbed.
  \<^item> Stores: agreement of Redis and memory, serialised upserts, and that no state can be read back from Redis, so
    nothing is ever reconciled over it; epochs of Postgres.
  \<^item> HTTP: only holders of the secret change anything but the kill switch, requests stay in their tenant, records
    stay well formed, what tokens, idempotency keys and single requests mean; dashboards reach their tenants only;
    a signed claim cannot be altered.
  \<^item> Telemetry: no update panics, rejections are counted as they are returned, the leader's metrics agree with the
    elector; and metrics that mislead.

  Deviations from what comments and documents say, and behaviour that is hardly meant, are properties or lemmas
  of their own, each next to the property it limits.

  \<^bold>\<open>Bounds and fuel.\<close> No definition runs out of fuel. \<open>waitForJob\<close> polls every half second for at most
  \<open>je_polls\<close> rounds, 60 in the code's 30 seconds, and its theorem holds for every number; the election loop is
  stated for every number of rounds; \<open>wait_loop\<close> and the heap loops are functions with a termination proof, the
  former with a proved bound of 19 polls. The queue bound 1000, the budget 100, the cache bound 10000, the 200
  WebSockets, time-outs and thresholds are the constants of the source. Counters that live as long as the process
  wrap at 64 bits.

  \<^bold>\<open>Parameters.\<close> Code outside the repository is an argument: the token bucket of \<open>golang.org/x/time/rate\<close>, the
  Redis server, the rows and the hash function of PostgreSQL, HMAC, SHA-256 and RSA, JSON texts, gorilla's
  WebSockets, the Prometheus client, the HTTP client of the dispatcher and what the mux answers by itself. Hypotheses about them are
  named where they are used (\<open>redis_server\<close>, \<open>metrics_registry\<close>, \<open>rsa_pair\<close>, a text that is read back) and instantiated in the witnesses.

  \<^bold>\<open>Not modelled.\<close> Log lines and the banner, help texts of metrics, the schedule of a WebSocket's pings, the
  pools and sockets behind the clients of Redis and Postgres, data races on Go maps (they are undefined
  behaviour; findings name them), the agent and the web front end.
\<close>

end
